(* ===== verification/Prelude.thy ===== *)
theory Prelude
  imports Main "HOL-Library.Code_Target_Nat" "HOL-Library.Word" "HOL-Library.AList" "HOL-Library.List_Lexorder"
begin

text \<open>
  Shared vocabulary of the development: machine integers at their Rust widths, results as
  sums (\<open>Inl\<close> is \<open>Err\<close>, \<open>Inr\<close> is \<open>Ok\<close>), the big- and little-endian byte images of integers
  (\<open>to_be_bytes\<close>, \<open>from_le_bytes\<close>, ...), the fixed arrays \<open>[u8; 16]\<close>, and the finite hash
  maps the services iterate over. The collections of facts declared here
  (\<open>wire\<close>, \<open>svc\<close>) carry the component proofs.
\<close>

section \<open>Types and fact collections\<close>

type_synonym u8 = "8 word"
type_synonym u16 = "16 word"
type_synonym u32 = "32 word"
type_synonym u64 = "64 word"
type_synonym bytes = "u8 list"

text \<open>A duration or an instant is a number of nanoseconds.\<close>

type_synonym nanos = nat

abbreviation from_secs :: "nat \<Rightarrow> nanos" where
  "from_secs n \<equiv> n * 1000000000"

abbreviation from_millis :: "nat \<Rightarrow> nanos" where
  "from_millis n \<equiv> n * 1000000"

named_theorems wire "rewriting of encoders and decoders"
named_theorems reads_rules "rules that read back what an encoder wrote"
named_theorems svc "definitions of the relay service's operations"

section \<open>Results\<close>

definition res_bind :: "'e + 'a \<Rightarrow> ('a \<Rightarrow> 'e + 'b) \<Rightarrow> 'e + 'b" where
  "res_bind m f = (case m of Inl e \<Rightarrow> Inl e | Inr x \<Rightarrow> f x)"

lemma res_bind_simps [simp]:
  "res_bind (Inl e) f = Inl e"
  "res_bind (Inr x) f = f x"
  by (simp_all add: res_bind_def)

lemma res_bind_Inr_iff [simp]:
  "res_bind m f = Inr y \<longleftrightarrow> (\<exists>x. m = Inr x \<and> f x = Inr y)"
  by (cases m) simp_all

lemma res_bind_Inl_iff:
  "res_bind m f = Inl e \<longleftrightarrow> m = Inl e \<or> (\<exists>x. m = Inr x \<and> f x = Inl e)"
  by (cases m) auto

lemma not_isl_iff: "\<not> isl v \<longleftrightarrow> (\<exists>x. v = Inr x)"
  by (cases v) simp_all

definition ok_or :: "'e \<Rightarrow> 'a option \<Rightarrow> 'e + 'a" where
  "ok_or e x = (case x of None \<Rightarrow> Inl e | Some v \<Rightarrow> Inr v)"

lemma ok_or_simps [simp]:
  "ok_or e None = Inl e" "ok_or e (Some x) = Inr x"
  by (simp_all add: ok_or_def)

lemma ok_or_Inr_iff [simp]: "ok_or e x = Inr v \<longleftrightarrow> x = Some v"
  by (cases x) simp_all

text \<open>
  A writer appends to one byte vector. A fallible writer is a list of writes whose first
  error is the result, as the \<open>?\<close> operator makes it.
\<close>

fun wseq :: "('e + bytes) list \<Rightarrow> 'e + bytes" where
  "wseq [] = Inr []"
| "wseq (w # ws) = res_bind w (\<lambda>a. res_bind (wseq ws) (\<lambda>b. Inr (a @ b)))"

lemma wseq_append_Inr:
  "wseq (ws @ vs) = Inr bs \<longleftrightarrow> (\<exists>a b. wseq ws = Inr a \<and> wseq vs = Inr b \<and> bs = a @ b)"
  by (induction ws arbitrary: bs) fastforce+

section \<open>Endian byte images\<close>

fun le_of_nat :: "nat \<Rightarrow> nat \<Rightarrow> bytes" where
  "le_of_nat 0 v = []"
| "le_of_nat (Suc n) v = of_nat (v mod 256) # le_of_nat n (v div 256)"

fun nat_of_le :: "bytes \<Rightarrow> nat" where
  "nat_of_le [] = 0"
| "nat_of_le (b # bs) = unat b + 256 * nat_of_le bs"

definition to_le_bytes :: "'a::len word \<Rightarrow> bytes" where
  "to_le_bytes w = le_of_nat (LENGTH('a) div 8) (unat w)"

definition from_le_bytes :: "bytes \<Rightarrow> 'a::len word" where
  "from_le_bytes bs = of_nat (nat_of_le bs)"

definition to_be_bytes :: "'a::len word \<Rightarrow> bytes" where
  "to_be_bytes w = rev (to_le_bytes w)"

definition from_be_bytes :: "bytes \<Rightarrow> 'a::len word" where
  "from_be_bytes bs = from_le_bytes (rev bs)"

lemma length_le_of_nat [simp]: "length (le_of_nat n v) = n"
  by (induction n arbitrary: v) simp_all

lemma unat_u8_of_nat_mod [simp]: "unat (of_nat (v mod 256) :: u8) = v mod 256"
  by (simp add: unat_of_nat)

lemma nat_of_le_of_nat: "nat_of_le (le_of_nat n v) = v mod 256 ^ n"
proof (induction n arbitrary: v)
  case (Suc n)
  then show ?case by (simp add: mod_mult2_eq)
qed simp

lemma nat_of_le_bound: "nat_of_le bs < 256 ^ length bs"
proof (induction bs)
  case (Cons b bs)
  have "unat b < 2 ^ LENGTH(8)" by (rule unsigned_less)
  with Cons show ?case by simp
qed simp

lemma le_of_nat_of_le: "le_of_nat (length bs) (nat_of_le bs) = bs"
proof (induction bs)
  case (Cons b bs)
  have "unat b < 2 ^ LENGTH(8)" by (rule unsigned_less)
  then have b: "unat b < 256" by simp
  then have "(unat b + 256 * nat_of_le bs) mod 256 = unat b" by simp
  moreover from b have "(unat b + 256 * nat_of_le bs) div 256 = nat_of_le bs" by simp
  ultimately show ?case using Cons by simp
qed simp

lemma length_to_le_bytes: "length (to_le_bytes (w :: 'a::len word)) = LENGTH('a) div 8"
  by (simp add: to_le_bytes_def)

lemma length_to_be_bytes: "length (to_be_bytes (w :: 'a::len word)) = LENGTH('a) div 8"
  by (simp add: to_be_bytes_def length_to_le_bytes)

lemma from_le_to_le:
  assumes "8 dvd LENGTH('a::len)"
  shows "from_le_bytes (to_le_bytes w) = (w :: 'a word)"
proof -
  have "(256::nat) ^ (LENGTH('a) div 8) = 2 ^ (8 * (LENGTH('a) div 8))"
    by (simp add: power_mult)
  also have "\<dots> = 2 ^ LENGTH('a)" using assms by simp
  finally have "unat w mod 256 ^ (LENGTH('a) div 8) = unat w"
    by (simp add: unsigned_less)
  then show ?thesis
    by (simp add: from_le_bytes_def to_le_bytes_def nat_of_le_of_nat)
qed

lemma to_le_from_le:
  assumes "8 * length bs = LENGTH('a::len)"
  shows "to_le_bytes (from_le_bytes bs :: 'a word) = bs"
proof -
  have "(256::nat) ^ length bs = 2 ^ LENGTH('a)"
    by (simp add: power_mult flip: assms)
  then have "unat (of_nat (nat_of_le bs) :: 'a word) = nat_of_le bs"
    using nat_of_le_bound [of bs] by (simp add: unat_of_nat)
  moreover have "LENGTH('a) div 8 = length bs" using assms by simp
  ultimately show ?thesis
    by (simp add: from_le_bytes_def to_le_bytes_def le_of_nat_of_le)
qed

lemma from_be_to_be:
  "8 dvd LENGTH('a::len) \<Longrightarrow> from_be_bytes (to_be_bytes w) = (w :: 'a word)"
  by (simp add: from_be_bytes_def to_be_bytes_def from_le_to_le)

lemma to_be_from_be:
  "8 * length bs = LENGTH('a::len) \<Longrightarrow> to_be_bytes (from_be_bytes bs :: 'a word) = bs"
  by (simp add: from_be_bytes_def to_be_bytes_def to_le_from_le)

lemma byte_image_lengths [simp]:
  "length (to_be_bytes (x :: u16)) = 2" "length (to_be_bytes (y :: u32)) = 4"
  "length (to_be_bytes (z :: u64)) = 8" "length (to_le_bytes (x :: u16)) = 2"
  "length (to_le_bytes (y :: u32)) = 4" "length (to_le_bytes (z :: u64)) = 8"
  by (simp_all add: length_to_be_bytes length_to_le_bytes)

lemma byte_image_inverses [simp]:
  "from_be_bytes (to_be_bytes (x :: u16)) = x" "from_be_bytes (to_be_bytes (y :: u32)) = y"
  "from_be_bytes (to_be_bytes (z :: u64)) = z" "from_le_bytes (to_le_bytes (x :: u16)) = x"
  "from_le_bytes (to_le_bytes (y :: u32)) = y" "from_le_bytes (to_le_bytes (z :: u64)) = z"
  by (simp_all add: from_be_to_be from_le_to_le)

lemma unat_of_nat_u8 [simp]: "n < 256 \<Longrightarrow> unat (of_nat n :: u8) = n"
  by (simp add: unat_of_nat)

lemma unat_of_nat_u16 [simp]: "n < 65536 \<Longrightarrow> unat (of_nat n :: u16) = n"
  by (simp add: unat_of_nat)

lemma unat_of_nat_u32 [simp]: "n < 4294967296 \<Longrightarrow> unat (of_nat n :: u32) = n"
  by (simp add: unat_of_nat)

lemma find_append: "find P (xs @ ys) = (case find P xs of None \<Rightarrow> find P ys | Some x \<Rightarrow> Some x)"
  by (induction xs) simp_all

end
