(* ===== verification/Rust_Std.thy ===== *)
theory Rust_Std
  imports Prelude
begin

text \<open>
  What the sources use of Rust's standard library beyond integers: the array \<open>[u8; 16]\<close>
  with its derived lexicographic order, \<open>String\<close>/\<open>str\<close> as byte strings that are well-formed
  UTF-8 (\<open>len\<close>, \<open>as_bytes\<close>, \<open>chars\<close>, \<open>trim\<close>, \<open>split_once\<close>, \<open>from_utf8\<close>), and \<open>HashMap\<close> as
  an association list with distinct keys whose order stands for the map's unspecified
  iteration order. \<open>hash_table\<close> is the interface the service relies on; it is interpreted
  on association lists at the end.
\<close>

section \<open>Arrays of sixteen bytes\<close>

typedef array16 = "{bs :: bytes. length bs = 16}"
  morphisms array_bytes Array16
  by (rule exI [of _ "replicate 16 0"]) simp

declare array_bytes_inverse [code abstype]

definition array_of :: "bytes \<Rightarrow> array16" where
  "array_of bs = Array16 (if length bs = 16 then bs else replicate 16 0)"

definition to_array16 :: "bytes \<Rightarrow> array16 option" where
  "to_array16 bs = (if length bs = 16 then Some (array_of bs) else None)"

lemma length_array_bytes [simp]: "length (array_bytes a) = 16"
  using array_bytes [of a] by simp

lemma array_bytes_eq_iff: "a = b \<longleftrightarrow> array_bytes a = array_bytes b"
  by (simp add: array_bytes_inject)

lemma array_bytes_array_of_if [code abstract]:
  "array_bytes (array_of bs) = (if length bs = 16 then bs else replicate 16 0)"
  by (simp add: array_of_def Array16_inverse)

lemma array_bytes_array_of [simp]: "length bs = 16 \<Longrightarrow> array_bytes (array_of bs) = bs"
  by (simp add: array_bytes_array_of_if)

lemma array_of_array_bytes [simp]: "array_of (array_bytes a) = a"
  by (simp add: array_bytes_eq_iff)

lemma to_array16_array_bytes [simp]: "to_array16 (array_bytes a) = Some a"
  by (simp add: to_array16_def)

lemma to_array16_Some_iff [simp]: "to_array16 bs = Some a \<longleftrightarrow> bs = array_bytes a"
  by (auto simp: to_array16_def array_bytes_eq_iff)

instantiation array16 :: equal
begin
definition "HOL.equal a b \<longleftrightarrow> array_bytes a = array_bytes b" for a b :: array16
instance by standard (simp add: equal_array16_def array_bytes_inject)
end

instantiation array16 :: linorder
begin
definition "a \<le> b \<longleftrightarrow> array_bytes a \<le> array_bytes b" for a b :: array16
definition "a < b \<longleftrightarrow> array_bytes a < array_bytes b" for a b :: array16
instance
  by standard (auto simp: less_eq_array16_def less_array16_def array_bytes_eq_iff)
end

section \<open>UTF-8 strings\<close>

definition cont_byte :: "u8 \<Rightarrow> bool" where
  "cont_byte b \<longleftrightarrow> 0x80 \<le> b \<and> b \<le> 0xBF"

definition lead2 :: "u8 \<Rightarrow> u8 \<Rightarrow> bool" where
  "lead2 b c \<longleftrightarrow> 0xC2 \<le> b \<and> b \<le> 0xDF \<and> cont_byte c"

definition lead3 :: "u8 \<Rightarrow> u8 \<Rightarrow> bool" where
  "lead3 b c \<longleftrightarrow> (b = 0xE0 \<and> 0xA0 \<le> c \<and> c \<le> 0xBF) \<or> (0xE1 \<le> b \<and> b \<le> 0xEC \<and> cont_byte c) \<or>
     (b = 0xED \<and> 0x80 \<le> c \<and> c \<le> 0x9F) \<or> (0xEE \<le> b \<and> b \<le> 0xEF \<and> cont_byte c)"

definition lead4 :: "u8 \<Rightarrow> u8 \<Rightarrow> bool" where
  "lead4 b c \<longleftrightarrow> (b = 0xF0 \<and> 0x90 \<le> c \<and> c \<le> 0xBF) \<or> (0xF1 \<le> b \<and> b \<le> 0xF3 \<and> cont_byte c) \<or>
     (b = 0xF4 \<and> 0x80 \<le> c \<and> c \<le> 0x8F)"

text \<open>
  \<open>next_char\<close> splits the first character, kept as its own encoding, off a byte string;
  it is \<open>None\<close> where the bytes are not well-formed UTF-8. \<open>utf8_chars\<close> splits the whole string.
\<close>

definition next_char :: "bytes \<Rightarrow> (bytes \<times> bytes) option" where
  "next_char bs = (case bs of [] \<Rightarrow> None | b # r0 \<Rightarrow>
     if b < 0x80 then Some ([b], r0)
     else case r0 of [] \<Rightarrow> None | c1 # r1 \<Rightarrow>
       if lead2 b c1 then Some ([b, c1], r1)
       else case r1 of [] \<Rightarrow> None | c2 # r2 \<Rightarrow>
         if lead3 b c1 \<and> cont_byte c2 then Some ([b, c1, c2], r2)
         else case r2 of [] \<Rightarrow> None | c3 # r3 \<Rightarrow>
           if lead4 b c1 \<and> cont_byte c2 \<and> cont_byte c3 then Some ([b, c1, c2, c3], r3) else None)"

lemma next_char_SomeD:
  assumes "next_char bs = Some (c, rest)"
  shows "bs = c @ rest" and "0 < length c" and "length c \<le> 4"
  using assms by (auto simp: next_char_def split: list.splits if_splits)

function utf8_chars :: "bytes \<Rightarrow> bytes list option" where
  "utf8_chars bs = (if bs = [] then Some [] else
     case next_char bs of None \<Rightarrow> None
     | Some (c, rest) \<Rightarrow> map_option ((#) c) (utf8_chars rest))"
  by pat_completeness auto
termination
proof (relation "measure length")
  fix bs x c rest
  assume "next_char bs = Some x" and "(c, rest) = x"
  then have "next_char bs = Some (c, rest)" by simp
  from next_char_SomeD [OF this] show "(rest, bs) \<in> measure length" by simp
qed simp

declare utf8_chars.simps [simp del]

definition utf8 :: "bytes \<Rightarrow> bool" where
  "utf8 bs \<longleftrightarrow> utf8_chars bs \<noteq> None"

text \<open>One well-formed character is a byte string that is its own first character.\<close>

definition wf_char :: "bytes \<Rightarrow> bool" where
  "wf_char c \<longleftrightarrow> next_char c = Some (c, [])"

text \<open>The Unicode scalar value of one well-formed character.\<close>

fun char_code :: "bytes \<Rightarrow> nat" where
  "char_code [b] = unat b"
| "char_code [b, c1] = (unat b - 0xC0) * 64 + (unat c1 - 0x80)"
| "char_code [b, c1, c2] = (unat b - 0xE0) * 4096 + (unat c1 - 0x80) * 64 + (unat c2 - 0x80)"
| "char_code [b, c1, c2, c3] =
     (unat b - 0xF0) * 262144 + (unat c1 - 0x80) * 4096 + (unat c2 - 0x80) * 64 + (unat c3 - 0x80)"
| "char_code _ = 0"

text \<open>\<open>char::is_control\<close> (general category Cc) and \<open>char::is_whitespace\<close> (White_Space).\<close>

definition is_control :: "bytes \<Rightarrow> bool" where
  "is_control c = (let n = char_code c in n \<le> 0x1F \<or> (0x7F \<le> n \<and> n \<le> 0x9F))"

definition is_whitespace :: "bytes \<Rightarrow> bool" where
  "is_whitespace c = (let n = char_code c in
     (0x9 \<le> n \<and> n \<le> 0xD) \<or> n = 0x20 \<or> n = 0x85 \<or> n = 0xA0 \<or> n = 0x1680 \<or>
     (0x2000 \<le> n \<and> n \<le> 0x200A) \<or> n = 0x2028 \<or> n = 0x2029 \<or> n = 0x202F \<or> n = 0x205F \<or> n = 0x3000)"

lemma wf_char_next_char: "next_char bs = Some (c, rest) \<Longrightarrow> wf_char c"
  by (auto simp: wf_char_def next_char_def split: list.splits if_splits)

lemma next_char_append: "wf_char c \<Longrightarrow> next_char (c @ bs) = Some (c, bs)"
  by (auto simp: wf_char_def next_char_def split: list.splits if_splits)

lemma length_wf_char: "wf_char c \<Longrightarrow> 0 < length c \<and> length c \<le> 4"
  unfolding wf_char_def by (blast dest: next_char_SomeD)

lemma utf8_chars_Nil [simp]: "utf8_chars [] = Some []"
  by (simp add: utf8_chars.simps)

lemma utf8_chars_sound:
  "utf8_chars bs = Some cs \<Longrightarrow> concat cs = bs \<and> (\<forall>c \<in> set cs. wf_char c)"
proof (induction bs arbitrary: cs rule: utf8_chars.induct)
  case (1 bs)
  show ?case
  proof (cases "bs = []")
    case False
    with "1.prems" obtain c rest ds where n: "next_char bs = Some (c, rest)"
      and ds: "utf8_chars rest = Some ds" "cs = c # ds"
      by (auto simp: utf8_chars.simps [of bs] split: option.splits)
    from "1.IH" [OF False n refl ds(1)] have "concat ds = rest \<and> (\<forall>c \<in> set ds. wf_char c)" .
    with ds(2) next_char_SomeD(1) [OF n] wf_char_next_char [OF n] show ?thesis by simp
  qed (use "1.prems" in auto)
qed

lemma utf8_chars_char_append:
  assumes "wf_char c"
  shows "utf8_chars (c @ bs) = map_option ((#) c) (utf8_chars bs)"
  using length_wf_char [OF assms] by (subst utf8_chars.simps) (auto simp: next_char_append [OF assms])

lemma utf8_chars_complete:
  "\<forall>c \<in> set cs. wf_char c \<Longrightarrow> utf8_chars (concat cs) = Some cs"
  by (induction cs) (auto simp: utf8_chars_char_append)

lemma wf_char_high:
  assumes "wf_char c" and "b < 0x80" and "b \<in> set c"
  shows "c = [b]"
proof -
  have ge: "\<not> k \<le> b" if "0x80 \<le> k" for k
    using assms(2) that by (meson leD order_trans)
  have low: "\<not> cont_byte b" "\<not> lead2 b x" "\<not> lead3 b x" "\<not> lead4 b x"
    "\<not> lead2 x b" "\<not> lead3 x b" "\<not> lead4 x b" for x
    using assms(2) by (auto simp: ge cont_byte_def lead2_def lead3_def lead4_def)
  from assms(1,3) low show ?thesis
    by (auto simp: wf_char_def next_char_def split: list.splits if_splits)
qed

lemma utf8_char_byte: "b < 0x80 \<Longrightarrow> wf_char [b]"
  by (simp add: wf_char_def next_char_def)

text \<open>A string is cut at an ASCII separator between characters.\<close>

lemma takeWhile_concat_chars:
  assumes "\<forall>c \<in> set cs. wf_char c" and "b < 0x80"
  shows "takeWhile (\<lambda>x. x \<noteq> b) (concat cs) = concat (takeWhile (\<lambda>c. c \<noteq> [b]) cs)"
  using assms
proof (induction cs)
  case (Cons c cs)
  have wf: "wf_char c" and IH: "takeWhile (\<lambda>x. x \<noteq> b) (concat cs) = concat (takeWhile (\<lambda>c. c \<noteq> [b]) cs)"
    using Cons by simp_all
  show ?case
  proof (cases "c = [b]")
    case False
    with wf_char_high [OF wf Cons.prems(2)] have "b \<notin> set c" by blast
    then have "takeWhile (\<lambda>x. x \<noteq> b) (c @ concat cs) = c @ takeWhile (\<lambda>x. x \<noteq> b) (concat cs)"
      by (intro takeWhile_append2) auto
    with False IH show ?thesis by simp
  qed simp
qed simp

lemma utf8_takeWhile:
  assumes "utf8 bs" and "b < 0x80"
  shows "utf8 (takeWhile (\<lambda>x. x \<noteq> b) bs)"
proof -
  obtain cs where cs: "utf8_chars bs = Some cs" using assms(1) by (auto simp: utf8_def)
  note sound = utf8_chars_sound [OF cs]
  have "takeWhile (\<lambda>x. x \<noteq> b) bs = concat (takeWhile (\<lambda>c. c \<noteq> [b]) cs)"
    using takeWhile_concat_chars [of cs b] sound assms(2) by auto
  moreover have "\<forall>c \<in> set (takeWhile (\<lambda>c. c \<noteq> [b]) cs). wf_char c"
    using sound by (auto dest: set_takeWhileD)
  ultimately show ?thesis by (auto simp: utf8_def utf8_chars_complete)
qed

lemma utf8_ascii: "\<forall>b \<in> set bs. b < 0x80 \<Longrightarrow> utf8 bs"
  using utf8_chars_complete [of "map (\<lambda>b. [b]) bs"] by (auto simp: utf8_def utf8_char_byte)

typedef str = "{bs :: bytes. utf8 bs}"
  morphisms str_bytes Str
  by (rule exI [of _ "[]"]) (simp add: utf8_def)

declare str_bytes_inverse [code abstype]

lemma utf8_str_bytes [simp]: "utf8 (str_bytes s)"
  using str_bytes [of s] by simp

lemma str_bytes_eq_iff: "s = t \<longleftrightarrow> str_bytes s = str_bytes t"
  by (simp add: str_bytes_inject)

text \<open>A byte string as a string; the empty one when it is not UTF-8.\<close>

definition str_of :: "bytes \<Rightarrow> str" where
  "str_of bs = Str (if utf8 bs then bs else [])"

lemma str_bytes_str_of [code abstract]: "str_bytes (str_of bs) = (if utf8 bs then bs else [])"
  by (simp add: str_of_def Str_inverse utf8_def)

definition from_utf8 :: "bytes \<Rightarrow> str option" where
  "from_utf8 bs = (if utf8 bs then Some (str_of bs) else None)"

text \<open>String literals (ASCII).\<close>

definition lit :: "string \<Rightarrow> str" where
  "lit cs = str_of (map of_char cs)"

instantiation str :: equal
begin
definition "HOL.equal s t \<longleftrightarrow> str_bytes s = str_bytes t" for s t :: str
instance by standard (simp add: equal_str_def str_bytes_inject)
end

definition str_len :: "str \<Rightarrow> nat" where
  "str_len s = length (str_bytes s)"

definition str_is_empty :: "str \<Rightarrow> bool" where
  "str_is_empty s \<longleftrightarrow> str_bytes s = []"

definition str_chars :: "str \<Rightarrow> bytes list" where
  "str_chars s = (case utf8_chars (str_bytes s) of None \<Rightarrow> [] | Some cs \<Rightarrow> cs)"

definition collect_chars :: "bytes list \<Rightarrow> str" where
  "collect_chars cs = str_of (concat cs)"

text \<open>\<open>split_once\<close>: the part before the first (ASCII) separator, when there is one.\<close>

definition before_byte :: "u8 \<Rightarrow> str \<Rightarrow> str option" where
  "before_byte b s =
     (if b \<in> set (str_bytes s) then Some (str_of (takeWhile (\<lambda>x. x \<noteq> b) (str_bytes s))) else None)"

text \<open>\<open>trim\<close> drops White_Space characters at both ends.\<close>

definition trim_chars :: "bytes list \<Rightarrow> bytes list" where
  "trim_chars cs = rev (dropWhile is_whitespace (rev (dropWhile is_whitespace cs)))"

lemma str_of_str_bytes [simp]: "str_of (str_bytes s) = s"
  by (simp add: str_bytes_eq_iff str_bytes_str_of)

lemma from_utf8_str_bytes [simp]: "from_utf8 (str_bytes s) = Some s"
  by (simp add: from_utf8_def)

lemma from_utf8_Some_iff: "from_utf8 bs = Some s \<longleftrightarrow> bs = str_bytes s"
  by (auto simp: from_utf8_def str_bytes_eq_iff str_bytes_str_of)

lemma str_bytes_before_byte:
  "before_byte b s = Some t \<Longrightarrow> b < 0x80 \<Longrightarrow> str_bytes t = takeWhile (\<lambda>x. x \<noteq> b) (str_bytes s)"
  by (auto simp: before_byte_def str_bytes_str_of utf8_takeWhile split: if_splits)

lemma str_chars_wf: "c \<in> set (str_chars s) \<Longrightarrow> wf_char c"
  by (cases "utf8_chars (str_bytes s)") (auto simp: str_chars_def dest: utf8_chars_sound)

lemma str_bytes_collect_chars:
  "\<forall>c \<in> set cs. wf_char c \<Longrightarrow> str_bytes (collect_chars cs) = concat cs"
  by (simp add: collect_chars_def str_bytes_str_of utf8_def utf8_chars_complete)

lemma length_concat_chars:
  "\<forall>c \<in> set cs. wf_char c \<Longrightarrow> length (concat cs) \<le> 4 * length cs"
  by (induction cs) (auto dest: length_wf_char)

lemma set_trim_chars: "set (trim_chars cs) \<subseteq> set cs"
  by (auto simp: trim_chars_def dest!: set_dropWhileD)

section \<open>Hash maps\<close>

type_synonym ('k, 'v) hash_map = "('k \<times> 'v) list"

abbreviation hm_get :: "('k, 'v) hash_map \<Rightarrow> 'k \<Rightarrow> 'v option" where
  "hm_get m k \<equiv> map_of m k"

abbreviation hm_insert :: "'k \<Rightarrow> 'v \<Rightarrow> ('k, 'v) hash_map \<Rightarrow> ('k, 'v) hash_map" where
  "hm_insert k v m \<equiv> AList.update k v m"

abbreviation hm_remove :: "'k \<Rightarrow> ('k, 'v) hash_map \<Rightarrow> ('k, 'v) hash_map" where
  "hm_remove k m \<equiv> AList.delete k m"

abbreviation hm_keys :: "('k, 'v) hash_map \<Rightarrow> 'k list" where
  "hm_keys m \<equiv> map fst m"

abbreviation hm_contains :: "('k, 'v) hash_map \<Rightarrow> 'k \<Rightarrow> bool" where
  "hm_contains m k \<equiv> hm_get m k \<noteq> None"

abbreviation hm_ok :: "('k, 'v) hash_map \<Rightarrow> bool" where
  "hm_ok m \<equiv> distinct (hm_keys m)"

text \<open>Two maps are inverse when each undoes the other.\<close>

definition inverse_maps :: "('a \<Rightarrow> 'b option) \<Rightarrow> ('b \<Rightarrow> 'a option) \<Rightarrow> bool" where
  "inverse_maps f g \<longleftrightarrow> (\<forall>a b. f a = Some b \<longleftrightarrow> g b = Some a)"

lemma inverse_mapsD: "inverse_maps f g \<Longrightarrow> f a = Some b \<Longrightarrow> g b = Some a"
  by (simp add: inverse_maps_def)

lemma inverse_mapsD2: "inverse_maps f g \<Longrightarrow> g b = Some a \<Longrightarrow> f a = Some b"
  by (simp add: inverse_maps_def)

lemma inverse_maps_upd:
  "inverse_maps f g \<Longrightarrow> f a = None \<Longrightarrow> g b = None \<Longrightarrow> inverse_maps (f(a \<mapsto> b)) (g(b \<mapsto> a))"
  unfolding inverse_maps_def by (auto; metis option.distinct(1))

lemma inverse_maps_del:
  "inverse_maps f g \<Longrightarrow> f a = Some b \<Longrightarrow> inverse_maps (f(a := None)) (g(b := None))"
  unfolding inverse_maps_def by (auto; metis option.inject)

locale hash_table =
  fixes get :: "'m \<Rightarrow> 'k \<Rightarrow> 'v option"
    and insert_kv :: "'k \<Rightarrow> 'v \<Rightarrow> 'm \<Rightarrow> 'm"
    and remove :: "'k \<Rightarrow> 'm \<Rightarrow> 'm"
    and keys :: "'m \<Rightarrow> 'k list"
    and ok :: "'m \<Rightarrow> bool"
  assumes get_insert: "get (insert_kv k v m) = (get m)(k \<mapsto> v)"
    and get_remove: "get (remove k m) = (get m)(k := None)"
    and set_keys: "set (keys m) = dom (get m)"
    and keys_distinct: "ok m \<Longrightarrow> distinct (keys m)"
    and ok_insert: "ok m \<Longrightarrow> ok (insert_kv k v m)"
    and ok_remove: "ok m \<Longrightarrow> ok (remove k m)"
begin

lemma keys_insert: "set (keys (insert_kv k v m)) = insert k (set (keys m))"
  by (simp add: set_keys get_insert)

lemma keys_remove: "set (keys (remove k m)) = set (keys m) - {k}"
  by (auto simp: set_keys get_remove)

lemma length_keys: "ok m \<Longrightarrow> length (keys m) = card (dom (get m))"
  by (metis distinct_card keys_distinct set_keys)

lemma inverse_insert_fresh:
  "inverse_maps (get m) g \<Longrightarrow> get m a = None \<Longrightarrow> g b = None \<Longrightarrow>
   inverse_maps (get (insert_kv a b m)) (g(b \<mapsto> a))"
  by (simp add: get_insert inverse_maps_upd)

lemma inverse_remove_pair:
  "inverse_maps (get m) g \<Longrightarrow> get m a = Some b \<Longrightarrow>
   inverse_maps (get (remove a m)) (g(b := None))"
  by (simp add: get_remove inverse_maps_del)

end

interpretation hm: hash_table map_of AList.update AList.delete "map fst" "\<lambda>m. distinct (map fst m)"
proof unfold_locales
  show "set (map fst m) = dom (map_of m)" for m :: "('a \<times> 'b) list"
    by (simp add: dom_map_of_conv_image_fst)
qed (simp_all add: update_conv' delete_conv' distinct_update distinct_delete)

text \<open>Lookups stay lookups, also in maps whose keys are known to be distinct.\<close>

declare map_of_eq_Some_iff [simp del]

lemmas hm_simps = hm.get_insert hm.get_remove hm.ok_insert hm.ok_remove

end
