(* ===== verification/Protocol_Types.thy ===== *)
theory Protocol_Types
  imports Rust_Std
begin

text \<open>
  The data of \<^verbatim>\<open>crates/master_protocol/src/lib.rs\<close>: limits and wire tags, identifiers with
  their hexadecimal text form, content flags, and the requests, responses, events and
  frames of the control protocol. A Rust struct is a record, an enum a datatype whose
  constructors carry a prefix for the enum (\<open>Req\<close>, \<open>Resp\<close>, \<open>Ev\<close>, \<open>Fr\<close>), because several
  enums share variant names.
\<close>

unbundle bit_operations_syntax

section \<open>Limits and tags\<close>

abbreviation (input) PROTOCOL_VERSION :: u16 where "PROTOCOL_VERSION \<equiv> 10"
abbreviation (input) MAX_CONTROL_BYTES :: nat where "MAX_CONTROL_BYTES \<equiv> 16384"
abbreviation (input) MAX_OPAQUE_PAYLOAD :: nat where "MAX_OPAQUE_PAYLOAD \<equiv> 1100"
abbreviation (input) MAX_BOOTSTRAP_PAYLOAD :: nat where "MAX_BOOTSTRAP_PAYLOAD \<equiv> 262144"
abbreviation (input) MAX_BOOTSTRAP_STREAM_BYTES :: nat where
  "MAX_BOOTSTRAP_STREAM_BYTES \<equiv> 2 + 16 + MAX_BOOTSTRAP_PAYLOAD"
abbreviation (input) MAX_SESSION_MEMBERS :: u8 where "MAX_SESSION_MEMBERS \<equiv> 18"
abbreviation (input) MAX_ADVERT_NAME_BYTES :: nat where "MAX_ADVERT_NAME_BYTES \<equiv> 48"
abbreviation (input) MAX_MAP_BYTES :: nat where "MAX_MAP_BYTES \<equiv> 64"
abbreviation (input) MAX_MODE_BYTES :: nat where "MAX_MODE_BYTES \<equiv> 24"
abbreviation (input) MAX_BUILD_BYTES :: nat where "MAX_BUILD_BYTES \<equiv> 64"
abbreviation (input) MAX_PLAYER_NAME_BYTES :: nat where "MAX_PLAYER_NAME_BYTES \<equiv> 64"
abbreviation (input) MAX_LIST_ADVERTS :: nat where "MAX_LIST_ADVERTS \<equiv> 128"
abbreviation (input) MAX_PASSWORD_BYTES :: nat where "MAX_PASSWORD_BYTES \<equiv> 64"

definition MAGIC :: bytes where "MAGIC = [0x49, 0x57, 0x34, 0x4D]" \<comment> \<open>\<open>IW4M\<close>\<close>
abbreviation (input) HEADER_BYTES :: nat where "HEADER_BYTES \<equiv> 17"

abbreviation (input) KIND_HELLO :: u8 where "KIND_HELLO \<equiv> 0"
abbreviation (input) KIND_REQUEST :: u8 where "KIND_REQUEST \<equiv> 1"
abbreviation (input) KIND_RESPONSE :: u8 where "KIND_RESPONSE \<equiv> 2"
abbreviation (input) KIND_ROOM_VIEW :: u8 where "KIND_ROOM_VIEW \<equiv> 3"
abbreviation (input) KIND_CLOSED :: u8 where "KIND_CLOSED \<equiv> 4"
abbreviation (input) KIND_PEER_EVENT :: u8 where "KIND_PEER_EVENT \<equiv> 5"
abbreviation (input) KIND_RELAY :: u8 where "KIND_RELAY \<equiv> 6" \<comment> \<open>a literal in the source\<close>

abbreviation (input) TAG_STATUS :: u8 where "TAG_STATUS \<equiv> 1"
abbreviation (input) TAG_CREATE_ROOM :: u8 where "TAG_CREATE_ROOM \<equiv> 2"
abbreviation (input) TAG_JOIN_ROOM :: u8 where "TAG_JOIN_ROOM \<equiv> 3"
abbreviation (input) TAG_LEAVE_ROOM :: u8 where "TAG_LEAVE_ROOM \<equiv> 4"
abbreviation (input) TAG_SET_OPTIONS :: u8 where "TAG_SET_OPTIONS \<equiv> 5"
abbreviation (input) TAG_START_MATCH :: u8 where "TAG_START_MATCH \<equiv> 6"
abbreviation (input) TAG_END_MATCH :: u8 where "TAG_END_MATCH \<equiv> 7"
abbreviation (input) TAG_CLOSE_ROOM :: u8 where "TAG_CLOSE_ROOM \<equiv> 8"
abbreviation (input) TAG_LIST_ROOMS :: u8 where "TAG_LIST_ROOMS \<equiv> 9"
abbreviation (input) TAG_HOST_WORLD_READY :: u8 where "TAG_HOST_WORLD_READY \<equiv> 10"
abbreviation (input) TAG_MAP_LOADED :: u8 where "TAG_MAP_LOADED \<equiv> 11"
abbreviation (input) TAG_BOOTSTRAP_APPLIED :: u8 where "TAG_BOOTSTRAP_APPLIED \<equiv> 12"
abbreviation (input) TAG_ENTER_MATCH :: u8 where "TAG_ENTER_MATCH \<equiv> 13"
abbreviation (input) TAG_VOTE_TO_SKIP :: u8 where "TAG_VOTE_TO_SKIP \<equiv> 14"
abbreviation (input) TAG_ADMISSION_FAILED :: u8 where "TAG_ADMISSION_FAILED \<equiv> 15"
abbreviation (input) TAG_SET_PASSWORD :: u8 where "TAG_SET_PASSWORD \<equiv> 16"
abbreviation (input) TAG_POPULATION :: u8 where "TAG_POPULATION \<equiv> 17"
abbreviation (input) TAG_ERROR :: u8 where "TAG_ERROR \<equiv> 0x7f"

abbreviation (input) EVENT_HOST_WORLD_READY :: u8 where "EVENT_HOST_WORLD_READY \<equiv> 1"
abbreviation (input) EVENT_MAP_LOADED :: u8 where "EVENT_MAP_LOADED \<equiv> 2"
abbreviation (input) EVENT_BOOTSTRAP_APPLIED :: u8 where "EVENT_BOOTSTRAP_APPLIED \<equiv> 3"
abbreviation (input) EVENT_ENTER_MATCH :: u8 where "EVENT_ENTER_MATCH \<equiv> 4"
abbreviation (input) EVENT_VOTE_TO_SKIP :: u8 where "EVENT_VOTE_TO_SKIP \<equiv> 5"
abbreviation (input) EVENT_ADMISSION_FAILED :: u8 where "EVENT_ADMISSION_FAILED \<equiv> 6"

section \<open>Errors\<close>

datatype ProtocolError =
    Truncated
  | BadMagic
  | VersionMismatch u16 u16 \<comment> \<open>ours, theirs\<close>
  | UnknownTag u8
  | LengthExceeded nat
  | LengthMismatch nat nat \<comment> \<open>declared, actual\<close>
  | InvalidBody
  | InvalidUtf8
  | InvalidId

section \<open>Identifiers\<close>

datatype AdvertId = AdvertId (advert_raw: array16)
datatype MemberId = MemberId (member_raw: array16)

instantiation AdvertId :: linorder
begin
definition "a \<le> b \<longleftrightarrow> advert_raw a \<le> advert_raw b" for a b :: AdvertId
definition "a < b \<longleftrightarrow> advert_raw a < advert_raw b" for a b :: AdvertId
instance
  by standard (auto simp: less_eq_AdvertId_def less_AdvertId_def AdvertId.expand)
end

text \<open>\<open>{byte:02x}\<close> for each byte.\<close>

definition hex_digit :: "nat \<Rightarrow> u8" where
  "hex_digit n = (if n < 10 then of_nat (0x30 + n) else of_nat (0x57 + n))"

definition byte_02x :: "u8 \<Rightarrow> bytes" where
  "byte_02x b = [hex_digit (unat b div 16), hex_digit (unat b mod 16)]"

definition id_display :: "array16 \<Rightarrow> str" where
  "id_display a = str_of (concat (map byte_02x (array_bytes a)))"

text \<open>
  \<open>u8::from_str_radix(s, 16)\<close> on a slice: an optional leading \<open>+\<close>, then one or more
  hexadecimal digits of either case whose value fits. Two bytes cannot overflow.
\<close>

definition hex_value :: "u8 \<Rightarrow> nat option" where
  "hex_value c =
     (if 0x30 \<le> c \<and> c \<le> 0x39 then Some (unat c - 0x30)
      else if 0x61 \<le> c \<and> c \<le> 0x66 then Some (unat c - 0x57)
      else if 0x41 \<le> c \<and> c \<le> 0x46 then Some (unat c - 0x37)
      else None)"

definition u8_from_radix16 :: "u8 \<Rightarrow> u8 \<Rightarrow> u8 option" where
  "u8_from_radix16 a b =
     (if a = 0x2B then map_option of_nat (hex_value b)
      else case (hex_value a, hex_value b) of (Some x, Some y) \<Rightarrow> Some (of_nat (16 * x + y)) | _ \<Rightarrow> None)"

text \<open>
  \<open>&raw[i..i + 2]\<close> panics unless both ends are character boundaries: the result of
  \<open>id_from_str\<close> is \<open>None\<close> for that panic.
\<close>

definition is_char_boundary :: "bytes \<Rightarrow> nat \<Rightarrow> bool" where
  "is_char_boundary bs i \<longleftrightarrow> i = 0 \<or> i = length bs \<or> (i < length bs \<and> \<not> cont_byte (bs ! i))"

fun id_parse_from :: "bytes \<Rightarrow> nat \<Rightarrow> nat \<Rightarrow> (ProtocolError + bytes) option" where
  "id_parse_from raw index 0 = Some (Inr [])"
| "id_parse_from raw index (Suc n) =
     (if \<not> (is_char_boundary raw (index * 2) \<and> is_char_boundary raw (index * 2 + 2)) then None
      else case u8_from_radix16 (raw ! (index * 2)) (raw ! (index * 2 + 1)) of
        None \<Rightarrow> Some (Inl InvalidId)
      | Some b \<Rightarrow> (case id_parse_from raw (Suc index) n of
          None \<Rightarrow> None | Some (Inl e) \<Rightarrow> Some (Inl e) | Some (Inr bs) \<Rightarrow> Some (Inr (b # bs))))"

definition id_from_str :: "str \<Rightarrow> (ProtocolError + array16) option" where
  "id_from_str raw =
     (if str_len raw \<noteq> 16 * 2 then Some (Inl InvalidId)
      else map_option (map_sum id array_of) (id_parse_from (str_bytes raw) 0 16))"

section \<open>Content flags\<close>

datatype ContentFlags = ContentFlags (flag_bits: u8)

definition IW4 :: ContentFlags where "IW4 = ContentFlags 1"
definition IW5 :: ContentFlags where "IW5 = ContentFlags 2"
definition T5 :: ContentFlags where "T5 = ContentFlags 4"
definition T6 :: ContentFlags where "T6 = ContentFlags 8"
definition KNOWN :: ContentFlags where
  "KNOWN = ContentFlags (flag_bits IW4 OR flag_bits IW5 OR flag_bits T5 OR flag_bits T6)"
definition FAMILIES :: "(str \<times> ContentFlags) list" where
  "FAMILIES = [(lit ''iw4'', IW4), (lit ''iw5'', IW5), (lit ''t5'', T5), (lit ''t6'', T6)]"

definition family :: "str \<Rightarrow> ContentFlags option" where
  "family name = map_of FAMILIES name"

definition map_family :: "str \<Rightarrow> str" where
  "map_family mp = (case before_byte 0x3A mp of None \<Rightarrow> lit ''iw4'' | Some fam \<Rightarrow> fam)"

definition for_map :: "str \<Rightarrow> ContentFlags option" where
  "for_map mp = family (map_family mp)"

definition flags_contain :: "ContentFlags \<Rightarrow> ContentFlags \<Rightarrow> bool" where
  "flags_contain self other \<longleftrightarrow> flag_bits self AND flag_bits other = flag_bits other"

definition missing_from :: "ContentFlags \<Rightarrow> ContentFlags \<Rightarrow> ContentFlags" where
  "missing_from self have = ContentFlags (flag_bits self AND NOT (flag_bits have))"

definition flags_empty :: "ContentFlags \<Rightarrow> bool" where
  "flags_empty self \<longleftrightarrow> flag_bits self = 0"

section \<open>Messages\<close>

datatype AdmissionFailure =
    Deadline
  | Cancelled
  | MapContent u64 u64 \<comment> \<open>host, peer\<close>
  | WeaponRegistry u64 u64
  | ClassRegistry u64 u64

datatype EndpointRole = Cli | Host | Join

record ControlHello =
  h_protocol_version :: u16
  h_game_protocol :: u32
  h_role :: EndpointRole
  h_build :: str
  h_player_name :: str

datatype RoomPhase = Gathering | Loading | Running

definition in_match :: "RoomPhase \<Rightarrow> bool" where
  "in_match p \<longleftrightarrow> p \<noteq> Gathering"

record RoomView =
  room_id :: AdvertId
  rv_name :: str
  host :: MemberId
  members :: "MemberId list"
  member_names :: "MemberId \<Rightarrow> str option"
  rv_map :: str
  rv_mode :: str
  joinable :: bool
  revision :: u64
  epoch :: u32
  phase :: RoomPhase
  max_players :: u8
  requires :: ContentFlags
  available :: ContentFlags
  password_protected :: bool

record Advert =
  ad_id :: AdvertId
  ad_name :: str
  ad_map :: str
  ad_mode :: str
  ad_players :: u8
  ad_max_players :: u8
  ad_locked :: bool
  ad_in_match :: bool
  ad_requires :: ContentFlags
  ad_available :: ContentFlags
  ad_password_protected :: bool
  ad_generation :: u64

definition request_join_allowed :: "bool \<Rightarrow> bool" where
  "request_join_allowed locked \<longleftrightarrow> \<not> locked"

definition allows_join_request :: "Advert \<Rightarrow> bool" where
  "allows_join_request a = request_join_allowed (ad_locked a)"

definition advert :: "RoomView \<Rightarrow> Advert" where
  "advert v = \<lparr> ad_id = room_id v,
     ad_name = (case member_names v (host v) of None \<Rightarrow> rv_name v | Some n \<Rightarrow> n),
     ad_map = rv_map v, ad_mode = rv_mode v,
     ad_players = (if length (members v) < 256 then of_nat (length (members v)) else MAX_SESSION_MEMBERS),
     ad_max_players = max_players v, ad_locked = (\<not> joinable v), ad_in_match = in_match (phase v),
     ad_requires = requires v, ad_available = available v,
     ad_password_protected = password_protected v, ad_generation = revision v \<rparr>"

definition view_contains :: "RoomView \<Rightarrow> MemberId \<Rightarrow> bool" where
  "view_contains v m \<longleftrightarrow> m \<in> set (members v)"

datatype RequestBody =
    ReqStatus
  | ReqPopulation bool
  | ReqCreateRoom str str str u8 ContentFlags ContentFlags str
      \<comment> \<open>name, map, mode, max_players, requires, available, password\<close>
  | ReqJoinRoom AdvertId ContentFlags str \<comment> \<open>room, have, password\<close>
  | ReqSetPassword str
  | ReqLeaveRoom
  | ReqSetOptions str str bool \<comment> \<open>map, mode, joinable\<close>
  | ReqStartMatch str str
  | ReqEndMatch AdvertId u32
  | ReqCloseRoom
  | ReqListRooms
  | ReqHostWorldReady AdvertId u32 u64 u64 u64 \<comment> \<open>room, epoch, map, weapons, classes\<close>
  | ReqMapLoaded u32 u64 u64 u64
  | ReqBootstrapApplied u32 u32 u32 u64 \<comment> \<open>epoch, bootstrap_id, snapshot_seq, connection\<close>
  | ReqEnterMatch MemberId u32 u32 u64 u32 \<comment> \<open>member, epoch, bootstrap_id, connection_id, client_id\<close>
  | ReqAdmissionFailed MemberId u32 AdmissionFailure
  | ReqVoteToSkip

record ControlRequest =
  request_id :: u64
  request_body :: RequestBody

record StatusResponse =
  st_protocol_version :: u16
  st_max_opaque_payload :: u16
  st_max_session_members :: u8

definition CURRENT :: StatusResponse where
  "CURRENT = \<lparr> st_protocol_version = PROTOCOL_VERSION,
     st_max_opaque_payload = of_nat MAX_OPAQUE_PAYLOAD, st_max_session_members = MAX_SESSION_MEMBERS \<rparr>"

datatype ServiceError =
    Malformed | InvalidAdvert | AdvertCapacity | AlreadyHosting | UnknownAdvert | Full | Locked
  | IncorrectPassword | NotHost | NotMember
  | MissingContent ContentFlags ContentFlags \<comment> \<open>requires, have\<close>

datatype ResponseBody =
    RespStatus StatusResponse
  | RespPopulation u32
  | RespRoomCreated MemberId RoomView
  | RespRoomJoined MemberId RoomView
  | RespRoomLeft
  | RespRoomUpdated RoomView
  | RespRoomList u64 "Advert list"
  | RespAck
  | RespError ServiceError

datatype SessionCloseReason = HostLeft | LeaseExpired | Overload

record ControlResponse =
  response_id :: u64
  response_body :: ResponseBody

datatype PeerEvent =
    EvHostWorldReady u32 u64 u64 u64
  | EvMapLoaded MemberId u32 u64 u64 u64
  | EvBootstrapApplied MemberId u32 u32 u32 u64
  | EvEnterMatch MemberId u32 u32 u64 u32
  | EvAdmissionFailed MemberId u32 AdmissionFailure
  | EvVoteToSkip MemberId

datatype ControlFrame =
    FrRelay bytes
  | FrHello ControlHello
  | FrRequest ControlRequest
  | FrResponse ControlResponse
  | FrRoomView RoomView
  | FrClosed AdvertId u32 SessionCloseReason
  | FrPeerEvent PeerEvent

datatype RelayDatagram =
    ClientToHost bytes
  | HostToMember MemberId bytes
  | ServiceToHost MemberId bytes
  | ServiceToMember bytes

end
