(* ===== verification/Byte_Codec.thy ===== *)
theory Byte_Codec
  imports Rust_Std
begin

text \<open>
  Byte readers and codecs. The sources have two readers over a byte slice with a cursor
  (\<open>Reader\<close> of the control protocol, \<open>WireReader\<close> of the game transport); what their clients
  rely on is the locale \<open>byte_reader\<close>. A decoder that reads back what an encoder wrote,
  whatever follows it, is a \<open>codec\<close>; one that accepts nothing else is a \<open>canonical_codec\<close>.
  The relation \<open>pos r s\<close> says that the bytes still to be read by \<open>r\<close> are \<open>s\<close>.
\<close>

section \<open>Readers as state transformers with errors\<close>

type_synonym ('r, 'e, 'a) rd = "'r \<Rightarrow> 'e + ('a \<times> 'r)"

definition rd_return :: "'a \<Rightarrow> ('r, 'e, 'a) rd" where
  "rd_return x r = Inr (x, r)"

definition rd_bind :: "('r, 'e, 'a) rd \<Rightarrow> ('a \<Rightarrow> ('r, 'e, 'b) rd) \<Rightarrow> ('r, 'e, 'b) rd" where
  "rd_bind m f r = (case m r of Inl e \<Rightarrow> Inl e | Inr (x, r') \<Rightarrow> f x r')"

text \<open>The \<open>?\<close> operator on a result that reads nothing.\<close>

definition rd_lift :: "'e + 'a \<Rightarrow> ('r, 'e, 'a) rd" where
  "rd_lift v r = (case v of Inl e \<Rightarrow> Inl e | Inr x \<Rightarrow> Inr (x, r))"

text \<open>\<open>for _ in 0..count { v.push(m) }\<close>\<close>

fun rd_repeat :: "nat \<Rightarrow> ('r, 'e, 'a) rd \<Rightarrow> ('r, 'e, 'a list) rd" where
  "rd_repeat 0 m = rd_return []"
| "rd_repeat (Suc n) m = rd_bind m (\<lambda>x. rd_bind (rd_repeat n m) (\<lambda>xs. rd_return (x # xs)))"

lemma rd_bind_Inr_iff:
  "rd_bind m f r = Inr y \<longleftrightarrow> (\<exists>x r'. m r = Inr (x, r') \<and> f x r' = Inr y)"
  by (auto simp: rd_bind_def split: sum.splits prod.splits)

lemma rd_simps [simp]:
  "rd_return x r = Inr (x, r)"
  "rd_lift (Inr x) r = Inr (x, r)"
  "rd_lift (Inl e) r = Inl e"
  by (simp_all add: rd_return_def rd_lift_def)

section \<open>Reading back, and reading nothing else\<close>

definition reads :: "('r \<Rightarrow> bytes \<Rightarrow> bool) \<Rightarrow> ('r, 'e, 'a) rd \<Rightarrow> bytes \<Rightarrow> 'a \<Rightarrow> bool" where
  "reads pos m w x \<longleftrightarrow> (\<forall>r post. pos r (w @ post) \<longrightarrow> (\<exists>r'. m r = Inr (x, r') \<and> pos r' post))"

definition inverts :: "('r \<Rightarrow> bytes \<Rightarrow> bool) \<Rightarrow> ('r, 'e, 'a) rd \<Rightarrow> ('a \<Rightarrow> bytes \<Rightarrow> bool) \<Rightarrow> bool" where
  "inverts pos m P \<longleftrightarrow> (\<forall>r s x r'. pos r s \<longrightarrow> m r = Inr (x, r') \<longrightarrow>
     (\<exists>w post. P x w \<and> s = w @ post \<and> pos r' post))"

lemma readsD: "reads pos m w x \<Longrightarrow> pos r (w @ post) \<Longrightarrow> \<exists>r'. m r = Inr (x, r') \<and> pos r' post"
  by (simp add: reads_def)

lemma reads_return [reads_rules]: "reads pos (rd_return x) [] x"
  by (simp add: reads_def)

lemma reads_lift [reads_rules]: "reads pos (rd_lift (Inr x)) [] x"
  by (simp add: reads_def)

lemma reads_bind:
  assumes "reads pos m w x" and "reads pos (f x) v y"
  shows "reads pos (rd_bind m f) (w @ v) y"
  unfolding reads_def rd_bind_def
proof (intro allI impI)
  fix r post
  assume "pos r ((w @ v) @ post)"
  then have "pos r (w @ (v @ post))" by simp
  from readsD [OF assms(1) this] obtain r1 where r1: "m r = Inr (x, r1)" "pos r1 (v @ post)"
    by blast
  from readsD [OF assms(2) r1(2)] show
    "\<exists>r'. (case m r of Inl e \<Rightarrow> Inl e | Inr (x, r') \<Rightarrow> f x r') = Inr (y, r') \<and> pos r' post"
    using r1(1) by simp
qed

text \<open>The last read of a chain, and a read that consumes nothing.\<close>

lemma reads_bind_last:
  "reads pos m w x \<Longrightarrow> reads pos (f x) [] y \<Longrightarrow> reads pos (rd_bind m f) w y"
  using reads_bind [of pos m w x f "[]" y] by simp

lemma reads_bind_none [reads_rules]:
  "reads pos (f x) w y \<Longrightarrow> reads pos (rd_bind (rd_lift (Inr x)) f) w y"
  using reads_bind [of pos "rd_lift (Inr x)" "[]" x f w y] by (simp add: reads_lift)

lemma inverts_return: "inverts pos (rd_return x) (\<lambda>y w. y = x \<and> w = [])"
  by (auto simp: inverts_def)

lemma inverts_lift: "inverts pos (rd_lift v) (\<lambda>y w. v = Inr y \<and> w = [])"
  by (cases v) (auto simp: inverts_def)

lemma inverts_bind:
  assumes "inverts pos m P" and "\<And>x. inverts pos (f x) (Q x)"
  shows "inverts pos (rd_bind m f) (\<lambda>y w. \<exists>x a b. P x a \<and> Q x y b \<and> w = a @ b)"
  unfolding inverts_def rd_bind_Inr_iff
proof (intro allI impI)
  fix r s y r'
  assume s: "pos r s" and "\<exists>x r1. m r = Inr (x, r1) \<and> f x r1 = Inr (y, r')"
  then obtain x r1 where m: "m r = Inr (x, r1)" and f: "f x r1 = Inr (y, r')" by blast
  from assms(1) s m obtain a p1 where a: "P x a" "s = a @ p1" "pos r1 p1"
    unfolding inverts_def by blast
  from assms(2) [of x] a(3) f obtain b post where "Q x y b" "p1 = b @ post" "pos r' post"
    unfolding inverts_def by blast
  with a show "\<exists>w post. (\<exists>x a b. P x a \<and> Q x y b \<and> w = a @ b) \<and> s = w @ post \<and> pos r' post"
    by (intro exI [of _ "a @ b"] exI [of _ post]) auto
qed

lemma inverts_if:
  "inverts pos m P \<Longrightarrow> inverts pos n Q \<Longrightarrow>
   inverts pos (if c then m else n) (\<lambda>x w. (c \<and> P x w) \<or> (\<not> c \<and> Q x w))"
  by (auto simp: inverts_def; blast)

lemma inverts_mono:
  "inverts pos m P \<Longrightarrow> (\<And>x w. P x w \<Longrightarrow> Q x w) \<Longrightarrow> inverts pos m Q"
  unfolding inverts_def by blast

lemma invertsD:
  "inverts pos m P \<Longrightarrow> pos r s \<Longrightarrow> m r = Inr (x, r') \<Longrightarrow> \<exists>w post. P x w \<and> s = w @ post \<and> pos r' post"
  unfolding inverts_def by blast

lemma inverts_ifI:
  "(c \<Longrightarrow> inverts pos m P) \<Longrightarrow> (\<not> c \<Longrightarrow> inverts pos n P) \<Longrightarrow> inverts pos (if c then m else n) P"
  by simp

lemma inverts_error: "inverts pos (rd_lift (Inl e)) P"
  by (simp add: inverts_def)

lemmas inverts_rules = inverts_return inverts_lift inverts_bind inverts_if

section \<open>Reading back a list of writes\<close>

text \<open>
  \<open>decodes pos ws m y\<close>: whenever the writes \<open>ws\<close> succeed, \<open>m\<close> reads their bytes back as \<open>y\<close>.
  The rules pair one write with one read, so a decoder is matched with its encoder field by
  field.
\<close>

definition decodes :: "('r \<Rightarrow> bytes \<Rightarrow> bool) \<Rightarrow> ('f + bytes) list \<Rightarrow> ('r, 'e, 'a) rd \<Rightarrow> 'a \<Rightarrow> bool" where
  "decodes pos ws m y \<longleftrightarrow> (\<forall>bs. wseq ws = Inr bs \<longrightarrow> reads pos m bs y)"

lemma decodesD: "decodes pos ws m y \<Longrightarrow> wseq ws = Inr bs \<Longrightarrow> reads pos m bs y"
  by (simp add: decodes_def)

lemma decodes_Nil [reads_rules]: "decodes pos [] (rd_return y) y"
  by (simp add: decodes_def reads_def)

lemma decodes_Cons:
  assumes "\<And>a. w = Inr a \<Longrightarrow> reads pos m a x" and "decodes pos ws (f x) y"
  shows "decodes pos (w # ws) (rd_bind m f) y"
  unfolding decodes_def
proof (intro allI impI)
  fix bs
  assume "wseq (w # ws) = Inr bs"
  then obtain a b where a: "w = Inr a" and b: "wseq ws = Inr b" and bs: "bs = a @ b" by auto
  show "reads pos (rd_bind m f) bs y"
    unfolding bs by (rule reads_bind [OF assms(1) [OF a]]) (rule decodesD [OF assms(2) b])
qed

lemma decodes_lift:
  "v = Inr x \<Longrightarrow> decodes pos ws (f x) y \<Longrightarrow> decodes pos ws (rd_bind (rd_lift v) f) y"
  by (simp add: decodes_def reads_bind_none)

lemma decodes_wseq_iff [simp]: "decodes pos [wseq ws] m y \<longleftrightarrow> decodes pos ws m y"
  by (cases "wseq ws") (auto simp: decodes_def)

lemma decodes_one_iff: "decodes pos [v] m y \<longleftrightarrow> (\<forall>a. v = Inr a \<longrightarrow> reads pos m a y)"
  by (auto simp: decodes_def)

section \<open>The reader interface\<close>

locale byte_reader =
  fixes pos :: "'r \<Rightarrow> bytes \<Rightarrow> bool"
    and new :: "bytes \<Rightarrow> 'r"
    and rtake :: "nat \<Rightarrow> ('r, 'e, bytes) rd"
  assumes pos_new: "pos (new s) s"
    and take_reads: "length w = n \<Longrightarrow> reads pos (rtake n) w w"
    and take_inverts: "inverts pos (rtake n) (\<lambda>x w. w = x \<and> length x = n)"
    and take_short: "pos r s \<Longrightarrow> length s < n \<Longrightarrow> \<exists>e. rtake n r = Inl e"
begin

lemma take_map_reads:
  "length w = n \<Longrightarrow> f w = x \<Longrightarrow> reads pos (rd_bind (rtake n) (\<lambda>bs. rd_return (f bs))) w x"
  using reads_bind_last [OF take_reads, of w n "\<lambda>bs. rd_return (f bs)" x] by (simp add: reads_return)

lemma take_map_inverts:
  assumes "\<And>bs. length bs = n \<Longrightarrow> g (f bs) = bs"
  shows "inverts pos (rd_bind (rtake n) (\<lambda>bs. rd_return (f bs))) (\<lambda>x w. w = g x \<and> length w = n)"
  by (rule inverts_mono [OF inverts_bind [OF take_inverts inverts_return]]) (auto simp: assms)

text \<open>A read succeeds exactly when enough bytes are left.\<close>

lemma take_succeeds_iff: "pos r s \<Longrightarrow> (\<exists>x. rtake n r = Inr x) \<longleftrightarrow> n \<le> length s"
proof
  assume p: "pos r s" and "\<exists>x. rtake n r = Inr x"
  then obtain x r' where x: "rtake n r = Inr (x, r')" by force
  with take_short [OF p, of n] show "n \<le> length s" by (cases "n \<le> length s") auto
next
  assume "pos r s" and "n \<le> length s"
  then have "pos r (List.take n s @ drop n s)" and "length (List.take n s) = n" by simp_all
  with take_reads show "\<exists>x. rtake n r = Inr x" unfolding reads_def by blast
qed

end

section \<open>Codecs\<close>

locale codec =
  fixes pos :: "'r \<Rightarrow> bytes \<Rightarrow> bool"
    and new :: "bytes \<Rightarrow> 'r"
    and enc :: "'a \<Rightarrow> 'f + bytes"
    and dec :: "('r, 'e, 'a) rd"
  assumes pos_new: "pos (new s) s"
    and dec_enc: "enc x = Inr w \<Longrightarrow> reads pos dec w x"
begin

lemma enc_prefix_free:
  assumes "enc x = Inr w" and "enc y = Inr (w @ z)"
  shows "x = y \<and> z = []"
proof -
  have p: "pos (new (w @ z)) (w @ z)" by (rule pos_new)
  from readsD [OF dec_enc [OF assms(1)] p] obtain r1 where "dec (new (w @ z)) = Inr (x, r1)"
    by blast
  moreover from readsD [OF dec_enc [OF assms(2)], of "new (w @ z)" "[]"] p
  obtain r2 where "dec (new (w @ z)) = Inr (y, r2)" by auto
  ultimately have "x = y" by simp
  with assms show ?thesis by simp
qed

lemma enc_inject: "enc x = Inr w \<Longrightarrow> enc y = Inr w \<Longrightarrow> x = y"
  using enc_prefix_free [of x w y "[]"] by simp

lemma decodes_field:
  "decodes pos ws (f x) y \<Longrightarrow> decodes pos (enc x # ws) (rd_bind dec f) y"
  by (rule decodes_Cons) (auto intro: dec_enc)

lemma list_reads:
  "wseq (map enc xs) = Inr w \<Longrightarrow> reads pos (rd_repeat (length xs) dec) w xs"
proof (induction xs arbitrary: w)
  case Nil
  then show ?case by (simp add: reads_def)
next
  case (Cons x xs)
  then obtain a b where a: "enc x = Inr a" and b: "wseq (map enc xs) = Inr b" and w: "w = a @ b"
    by auto
  show ?case
    unfolding w list.size rd_repeat.simps add_Suc_right add_0_right
    by (rule reads_bind [OF dec_enc [OF a]], rule reads_bind_last [OF Cons.IH [OF b]])
      (rule reads_return)
qed

lemma decodes_list:
  "n = length xs \<Longrightarrow> decodes pos ws (f xs) y \<Longrightarrow>
   decodes pos (wseq (map enc xs) # ws) (rd_bind (rd_repeat n dec) f) y"
  by (rule decodes_Cons) (auto intro: list_reads)

end

locale canonical_codec = codec +
  assumes enc_dec: "inverts pos dec (\<lambda>x w. enc x = Inr w)"
    and pos_fun: "pos r s \<Longrightarrow> pos r t \<Longrightarrow> s = t"
begin

text \<open>The bytes accepted in full are exactly the encodings.\<close>

lemma accepted_iff:
  "(\<exists>r'. dec (new s) = Inr (x, r') \<and> pos r' []) \<longleftrightarrow> enc x = Inr s"
proof
  assume "\<exists>r'. dec (new s) = Inr (x, r') \<and> pos r' []"
  then obtain r' where d: "dec (new s) = Inr (x, r')" and e: "pos r' []" by blast
  from invertsD [OF enc_dec pos_new d] obtain w post where
    "enc x = Inr w" "s = w @ post" "pos r' post" by blast
  moreover have "post = []" by (rule pos_fun [OF \<open>pos r' post\<close> e])
  ultimately show "enc x = Inr s" by simp
next
  assume "enc x = Inr s"
  from readsD [OF dec_enc [OF this], of "new s" "[]"] show "\<exists>r'. dec (new s) = Inr (x, r') \<and> pos r' []"
    using pos_new [of s] by simp
qed

end

end
