(* ===== verification/Protocol_Codec.thy ===== *)
theory Protocol_Codec
  imports Protocol_Types Byte_Codec
begin

text \<open>
  The encoders and decoders of \<^verbatim>\<open>crates/master_protocol/src/lib.rs\<close>: \<open>Writer\<close> and \<open>Reader\<close>,
  one encoder and one decoder per message type, the control message header, the framing on
  a stream, and relay datagrams. An encoder is the list of its writes in source order, the
  first failing one being its result; a decoder is the chain of its reads in source order.
  The facts about them are in \<open>Protocol_Facts\<close>.
\<close>

section \<open>Writer\<close>

abbreviation w_bytes :: "bytes \<Rightarrow> ProtocolError + bytes" where "w_bytes bs \<equiv> Inr bs"
abbreviation w_u8 :: "u8 \<Rightarrow> ProtocolError + bytes" where "w_u8 v \<equiv> Inr [v]"
abbreviation w_u16 :: "u16 \<Rightarrow> ProtocolError + bytes" where "w_u16 v \<equiv> Inr (to_be_bytes v)"
abbreviation w_u32 :: "u32 \<Rightarrow> ProtocolError + bytes" where "w_u32 v \<equiv> Inr (to_be_bytes v)"
abbreviation w_u64 :: "u64 \<Rightarrow> ProtocolError + bytes" where "w_u64 v \<equiv> Inr (to_be_bytes v)"
abbreviation w_bool :: "bool \<Rightarrow> ProtocolError + bytes" where "w_bool b \<equiv> Inr [of_bool b]"
abbreviation w_flags :: "ContentFlags \<Rightarrow> ProtocolError + bytes" where "w_flags f \<equiv> Inr [flag_bits f]"
abbreviation w_advert_id :: "AdvertId \<Rightarrow> ProtocolError + bytes" where
  "w_advert_id i \<equiv> Inr (array_bytes (advert_raw i))"
abbreviation w_member_id :: "MemberId \<Rightarrow> ProtocolError + bytes" where
  "w_member_id i \<equiv> Inr (array_bytes (member_raw i))"

definition w_string :: "nat \<Rightarrow> str \<Rightarrow> ProtocolError + bytes" where
  "w_string mx v =
     (if mx < str_len v \<or> 255 < str_len v then Inl (LengthExceeded (str_len v))
      else Inr (of_nat (str_len v) # str_bytes v))"

text \<open>A check in the middle of an encoder writes nothing.\<close>

definition w_check :: "ProtocolError + unit \<Rightarrow> ProtocolError + bytes" where
  "w_check v = res_bind v (\<lambda>_. Inr [])"

section \<open>Reader\<close>

record Reader =
  rd_bytes :: bytes
  cursor :: nat

definition r_new :: "bytes \<Rightarrow> Reader" where
  "r_new bs = \<lparr> rd_bytes = bs, cursor = 0 \<rparr>"

text \<open>
  The source adds with \<open>checked_add\<close>; a sum past the range of \<open>usize\<close> exceeds the length of
  every slice, so the overflow and the short slice are the same \<open>Truncated\<close>.
\<close>

definition r_take :: "nat \<Rightarrow> (Reader, ProtocolError, bytes) rd" where
  "r_take n r =
     (if cursor r + n \<le> length (rd_bytes r)
      then Inr (take n (drop (cursor r) (rd_bytes r)), r\<lparr> cursor := cursor r + n \<rparr>)
      else Inl Truncated)"

definition r_array :: "(Reader, ProtocolError, array16) rd" where
  "r_array = rd_bind (r_take 16) (\<lambda>bs. rd_lift (ok_or Truncated (to_array16 bs)))"

definition r_u8 :: "(Reader, ProtocolError, u8) rd" where
  "r_u8 = rd_bind (r_take 1) (\<lambda>bs. rd_return (bs ! 0))"

definition r_u16 :: "(Reader, ProtocolError, u16) rd" where
  "r_u16 = rd_bind (r_take 2) (\<lambda>bs. rd_return (from_be_bytes bs))"

definition r_u32 :: "(Reader, ProtocolError, u32) rd" where
  "r_u32 = rd_bind (r_take 4) (\<lambda>bs. rd_return (from_be_bytes bs))"

definition r_u64 :: "(Reader, ProtocolError, u64) rd" where
  "r_u64 = rd_bind (r_take 8) (\<lambda>bs. rd_return (from_be_bytes bs))"

definition r_string :: "nat \<Rightarrow> (Reader, ProtocolError, str) rd" where
  "r_string mx = rd_bind r_u8 (\<lambda>n.
     if mx < unat n then rd_lift (Inl (LengthExceeded (unat n)))
     else rd_bind (r_take (unat n)) (\<lambda>bs. rd_lift (ok_or InvalidUtf8 (from_utf8 bs))))"

definition r_finish :: "Reader \<Rightarrow> ProtocolError + unit" where
  "r_finish r = (if cursor r = length (rd_bytes r) then Inr () else Inl InvalidBody)"

definition r_advert_id :: "(Reader, ProtocolError, AdvertId) rd" where
  "r_advert_id = rd_bind r_array (\<lambda>a. rd_return (AdvertId a))"

definition r_member_id :: "(Reader, ProtocolError, MemberId) rd" where
  "r_member_id = rd_bind r_array (\<lambda>a. rd_return (MemberId a))"

definition r_flags :: "(Reader, ProtocolError, ContentFlags) rd" where
  "r_flags = rd_bind r_u8 (\<lambda>b. rd_return (ContentFlags b))"

definition bool_byte :: "u8 \<Rightarrow> ProtocolError + bool" where
  "bool_byte v = (if v = 0 then Inr False else if v = 1 then Inr True else Inl InvalidBody)"

definition r_bool :: "(Reader, ProtocolError, bool) rd" where
  "r_bool = rd_bind r_u8 (\<lambda>b. rd_lift (bool_byte b))"

section \<open>Enumerations on the wire\<close>

fun role_wire :: "EndpointRole \<Rightarrow> u8" where
  "role_wire Cli = 0" | "role_wire Host = 1" | "role_wire Join = 2"

definition role_from_wire :: "u8 \<Rightarrow> ProtocolError + EndpointRole" where
  "role_from_wire v =
     (if v = 0 then Inr Cli else if v = 1 then Inr Host else if v = 2 then Inr Join else Inl InvalidBody)"

fun phase_wire :: "RoomPhase \<Rightarrow> u8" where
  "phase_wire Gathering = 0" | "phase_wire Loading = 1" | "phase_wire Running = 2"

definition phase_from_wire :: "u8 \<Rightarrow> ProtocolError + RoomPhase" where
  "phase_from_wire v =
     (if v = 0 then Inr Gathering else if v = 1 then Inr Loading else if v = 2 then Inr Running
      else Inl InvalidBody)"

fun close_reason_wire :: "SessionCloseReason \<Rightarrow> u8" where
  "close_reason_wire HostLeft = 0" | "close_reason_wire LeaseExpired = 1" | "close_reason_wire Overload = 2"

definition close_reason_from_wire :: "u8 \<Rightarrow> ProtocolError + SessionCloseReason" where
  "close_reason_from_wire v =
     (if v = 0 then Inr HostLeft else if v = 1 then Inr LeaseExpired else if v = 2 then Inr Overload
      else Inl InvalidBody)"

fun admission_encode :: "AdmissionFailure \<Rightarrow> ProtocolError + bytes" where
  "admission_encode Deadline = w_u8 1"
| "admission_encode Cancelled = w_u8 2"
| "admission_encode (MapContent h p) = wseq [w_u8 3, w_u64 h, w_u64 p]"
| "admission_encode (WeaponRegistry h p) = wseq [w_u8 4, w_u64 h, w_u64 p]"
| "admission_encode (ClassRegistry h p) = wseq [w_u8 5, w_u64 h, w_u64 p]"

definition admission_decode :: "(Reader, ProtocolError, AdmissionFailure) rd" where
  "admission_decode = rd_bind r_u8 (\<lambda>t.
     if t = 1 then rd_return Deadline
     else if t = 2 then rd_return Cancelled
     else if t = 3 then rd_bind r_u64 (\<lambda>h. rd_bind r_u64 (\<lambda>p. rd_return (MapContent h p)))
     else if t = 4 then rd_bind r_u64 (\<lambda>h. rd_bind r_u64 (\<lambda>p. rd_return (WeaponRegistry h p)))
     else if t = 5 then rd_bind r_u64 (\<lambda>h. rd_bind r_u64 (\<lambda>p. rd_return (ClassRegistry h p)))
     else rd_lift (Inl InvalidBody))"

fun service_error_write :: "ServiceError \<Rightarrow> ProtocolError + bytes" where
  "service_error_write Malformed = w_u8 1"
| "service_error_write InvalidAdvert = w_u8 2"
| "service_error_write AdvertCapacity = w_u8 3"
| "service_error_write AlreadyHosting = w_u8 4"
| "service_error_write UnknownAdvert = w_u8 5"
| "service_error_write Full = w_u8 7"
| "service_error_write Locked = w_u8 8"
| "service_error_write IncorrectPassword = w_u8 15"
| "service_error_write NotHost = w_u8 11"
| "service_error_write NotMember = w_u8 13"
| "service_error_write (MissingContent req hv) = wseq [w_u8 14, w_flags req, w_flags hv]"

definition service_error_from_reader :: "(Reader, ProtocolError, ServiceError) rd" where
  "service_error_from_reader = rd_bind r_u8 (\<lambda>t.
     if t = 1 then rd_return Malformed
     else if t = 2 then rd_return InvalidAdvert
     else if t = 3 then rd_return AdvertCapacity
     else if t = 4 then rd_return AlreadyHosting
     else if t = 5 then rd_return UnknownAdvert
     else if t = 7 then rd_return Full
     else if t = 8 then rd_return Locked
     else if t = 15 then rd_return IncorrectPassword
     else if t = 11 then rd_return NotHost
     else if t = 13 then rd_return NotMember
     else if t = 14 then rd_bind r_flags (\<lambda>a. rd_bind r_flags (\<lambda>b. rd_return (MissingContent a b)))
     else rd_lift (Inl InvalidBody))"

section \<open>Validation\<close>

definition validate_advert :: "str \<Rightarrow> str \<Rightarrow> str \<Rightarrow> u8 \<Rightarrow> ProtocolError + unit" where
  "validate_advert nm mp md mx =
     (if str_is_empty nm \<or> MAX_ADVERT_NAME_BYTES < str_len nm
         \<or> str_is_empty mp \<or> MAX_MAP_BYTES < str_len mp
         \<or> str_is_empty md \<or> MAX_MODE_BYTES < str_len md
         \<or> \<not> (2 \<le> mx \<and> mx \<le> MAX_SESSION_MEMBERS)
      then Inl InvalidBody else Inr ())"

definition validate_map_mode :: "str \<Rightarrow> str \<Rightarrow> ProtocolError + unit" where
  "validate_map_mode mp md =
     (if str_is_empty mp \<or> MAX_MAP_BYTES < str_len mp \<or> str_is_empty md \<or> MAX_MODE_BYTES < str_len md
      then Inl InvalidBody else Inr ())"

section \<open>Requests\<close>

fun encode_request_body :: "RequestBody \<Rightarrow> ProtocolError + bytes" where
  "encode_request_body ReqStatus = w_u8 TAG_STATUS"
| "encode_request_body (ReqPopulation online) = wseq [w_u8 TAG_POPULATION, w_bool online]"
| "encode_request_body (ReqCreateRoom nm mp md mx req av pw) =
     wseq [w_check (validate_advert nm mp md mx), w_u8 TAG_CREATE_ROOM,
       w_string MAX_ADVERT_NAME_BYTES nm, w_string MAX_MAP_BYTES mp, w_string MAX_MODE_BYTES md,
       w_u8 mx, w_flags req, w_flags av, w_string MAX_PASSWORD_BYTES pw]"
| "encode_request_body (ReqJoinRoom rid hv pw) =
     wseq [w_u8 TAG_JOIN_ROOM, w_advert_id rid, w_flags hv, w_string MAX_PASSWORD_BYTES pw]"
| "encode_request_body (ReqSetPassword pw) =
     wseq [w_u8 TAG_SET_PASSWORD, w_string MAX_PASSWORD_BYTES pw]"
| "encode_request_body ReqLeaveRoom = w_u8 TAG_LEAVE_ROOM"
| "encode_request_body (ReqSetOptions mp md jn) =
     wseq [w_check (validate_map_mode mp md), w_u8 TAG_SET_OPTIONS,
       w_string MAX_MAP_BYTES mp, w_string MAX_MODE_BYTES md, w_bool jn]"
| "encode_request_body (ReqStartMatch mp md) =
     wseq [w_check (validate_map_mode mp md), w_u8 TAG_START_MATCH,
       w_string MAX_MAP_BYTES mp, w_string MAX_MODE_BYTES md]"
| "encode_request_body (ReqEndMatch rid ep) = wseq [w_u8 TAG_END_MATCH, w_advert_id rid, w_u32 ep]"
| "encode_request_body ReqCloseRoom = w_u8 TAG_CLOSE_ROOM"
| "encode_request_body ReqListRooms = w_u8 TAG_LIST_ROOMS"
| "encode_request_body (ReqHostWorldReady rid ep mp wp cl) =
     wseq [w_u8 TAG_HOST_WORLD_READY, w_advert_id rid, w_u32 ep, w_u64 mp, w_u64 wp, w_u64 cl]"
| "encode_request_body (ReqMapLoaded ep mp wp cl) =
     wseq [w_u8 TAG_MAP_LOADED, w_u32 ep, w_u64 mp, w_u64 wp, w_u64 cl]"
| "encode_request_body (ReqBootstrapApplied ep bid seq con) =
     wseq [w_u8 TAG_BOOTSTRAP_APPLIED, w_u32 ep, w_u32 bid, w_u32 seq, w_u64 con]"
| "encode_request_body (ReqEnterMatch mid ep bid con cli) =
     wseq [w_u8 TAG_ENTER_MATCH, w_member_id mid, w_u32 ep, w_u32 bid, w_u64 con, w_u32 cli]"
| "encode_request_body (ReqAdmissionFailed mid ep why) =
     wseq [w_u8 TAG_ADMISSION_FAILED, w_member_id mid, w_u32 ep, admission_encode why]"
| "encode_request_body ReqVoteToSkip = w_u8 TAG_VOTE_TO_SKIP"

definition decode_create_room :: "(Reader, ProtocolError, RequestBody) rd" where
  "decode_create_room =
     rd_bind (r_string MAX_ADVERT_NAME_BYTES) (\<lambda>nm. rd_bind (r_string MAX_MAP_BYTES) (\<lambda>mp.
     rd_bind (r_string MAX_MODE_BYTES) (\<lambda>md. rd_bind r_u8 (\<lambda>mx. rd_bind r_flags (\<lambda>req.
     rd_bind r_flags (\<lambda>av. rd_bind (r_string MAX_PASSWORD_BYTES) (\<lambda>pw.
     rd_bind (rd_lift (validate_advert nm mp md mx)) (\<lambda>_.
     rd_return (ReqCreateRoom nm mp md mx req av pw)))))))))"

definition decode_set_options :: "(Reader, ProtocolError, RequestBody) rd" where
  "decode_set_options =
     rd_bind (r_string MAX_MAP_BYTES) (\<lambda>mp. rd_bind (r_string MAX_MODE_BYTES) (\<lambda>md.
     rd_bind r_bool (\<lambda>jn. rd_bind (rd_lift (validate_map_mode mp md)) (\<lambda>_.
     rd_return (ReqSetOptions mp md jn)))))"

definition decode_start_match :: "(Reader, ProtocolError, RequestBody) rd" where
  "decode_start_match =
     rd_bind (r_string MAX_MAP_BYTES) (\<lambda>mp. rd_bind (r_string MAX_MODE_BYTES) (\<lambda>md.
     rd_bind (rd_lift (validate_map_mode mp md)) (\<lambda>_. rd_return (ReqStartMatch mp md))))"

definition decode_request_tagged :: "u8 \<Rightarrow> (Reader, ProtocolError, RequestBody) rd" where
  "decode_request_tagged t =
    (if t = TAG_STATUS then rd_return ReqStatus
     else if t = TAG_POPULATION then rd_bind r_bool (\<lambda>b. rd_return (ReqPopulation b))
     else if t = TAG_CREATE_ROOM then decode_create_room
     else if t = TAG_JOIN_ROOM then
       rd_bind r_advert_id (\<lambda>rid. rd_bind r_flags (\<lambda>hv.
       rd_bind (r_string MAX_PASSWORD_BYTES) (\<lambda>pw. rd_return (ReqJoinRoom rid hv pw))))
     else if t = TAG_SET_PASSWORD then
       rd_bind (r_string MAX_PASSWORD_BYTES) (\<lambda>pw. rd_return (ReqSetPassword pw))
     else if t = TAG_LEAVE_ROOM then rd_return ReqLeaveRoom
     else if t = TAG_SET_OPTIONS then decode_set_options
     else if t = TAG_START_MATCH then decode_start_match
     else if t = TAG_END_MATCH then
       rd_bind r_advert_id (\<lambda>rid. rd_bind r_u32 (\<lambda>ep. rd_return (ReqEndMatch rid ep)))
     else if t = TAG_CLOSE_ROOM then rd_return ReqCloseRoom
     else if t = TAG_LIST_ROOMS then rd_return ReqListRooms
     else if t = TAG_HOST_WORLD_READY then
       rd_bind r_advert_id (\<lambda>rid. rd_bind r_u32 (\<lambda>ep. rd_bind r_u64 (\<lambda>mp. rd_bind r_u64 (\<lambda>wp.
       rd_bind r_u64 (\<lambda>cl. rd_return (ReqHostWorldReady rid ep mp wp cl))))))
     else if t = TAG_MAP_LOADED then
       rd_bind r_u32 (\<lambda>ep. rd_bind r_u64 (\<lambda>mp. rd_bind r_u64 (\<lambda>wp. rd_bind r_u64 (\<lambda>cl.
       rd_return (ReqMapLoaded ep mp wp cl)))))
     else if t = TAG_BOOTSTRAP_APPLIED then
       rd_bind r_u32 (\<lambda>ep. rd_bind r_u32 (\<lambda>bid. rd_bind r_u32 (\<lambda>seq. rd_bind r_u64 (\<lambda>con.
       rd_return (ReqBootstrapApplied ep bid seq con)))))
     else if t = TAG_ENTER_MATCH then
       rd_bind r_member_id (\<lambda>mid. rd_bind r_u32 (\<lambda>ep. rd_bind r_u32 (\<lambda>bid. rd_bind r_u64 (\<lambda>con.
       rd_bind r_u32 (\<lambda>cli. rd_return (ReqEnterMatch mid ep bid con cli))))))
     else if t = TAG_ADMISSION_FAILED then
       rd_bind r_member_id (\<lambda>mid. rd_bind r_u32 (\<lambda>ep. rd_bind admission_decode (\<lambda>why.
       rd_return (ReqAdmissionFailed mid ep why))))
     else if t = TAG_VOTE_TO_SKIP then rd_return ReqVoteToSkip
     else rd_lift (Inl (UnknownTag t)))"

definition decode_request_body :: "(Reader, ProtocolError, RequestBody) rd" where
  "decode_request_body = rd_bind r_u8 decode_request_tagged"

section \<open>Room views and adverts\<close>

definition encode_member :: "(MemberId \<Rightarrow> str option) \<Rightarrow> MemberId \<Rightarrow> ProtocolError + bytes" where
  "encode_member names m =
     wseq [w_member_id m,
       w_string MAX_PLAYER_NAME_BYTES (case names m of None \<Rightarrow> lit ''Player'' | Some n \<Rightarrow> n)]"

definition encode_room_view :: "RoomView \<Rightarrow> ProtocolError + bytes" where
  "encode_room_view v =
     (if unat MAX_SESSION_MEMBERS < length (members v) then Inl (LengthExceeded (length (members v)))
      else wseq [w_check (validate_advert (rv_name v) (rv_map v) (rv_mode v) (max_players v)),
        w_advert_id (room_id v), w_member_id (host v), w_u64 (revision v), w_u32 (epoch v),
        w_u8 (phase_wire (phase v)), w_bool (joinable v), w_u8 (max_players v), w_flags (requires v),
        w_flags (available v), w_bool (password_protected v),
        w_string MAX_ADVERT_NAME_BYTES (rv_name v), w_string MAX_MAP_BYTES (rv_map v),
        w_string MAX_MODE_BYTES (rv_mode v), w_u8 (of_nat (length (members v))),
        wseq (map (encode_member (member_names v)) (members v))])"

definition decode_member :: "(Reader, ProtocolError, MemberId \<times> str) rd" where
  "decode_member = rd_bind r_member_id (\<lambda>m. rd_bind (r_string MAX_PLAYER_NAME_BYTES) (\<lambda>n. rd_return (m, n)))"

definition insert_names :: "(MemberId \<times> str) list \<Rightarrow> MemberId \<Rightarrow> str option" where
  "insert_names ms = foldl (\<lambda>names (m, n). names(m \<mapsto> n)) Map.empty ms"

definition decode_room_view :: "(Reader, ProtocolError, RoomView) rd" where
  "decode_room_view =
     rd_bind r_advert_id (\<lambda>rid. rd_bind r_member_id (\<lambda>hst. rd_bind r_u64 (\<lambda>rev. rd_bind r_u32 (\<lambda>ep.
     rd_bind r_u8 (\<lambda>pb. rd_bind (rd_lift (phase_from_wire pb)) (\<lambda>ph. rd_bind r_bool (\<lambda>jn.
     rd_bind r_u8 (\<lambda>mx. rd_bind r_flags (\<lambda>req. rd_bind r_flags (\<lambda>av. rd_bind r_bool (\<lambda>pp.
     rd_bind (r_string MAX_ADVERT_NAME_BYTES) (\<lambda>nm. rd_bind (r_string MAX_MAP_BYTES) (\<lambda>mp.
     rd_bind (r_string MAX_MODE_BYTES) (\<lambda>md. rd_bind r_u8 (\<lambda>cnt.
     if unat MAX_SESSION_MEMBERS < unat cnt then rd_lift (Inl (LengthExceeded (unat cnt)))
     else rd_bind (rd_repeat (unat cnt) decode_member) (\<lambda>ms. rd_return
       \<lparr> room_id = rid, rv_name = nm, host = hst, members = map fst ms, member_names = insert_names ms,
         rv_map = mp, rv_mode = md, joinable = jn, revision = rev, epoch = ep, phase = ph,
         max_players = mx, requires = req, available = av, password_protected = pp \<rparr>))))))))))))))))"

definition encode_advert :: "Advert \<Rightarrow> ProtocolError + bytes" where
  "encode_advert a =
     wseq [w_advert_id (ad_id a), w_string MAX_ADVERT_NAME_BYTES (ad_name a),
       w_string MAX_MAP_BYTES (ad_map a), w_string MAX_MODE_BYTES (ad_mode a), w_u8 (ad_players a),
       w_u8 (ad_max_players a), w_bool (ad_locked a), w_bool (ad_in_match a), w_flags (ad_requires a),
       w_flags (ad_available a), w_bool (ad_password_protected a), w_u64 (ad_generation a)]"

definition decode_advert :: "(Reader, ProtocolError, Advert) rd" where
  "decode_advert =
     rd_bind r_advert_id (\<lambda>i. rd_bind (r_string MAX_ADVERT_NAME_BYTES) (\<lambda>nm.
     rd_bind (r_string MAX_MAP_BYTES) (\<lambda>mp. rd_bind (r_string MAX_MODE_BYTES) (\<lambda>md.
     rd_bind r_u8 (\<lambda>pl. rd_bind r_u8 (\<lambda>mx. rd_bind r_bool (\<lambda>lk. rd_bind r_bool (\<lambda>im.
     rd_bind r_flags (\<lambda>req. rd_bind r_flags (\<lambda>av. rd_bind r_bool (\<lambda>pp. rd_bind r_u64 (\<lambda>g.
     rd_return \<lparr> ad_id = i, ad_name = nm, ad_map = mp, ad_mode = md, ad_players = pl,
       ad_max_players = mx, ad_locked = lk, ad_in_match = im, ad_requires = req, ad_available = av,
       ad_password_protected = pp, ad_generation = g \<rparr>))))))))))))"

section \<open>Responses\<close>

fun encode_response_body :: "ResponseBody \<Rightarrow> ProtocolError + bytes" where
  "encode_response_body (RespPopulation n) = wseq [w_u8 TAG_POPULATION, w_u32 n]"
| "encode_response_body (RespStatus s) =
     wseq [w_u8 TAG_STATUS, w_u16 (st_protocol_version s), w_u16 (st_max_opaque_payload s),
       w_u8 (st_max_session_members s)]"
| "encode_response_body (RespRoomCreated m v) =
     wseq [w_u8 TAG_CREATE_ROOM, w_member_id m, encode_room_view v]"
| "encode_response_body (RespRoomJoined m v) =
     wseq [w_u8 TAG_JOIN_ROOM, w_member_id m, encode_room_view v]"
| "encode_response_body RespRoomLeft = w_u8 TAG_LEAVE_ROOM"
| "encode_response_body (RespRoomUpdated v) = wseq [w_u8 TAG_SET_OPTIONS, encode_room_view v]"
| "encode_response_body (RespRoomList g ads) =
     (if MAX_LIST_ADVERTS < length ads then Inl (LengthExceeded (length ads))
      else wseq [w_u8 TAG_LIST_ROOMS, w_u64 g, w_u16 (of_nat (length ads)), wseq (map encode_advert ads)])"
| "encode_response_body RespAck = w_u8 TAG_HOST_WORLD_READY"
| "encode_response_body (RespError e) = wseq [w_u8 TAG_ERROR, service_error_write e]"

definition decode_status :: "(Reader, ProtocolError, ResponseBody) rd" where
  "decode_status = rd_bind r_u16 (\<lambda>pv. rd_bind r_u16 (\<lambda>op. rd_bind r_u8 (\<lambda>sm. rd_return (RespStatus
     \<lparr> st_protocol_version = pv, st_max_opaque_payload = op, st_max_session_members = sm \<rparr>))))"

definition decode_room_list :: "(Reader, ProtocolError, ResponseBody) rd" where
  "decode_room_list = rd_bind r_u64 (\<lambda>g. rd_bind r_u16 (\<lambda>cnt.
     if MAX_LIST_ADVERTS < unat cnt then rd_lift (Inl (LengthExceeded (unat cnt)))
     else rd_bind (rd_repeat (unat cnt) decode_advert) (\<lambda>ads. rd_return (RespRoomList g ads))))"

definition decode_response_tagged :: "u8 \<Rightarrow> (Reader, ProtocolError, ResponseBody) rd" where
  "decode_response_tagged t =
    (if t = TAG_POPULATION then rd_bind r_u32 (\<lambda>n. rd_return (RespPopulation n))
     else if t = TAG_STATUS then decode_status
     else if t = TAG_CREATE_ROOM then
       rd_bind r_member_id (\<lambda>m. rd_bind decode_room_view (\<lambda>v. rd_return (RespRoomCreated m v)))
     else if t = TAG_JOIN_ROOM then
       rd_bind r_member_id (\<lambda>m. rd_bind decode_room_view (\<lambda>v. rd_return (RespRoomJoined m v)))
     else if t = TAG_LEAVE_ROOM then rd_return RespRoomLeft
     else if t = TAG_SET_OPTIONS then rd_bind decode_room_view (\<lambda>v. rd_return (RespRoomUpdated v))
     else if t = TAG_LIST_ROOMS then decode_room_list
     else if t = TAG_HOST_WORLD_READY then rd_return RespAck
     else if t = TAG_ERROR then rd_bind service_error_from_reader (\<lambda>e. rd_return (RespError e))
     else rd_lift (Inl (UnknownTag t)))"

definition decode_response_body :: "(Reader, ProtocolError, ResponseBody) rd" where
  "decode_response_body = rd_bind r_u8 decode_response_tagged"

section \<open>Peer events\<close>

fun encode_peer_event :: "PeerEvent \<Rightarrow> ProtocolError + bytes" where
  "encode_peer_event (EvHostWorldReady ep mp wp cl) =
     wseq [w_u8 EVENT_HOST_WORLD_READY, w_u32 ep, w_u64 mp, w_u64 wp, w_u64 cl]"
| "encode_peer_event (EvMapLoaded mid ep mp wp cl) =
     wseq [w_u8 EVENT_MAP_LOADED, w_member_id mid, w_u32 ep, w_u64 mp, w_u64 wp, w_u64 cl]"
| "encode_peer_event (EvBootstrapApplied mid ep bid seq con) =
     wseq [w_u8 EVENT_BOOTSTRAP_APPLIED, w_member_id mid, w_u32 ep, w_u32 bid, w_u32 seq, w_u64 con]"
| "encode_peer_event (EvEnterMatch mid ep bid con cli) =
     wseq [w_u8 EVENT_ENTER_MATCH, w_member_id mid, w_u32 ep, w_u32 bid, w_u64 con, w_u32 cli]"
| "encode_peer_event (EvAdmissionFailed mid ep why) =
     wseq [w_u8 EVENT_ADMISSION_FAILED, w_member_id mid, w_u32 ep, admission_encode why]"
| "encode_peer_event (EvVoteToSkip mid) = wseq [w_u8 EVENT_VOTE_TO_SKIP, w_member_id mid]"

definition decode_peer_event_tagged :: "u8 \<Rightarrow> (Reader, ProtocolError, PeerEvent) rd" where
  "decode_peer_event_tagged t =
    (if t = EVENT_HOST_WORLD_READY then
       rd_bind r_u32 (\<lambda>ep. rd_bind r_u64 (\<lambda>mp. rd_bind r_u64 (\<lambda>wp. rd_bind r_u64 (\<lambda>cl.
       rd_return (EvHostWorldReady ep mp wp cl)))))
     else if t = EVENT_MAP_LOADED then
       rd_bind r_member_id (\<lambda>mid. rd_bind r_u32 (\<lambda>ep. rd_bind r_u64 (\<lambda>mp. rd_bind r_u64 (\<lambda>wp.
       rd_bind r_u64 (\<lambda>cl. rd_return (EvMapLoaded mid ep mp wp cl))))))
     else if t = EVENT_BOOTSTRAP_APPLIED then
       rd_bind r_member_id (\<lambda>mid. rd_bind r_u32 (\<lambda>ep. rd_bind r_u32 (\<lambda>bid. rd_bind r_u32 (\<lambda>seq.
       rd_bind r_u64 (\<lambda>con. rd_return (EvBootstrapApplied mid ep bid seq con))))))
     else if t = EVENT_ENTER_MATCH then
       rd_bind r_member_id (\<lambda>mid. rd_bind r_u32 (\<lambda>ep. rd_bind r_u32 (\<lambda>bid. rd_bind r_u64 (\<lambda>con.
       rd_bind r_u32 (\<lambda>cli. rd_return (EvEnterMatch mid ep bid con cli))))))
     else if t = EVENT_ADMISSION_FAILED then
       rd_bind r_member_id (\<lambda>mid. rd_bind r_u32 (\<lambda>ep. rd_bind admission_decode (\<lambda>why.
       rd_return (EvAdmissionFailed mid ep why))))
     else if t = EVENT_VOTE_TO_SKIP then rd_bind r_member_id (\<lambda>mid. rd_return (EvVoteToSkip mid))
     else rd_lift (Inl (UnknownTag t)))"

definition decode_peer_event :: "(Reader, ProtocolError, PeerEvent) rd" where
  "decode_peer_event = rd_bind r_u8 decode_peer_event_tagged"

section \<open>Control messages\<close>

definition encode_message :: "u8 \<Rightarrow> u64 \<Rightarrow> bytes \<Rightarrow> ProtocolError + bytes" where
  "encode_message t rid body =
     (if MAX_CONTROL_BYTES < HEADER_BYTES + length body \<or> 65535 < length body
      then Inl (LengthExceeded (length body))
      else Inr (MAGIC @ to_be_bytes PROTOCOL_VERSION @ [t] @ to_be_bytes rid @
             to_be_bytes (of_nat (length body) :: u16) @ body))"

record Header =
  hd_tag :: u8
  hd_request_id :: u64
  hd_body :: bytes

definition decode_header :: "bytes \<Rightarrow> ProtocolError + Header" where
  "decode_header bs =
     (if MAX_CONTROL_BYTES < length bs then Inl (LengthExceeded (length bs))
      else if length bs < HEADER_BYTES then Inl Truncated
      else if take 4 bs \<noteq> MAGIC then Inl BadMagic
      else let version = from_be_bytes [bs ! 4, bs ! 5] :: u16 in
        if version \<noteq> PROTOCOL_VERSION then Inl (VersionMismatch PROTOCOL_VERSION version)
        else let declared = unat (from_be_bytes [bs ! 15, bs ! 16] :: u16); body = drop HEADER_BYTES bs in
          if length body \<noteq> declared then Inl (LengthMismatch declared (length body))
          else Inr \<lparr> hd_tag = bs ! 6, hd_request_id = from_be_bytes (take 8 (drop 7 bs)), hd_body = body \<rparr>)"

definition encode_hello :: "ControlHello \<Rightarrow> ProtocolError + bytes" where
  "encode_hello h = wseq [w_u16 (h_protocol_version h), w_u32 (h_game_protocol h), w_u8 (role_wire (h_role h)),
     w_string MAX_BUILD_BYTES (h_build h), w_string MAX_PLAYER_NAME_BYTES (h_player_name h)]"

definition decode_hello :: "(Reader, ProtocolError, ControlHello) rd" where
  "decode_hello = rd_bind r_u16 (\<lambda>pv. rd_bind r_u32 (\<lambda>gp. rd_bind r_u8 (\<lambda>rb.
     rd_bind (rd_lift (role_from_wire rb)) (\<lambda>ro. rd_bind (r_string MAX_BUILD_BYTES) (\<lambda>bl.
     rd_bind (r_string MAX_PLAYER_NAME_BYTES) (\<lambda>pn. rd_return
       \<lparr> h_protocol_version = pv, h_game_protocol = gp, h_role = ro, h_build = bl, h_player_name = pn \<rparr>))))))"

definition encode_closed :: "AdvertId \<Rightarrow> u32 \<Rightarrow> SessionCloseReason \<Rightarrow> ProtocolError + bytes" where
  "encode_closed rid ep why = wseq [w_advert_id rid, w_u32 ep, w_u8 (close_reason_wire why)]"

definition decode_closed :: "(Reader, ProtocolError, ControlFrame) rd" where
  "decode_closed = rd_bind r_advert_id (\<lambda>rid. rd_bind r_u32 (\<lambda>ep. rd_bind r_u8 (\<lambda>b.
     rd_bind (rd_lift (close_reason_from_wire b)) (\<lambda>why. rd_return (FrClosed rid ep why)))))"

fun encode_control_frame :: "ControlFrame \<Rightarrow> ProtocolError + bytes" where
  "encode_control_frame (FrRelay bs) =
     (if MAX_CONTROL_BYTES - HEADER_BYTES < length bs then Inl (LengthExceeded (length bs))
      else encode_message KIND_RELAY 0 bs)"
| "encode_control_frame (FrHello h) = res_bind (encode_hello h) (encode_message KIND_HELLO 0)"
| "encode_control_frame (FrRequest q) =
     res_bind (encode_request_body (request_body q)) (encode_message KIND_REQUEST (request_id q))"
| "encode_control_frame (FrResponse p) =
     res_bind (encode_response_body (response_body p)) (encode_message KIND_RESPONSE (response_id p))"
| "encode_control_frame (FrRoomView v) = res_bind (encode_room_view v) (encode_message KIND_ROOM_VIEW 0)"
| "encode_control_frame (FrClosed rid ep why) =
     res_bind (encode_closed rid ep why) (encode_message KIND_CLOSED 0)"
| "encode_control_frame (FrPeerEvent e) = res_bind (encode_peer_event e) (encode_message KIND_PEER_EVENT 0)"

text \<open>Run a body decoder over the whole body: \<open>body.finish()?\<close> refuses trailing bytes.\<close>

definition whole_body :: "(Reader, ProtocolError, 'a) rd \<Rightarrow> bytes \<Rightarrow> ProtocolError + 'a" where
  "whole_body m bs = res_bind (m (r_new bs)) (\<lambda>(x, r). res_bind (r_finish r) (\<lambda>_. Inr x))"

definition decode_control_frame :: "bytes \<Rightarrow> ProtocolError + ControlFrame" where
  "decode_control_frame bs = res_bind (decode_header bs) (\<lambda>h.
     let body = hd_body h; t = hd_tag h in
     if t = KIND_RELAY then Inr (FrRelay body)
     else if t = KIND_HELLO then whole_body (rd_bind decode_hello (\<lambda>x. rd_return (FrHello x))) body
     else if t = KIND_REQUEST then
       whole_body (rd_bind decode_request_body (\<lambda>b. rd_return
         (FrRequest \<lparr> request_id = hd_request_id h, request_body = b \<rparr>))) body
     else if t = KIND_RESPONSE then
       whole_body (rd_bind decode_response_body (\<lambda>b. rd_return
         (FrResponse \<lparr> response_id = hd_request_id h, response_body = b \<rparr>))) body
     else if t = KIND_ROOM_VIEW then whole_body (rd_bind decode_room_view (\<lambda>v. rd_return (FrRoomView v))) body
     else if t = KIND_CLOSED then whole_body decode_closed body
     else if t = KIND_PEER_EVENT then whole_body (rd_bind decode_peer_event (\<lambda>e. rd_return (FrPeerEvent e))) body
     else Inl (UnknownTag t))"

definition encode_request :: "ControlRequest \<Rightarrow> ProtocolError + bytes" where
  "encode_request q = encode_control_frame (FrRequest q)"

definition decode_request :: "bytes \<Rightarrow> ProtocolError + ControlRequest" where
  "decode_request bs = res_bind (decode_control_frame bs)
     (\<lambda>f. case f of FrRequest q \<Rightarrow> Inr q | _ \<Rightarrow> Inl InvalidBody)"

definition encode_response :: "ControlResponse \<Rightarrow> ProtocolError + bytes" where
  "encode_response p = encode_control_frame (FrResponse p)"

definition decode_response :: "bytes \<Rightarrow> ProtocolError + ControlResponse" where
  "decode_response bs = res_bind (decode_control_frame bs)
     (\<lambda>f. case f of FrResponse p \<Rightarrow> Inr p | _ \<Rightarrow> Inl InvalidBody)"

section \<open>Frames on a stream\<close>

definition encode_stream_frame :: "ControlFrame \<Rightarrow> ProtocolError + bytes" where
  "encode_stream_frame f = res_bind (encode_control_frame f) (\<lambda>inner.
     if MAX_CONTROL_BYTES < length inner then Inl (LengthExceeded (length inner))
     else Inr (to_be_bytes (of_nat (length inner) :: u32) @ inner))"

definition decode_stream_payload :: "bytes \<Rightarrow> ProtocolError + ControlFrame" where
  "decode_stream_payload inner = decode_control_frame inner"

definition stream_frame_len :: "bytes \<Rightarrow> ProtocolError + nat" where
  "stream_frame_len hdr = (let len = unat (from_be_bytes hdr :: u32) in
     if len = 0 \<or> MAX_CONTROL_BYTES < len then Inl (LengthExceeded len) else Inr len)"

section \<open>Relay datagrams\<close>

fun relay_parts :: "RelayDatagram \<Rightarrow> u8 \<times> MemberId option \<times> bytes" where
  "relay_parts (ClientToHost p) = (1, None, p)"
| "relay_parts (HostToMember m p) = (2, Some m, p)"
| "relay_parts (ServiceToHost m p) = (3, Some m, p)"
| "relay_parts (ServiceToMember p) = (4, None, p)"

definition encode_relay_bounded :: "RelayDatagram \<Rightarrow> nat \<Rightarrow> ProtocolError + bytes" where
  "encode_relay_bounded d mx = (case relay_parts d of (t, mem, payload) \<Rightarrow>
     if mx < length payload then Inl (LengthExceeded (length payload))
     else Inr ([ucast PROTOCOL_VERSION, t] @
       (case mem of None \<Rightarrow> [] | Some m \<Rightarrow> array_bytes (member_raw m)) @ payload))"

definition decode_relay_bounded :: "bytes \<Rightarrow> nat \<Rightarrow> ProtocolError + RelayDatagram" where
  "decode_relay_bounded bs mx =
     (if length bs < 2 then Inl Truncated
      else if bs ! 0 \<noteq> ucast PROTOCOL_VERSION then Inl (VersionMismatch PROTOCOL_VERSION (ucast (bs ! 0)))
      else let t = bs ! 1 in
        if t = 2 \<or> t = 3 then
          (if length bs < 18 then Inl Truncated
           else let m = MemberId (array_of (take 16 (drop 2 bs))); payload = drop 18 bs in
             if mx < length payload then Inl (LengthExceeded (length payload))
             else if t = 2 then Inr (HostToMember m payload) else Inr (ServiceToHost m payload))
        else let payload = drop 2 bs in
          if mx < length payload then Inl (LengthExceeded (length payload))
          else if t = 1 then Inr (ClientToHost payload)
          else if t = 4 then Inr (ServiceToMember payload)
          else Inl (UnknownTag t))"

definition encode_relay :: "RelayDatagram \<Rightarrow> ProtocolError + bytes" where
  "encode_relay d = encode_relay_bounded d MAX_OPAQUE_PAYLOAD"

definition encode_relay_stream :: "RelayDatagram \<Rightarrow> ProtocolError + bytes" where
  "encode_relay_stream d = encode_relay_bounded d MAX_BOOTSTRAP_PAYLOAD"

definition decode_relay :: "bytes \<Rightarrow> ProtocolError + RelayDatagram" where
  "decode_relay bs = decode_relay_bounded bs MAX_OPAQUE_PAYLOAD"

definition decode_relay_stream :: "bytes \<Rightarrow> ProtocolError + RelayDatagram" where
  "decode_relay_stream bs = decode_relay_bounded bs MAX_BOOTSTRAP_PAYLOAD"

end
