(* ===== verification/Service_State.thy ===== *)
theory Service_State
  imports Protocol_Codec
begin

text \<open>
  The state of the relay service, \<^verbatim>\<open>crates/iw4l-master/src/main.rs\<close>: connected peers with their
  control queues, rooms with their members, and the operations on \<open>ServiceState\<close>. A
  connection of the QUIC library is its stable identifier; closing or writing to one is an
  output. What the service uses of other crates (the bounded channel and semaphore of tokio,
  SHA-256, the clock, random bytes) is the record \<open>world\<close> and the argument \<open>rnd\<close>, the random
  draws of one request in the order it makes them.
\<close>

section \<open>Outside the service\<close>

record QueuedControl =
  qc_frame :: ControlFrame
  deadline :: nanos
  qc_bytes :: nat \<comment> \<open>the permits held for it\<close>

text \<open>
  \<open>'q\<close> is the state behind a \<open>ControlSender\<close>: the channel and the semaphore that bounds its
  bytes. Both operations fail without effect.
\<close>

record 'q world =
  try_acquire_many :: "'q \<Rightarrow> nat \<Rightarrow> 'q option"
  mpsc_try_send :: "'q \<Rightarrow> QueuedControl \<Rightarrow> 'q option"
  sha256 :: "bytes \<Rightarrow> bytes"
  now :: nanos
  limit_queue_age :: nanos

text \<open>\<open>Box<dyn Error>\<close>\<close>

datatype Failure =
    ServiceFailure ServiceError
  | ProtocolFailure ProtocolError
  | Message string

definition map_err :: "('e \<Rightarrow> 'f) \<Rightarrow> 'e + 'a \<Rightarrow> 'f + 'a" where
  "map_err f v = (case v of Inl e \<Rightarrow> Inl (f e) | Inr x \<Rightarrow> Inr x)"

lemma map_err_simps [simp]:
  "map_err f (Inl e) = Inl (f e)" "map_err f (Inr x) = Inr x"
  "map_err f v = Inr x \<longleftrightarrow> v = Inr x"
  by (auto simp: map_err_def split: sum.splits)

section \<open>Control queue\<close>

definition queued_control :: "'q world \<Rightarrow> ControlFrame \<Rightarrow> nat \<Rightarrow> QueuedControl" where
  "queued_control W frame permits =
     \<lparr> qc_frame = frame, deadline = now W + limit_queue_age W, qc_bytes = permits \<rparr>"

definition try_send :: "'q world \<Rightarrow> 'q \<Rightarrow> ControlFrame \<Rightarrow> Failure + 'q" where
  "try_send W q frame =
     res_bind (map_err ProtocolFailure (encode_stream_frame frame)) (\<lambda>bs.
     let len = unat (of_nat (length bs) :: u32) in
     case try_acquire_many W q len of
       None \<Rightarrow> Inl (Message ''control byte budget exhausted'')
     | Some q1 \<Rightarrow> (case mpsc_try_send W q1 (queued_control W frame len) of
         None \<Rightarrow> Inl (Message ''control queue exhausted'')
       | Some q2 \<Rightarrow> Inr q2))"

section \<open>Connections per address\<close>

abbreviation (input) MAX_CONNECTIONS_PER_ADDRESS :: nat where "MAX_CONNECTIONS_PER_ADDRESS \<equiv> 32"

text \<open>
  \<open>entry(ip).or_insert(0)\<close> inserts the zero before the limit is checked; a refused claim
  leaves the map with that entry. The first component says whether the claim was granted.
\<close>

definition slot_claim :: "'ip \<Rightarrow> ('ip, nat) hash_map \<Rightarrow> bool \<times> ('ip, nat) hash_map" where
  "slot_claim ip counts = (let n = (case hm_get counts ip of None \<Rightarrow> 0 | Some n \<Rightarrow> n) in
     if MAX_CONNECTIONS_PER_ADDRESS \<le> n then (False, hm_insert ip n counts)
     else (True, hm_insert ip (Suc n) counts))"

definition slot_drop :: "'ip \<Rightarrow> ('ip, nat) hash_map \<Rightarrow> ('ip, nat) hash_map" where
  "slot_drop ip counts = (case hm_get counts ip of None \<Rightarrow> counts
     | Some n \<Rightarrow> if n - 1 = 0 then hm_remove ip counts else hm_insert ip (n - 1) counts)"

section \<open>Peers, rooms and the state\<close>

record 'q Peer =
  online :: "nanos option"
  player_name :: str
  connection :: nat \<comment> \<open>stable id\<close>
  control_tx :: 'q

record PasswordVerifier =
  salt :: array16
  digest :: bytes

definition pv_digest :: "'q world \<Rightarrow> array16 \<Rightarrow> str \<Rightarrow> bytes" where
  "pv_digest W sa password = sha256 W (array_bytes sa @ str_bytes password)"

definition pv_new :: "'q world \<Rightarrow> array16 \<Rightarrow> str \<Rightarrow> PasswordVerifier option" where
  "pv_new W rnd password =
     (if str_is_empty password then None else Some \<lparr> salt = rnd, digest = pv_digest W rnd password \<rparr>)"

definition pv_matches :: "'q world \<Rightarrow> PasswordVerifier \<Rightarrow> str \<Rightarrow> bool" where
  "pv_matches W pv password \<longleftrightarrow>
     foldl (\<lambda>difference (a, b). difference OR (a XOR b)) 0
       (zip (digest pv) (pv_digest W (salt pv) password)) = (0 :: u8)"

record Room =
  view :: RoomView
  password :: "PasswordVerifier option"
  host_connection_id :: u64
  member_of :: "(u64, MemberId) hash_map"
  connection_of :: "(MemberId, u64) hash_map"

record 'q ServiceState =
  rooms :: "(AdvertId, Room) hash_map"
  peers :: "(u64, 'q Peer) hash_map"
  membership :: "(u64, AdvertId) hash_map"
  generation :: u64

definition default_state :: "'q ServiceState" where
  "default_state = \<lparr> rooms = [], peers = [], membership = [], generation = 0 \<rparr>"

type_synonym publishes = "(u64 \<times> ControlFrame) list"

section \<open>Operations\<close>

text \<open>\<open>wrapping_add(1).max(1)\<close>\<close>

definition bump :: "'a::len word \<Rightarrow> 'a word" where
  "bump n = max (n + 1) 1"

definition attach_peer :: "u64 \<Rightarrow> str \<Rightarrow> nat \<Rightarrow> 'q \<Rightarrow> 'q ServiceState \<Rightarrow> 'q ServiceState" where
  "attach_peer cid name con tx st = st\<lparr> peers := hm_insert cid
     \<lparr> online = None, player_name = name, connection = con, control_tx = tx \<rparr> (peers st) \<rparr>"

definition publish_view :: "AdvertId \<Rightarrow> 'q ServiceState \<Rightarrow> publishes" where
  "publish_view rid st = (case hm_get (rooms st) rid of None \<Rightarrow> []
     | Some room \<Rightarrow> map (\<lambda>cid. (cid, FrRoomView (view room))) (hm_keys (member_of room)))"

definition close_room :: "AdvertId \<Rightarrow> SessionCloseReason \<Rightarrow> 'q ServiceState \<Rightarrow> 'q ServiceState \<times> publishes" where
  "close_room rid reason st = (case hm_get (rooms st) rid of None \<Rightarrow> (st, [])
     | Some room \<Rightarrow>
       (st\<lparr> rooms := hm_remove rid (rooms st),
            generation := generation st + 1,
            membership := fold hm_remove (hm_keys (member_of room)) (membership st) \<rparr>,
        map (\<lambda>cid. (cid, FrClosed rid (epoch (view room)) reason)) (hm_keys (member_of room))))"

definition drop_member :: "u64 \<Rightarrow> MemberId \<Rightarrow> Room \<Rightarrow> Room" where
  "drop_member cid mid room = room\<lparr>
     member_of := hm_remove cid (member_of room),
     connection_of := hm_remove mid (connection_of room),
     view := (view room)\<lparr> members := filter (\<lambda>i. i \<noteq> mid) (members (view room)),
       member_names := (member_names (view room))(mid := None),
       revision := bump (revision (view room)) \<rparr> \<rparr>"

definition remove_member :: "u64 \<Rightarrow> 'q ServiceState \<Rightarrow> 'q ServiceState \<times> publishes" where
  "remove_member cid st = (case hm_get (membership st) cid of None \<Rightarrow> (st, [])
     | Some rid \<Rightarrow> (let st1 = st\<lparr> membership := hm_remove cid (membership st) \<rparr> in
       case hm_get (rooms st1) rid of None \<Rightarrow> (st1, [])
       | Some room \<Rightarrow> (case hm_get (member_of room) cid of None \<Rightarrow> (st1, [])
         | Some mid \<Rightarrow> (let st2 = st1\<lparr> rooms := hm_insert rid (drop_member cid mid room) (rooms st1),
               generation := generation st1 + 1 \<rparr> in
             (st2, publish_view rid st2)))))"

definition disconnect :: "u64 \<Rightarrow> 'q ServiceState \<Rightarrow> 'q ServiceState \<times> publishes" where
  "disconnect cid st = (let st1 = st\<lparr> peers := hm_remove cid (peers st) \<rparr> in
     case hm_get (membership st1) cid of None \<Rightarrow> (st1, [])
     | Some rid \<Rightarrow> (case hm_get (rooms st1) rid of
         None \<Rightarrow> (st1\<lparr> membership := hm_remove cid (membership st1) \<rparr>, [])
       | Some room \<Rightarrow> if host_connection_id room = cid then close_room rid HostLeft st1
           else remove_member cid st1))"

definition bump_room :: "AdvertId \<Rightarrow> 'q ServiceState \<Rightarrow> 'q ServiceState" where
  "bump_room rid st = (let st1 = (case hm_get (rooms st) rid of None \<Rightarrow> st
       | Some room \<Rightarrow> st\<lparr> rooms := hm_insert rid
           (room\<lparr> view := (view room)\<lparr> revision := bump (revision (view room)) \<rparr> \<rparr>) (rooms st) \<rparr>) in
     st1\<lparr> generation := generation st1 + 1 \<rparr>)"

definition host_of :: "u64 \<Rightarrow> 'q ServiceState \<Rightarrow> ServiceError + AdvertId" where
  "host_of cid st = res_bind (ok_or NotMember (hm_get (membership st) cid)) (\<lambda>rid.
     res_bind (ok_or UnknownAdvert (hm_get (rooms st) rid)) (\<lambda>room.
     if host_connection_id room \<noteq> cid then Inl NotHost else Inr rid))"

definition state_member_of :: "u64 \<Rightarrow> 'q ServiceState \<Rightarrow> ServiceError + AdvertId \<times> MemberId" where
  "state_member_of cid st = res_bind (ok_or NotMember (hm_get (membership st) cid)) (\<lambda>rid.
     res_bind (ok_or UnknownAdvert (hm_get (rooms st) rid)) (\<lambda>room.
     res_bind (ok_or NotMember (hm_get (member_of room) cid)) (\<lambda>mid. Inr (rid, mid))))"

definition peer_connection :: "u64 \<Rightarrow> 'q ServiceState \<Rightarrow> nat option" where
  "peer_connection cid st = map_option connection (hm_get (peers st) cid)"

text \<open>
  \<open>route_target\<close> and \<open>route_target_stream\<close> differ only in the encoder they call, so both are
  instances of one definition.
\<close>

definition route_with :: "(RelayDatagram \<Rightarrow> ProtocolError + bytes) \<Rightarrow> u64 \<Rightarrow> RelayDatagram \<Rightarrow>
    'q ServiceState \<Rightarrow> Failure + nat \<times> bytes" where
  "route_with enc cid relay st = (case relay of
     ClientToHost payload \<Rightarrow>
       res_bind (map_err ServiceFailure (state_member_of cid st)) (\<lambda>(rid, mid).
       res_bind (map_err ServiceFailure (ok_or UnknownAdvert (hm_get (rooms st) rid))) (\<lambda>room.
       res_bind (map_err ServiceFailure (ok_or NotHost (peer_connection (host_connection_id room) st))) (\<lambda>target.
       res_bind (map_err ProtocolFailure (enc (ServiceToHost mid payload))) (\<lambda>out. Inr (target, out)))))
   | HostToMember mid payload \<Rightarrow>
       res_bind (map_err ServiceFailure (host_of cid st)) (\<lambda>rid.
       res_bind (map_err ServiceFailure (ok_or UnknownAdvert (hm_get (rooms st) rid))) (\<lambda>room.
       res_bind (map_err ServiceFailure (ok_or NotMember (hm_get (connection_of room) mid))) (\<lambda>tid.
       res_bind (map_err ServiceFailure (ok_or NotMember (peer_connection tid st))) (\<lambda>target.
       res_bind (map_err ProtocolFailure (enc (ServiceToMember payload))) (\<lambda>out. Inr (target, out))))))
   | _ \<Rightarrow> Inl (ServiceFailure Malformed))"

definition route_target :: "u64 \<Rightarrow> RelayDatagram \<Rightarrow> 'q ServiceState \<Rightarrow> Failure + nat \<times> bytes" where
  "route_target = route_with encode_relay"

definition route_target_stream :: "u64 \<Rightarrow> RelayDatagram \<Rightarrow> 'q ServiceState \<Rightarrow> Failure + nat \<times> bytes" where
  "route_target_stream = route_with encode_relay_stream"

definition normalize_player_name :: "str \<Rightarrow> str" where
  "normalize_player_name name =
     (let n = collect_chars (take 16 (filter (\<lambda>c. \<not> is_control c) (trim_chars (str_chars name)))) in
      if str_is_empty n then lit ''Player'' else n)"

end
