(* ===== verification/Service_Requests.thy ===== *)
theory Service_Requests
  imports Service_State
begin

text \<open>
  The request handlers of \<^verbatim>\<open>crates/iw4l-master/src/main.rs\<close>: \<open>handle_request\<close> and the functions
  it calls. A handler answers with the new state, the response and the frames to publish, or
  panics where the source indexes a map with \<open>[]\<close> or calls \<open>expect\<close>; a panic keeps the state
  as it was at that point, because the lock of the service is not poisoned by it.
\<close>

datatype 'q handled =
    Panic "'q ServiceState"
  | Reply "'q ServiceState" ResponseBody publishes

abbreviation (input) MAX_ROOMS :: nat where "MAX_ROOMS \<equiv> 10000"

abbreviation refuse :: "'q ServiceState \<Rightarrow> ServiceError \<Rightarrow> 'q handled" where
  "refuse st e \<equiv> Reply st (RespError e) []"

text \<open>\<open>m[&k]\<close> and \<open>m.get(&k).expect(..)\<close>\<close>

definition index_or_panic :: "'q ServiceState \<Rightarrow> 'v option \<Rightarrow> ('v \<Rightarrow> 'q handled) \<Rightarrow> 'q handled" where
  "index_or_panic st v f = (case v of None \<Rightarrow> Panic st | Some x \<Rightarrow> f x)"

lemma index_or_panic_simps [simp]:
  "index_or_panic st None f = Panic st" "index_or_panic st (Some x) f = f x"
  by (simp_all add: index_or_panic_def)

text \<open>\<open>rooms.get_mut(&id)\<close> and an assignment through it\<close>

definition put_room :: "AdvertId \<Rightarrow> Room \<Rightarrow> 'q ServiceState \<Rightarrow> 'q ServiceState" where
  "put_room rid room st = st\<lparr> rooms := hm_insert rid room (rooms st) \<rparr>"

section \<open>Rooms\<close>

definition map_content_allowed :: "str \<Rightarrow> ContentFlags \<Rightarrow> bool" where
  "map_content_allowed mp families =
     (case for_map mp of None \<Rightarrow> False | Some fam \<Rightarrow> flags_contain families fam)"

definition create_room :: "'q world \<Rightarrow> (nat \<Rightarrow> array16) \<Rightarrow> u64 \<Rightarrow> str \<Rightarrow> str \<Rightarrow> str \<Rightarrow> u8 \<Rightarrow> ContentFlags \<Rightarrow>
    ContentFlags \<Rightarrow> str \<Rightarrow> 'q ServiceState \<Rightarrow> 'q handled" where
  "create_room W rnd cid name mp mode mx req av pw st =
     (if \<not> flags_contain KNOWN req \<or> \<not> flags_contain req IW4 \<or> \<not> flags_empty (missing_from req av)
         \<or> \<not> map_content_allowed mp req
      then refuse st InvalidAdvert
      else if hm_contains (membership st) cid then refuse st AlreadyHosting
      else if MAX_ROOMS \<le> length (rooms st) then refuse st AdvertCapacity
      else let rid = AdvertId (rnd 0); mid = MemberId (rnd 1) in
        index_or_panic st (hm_get (peers st) cid) (\<lambda>peer.
        let v = \<lparr> room_id = rid, rv_name = name, host = mid, members = [mid],
              member_names = [mid \<mapsto> player_name peer], rv_map = mp, rv_mode = mode, joinable = True,
              revision = 1, epoch = 0, phase = Gathering, max_players = mx, requires = req,
              available = av, password_protected = (\<not> str_is_empty pw) \<rparr>;
            room = \<lparr> view = v, password = pv_new W (rnd 2) pw, host_connection_id = cid,
              member_of = [(cid, mid)], connection_of = [(mid, cid)] \<rparr>;
            st1 = put_room rid room st;
            st2 = st1\<lparr> membership := hm_insert cid rid (membership st1), generation := generation st1 + 1 \<rparr>
        in Reply st2 (RespRoomCreated mid v) [(cid, FrRoomView v)]))"

definition join_room :: "'q world \<Rightarrow> (nat \<Rightarrow> array16) \<Rightarrow> u64 \<Rightarrow> AdvertId \<Rightarrow> ContentFlags \<Rightarrow> str \<Rightarrow>
    'q ServiceState \<Rightarrow> 'q handled" where
  "join_room W rnd cid rid hv pw st = (case hm_get (membership st) cid of
     Some existing \<Rightarrow>
       (if existing = rid then
          index_or_panic st (hm_get (rooms st) rid) (\<lambda>room.
          index_or_panic st (hm_get (member_of room) cid) (\<lambda>mid.
          Reply st (RespRoomJoined mid (view room)) []))
        else refuse st AlreadyHosting)
   | None \<Rightarrow> (case hm_get (rooms st) rid of
       None \<Rightarrow> refuse st UnknownAdvert
     | Some room \<Rightarrow>
         if (case password room of None \<Rightarrow> False | Some pv \<Rightarrow> \<not> pv_matches W pv pw) then refuse st IncorrectPassword
         else if \<not> allows_join_request (advert (view room)) then refuse st Locked
         else if \<not> flags_empty (missing_from (requires (view room)) hv)
           then refuse st (MissingContent (requires (view room)) hv)
         else if unat (max_players (view room)) \<le> length (members (view room)) then refuse st Full
         else let mid = MemberId (rnd 0);
             room1 = room\<lparr> member_of := hm_insert cid mid (member_of room),
               connection_of := hm_insert mid cid (connection_of room),
               view := (view room)\<lparr> members := members (view room) @ [mid] \<rparr> \<rparr>;
             st1 = put_room rid room1 st
           in index_or_panic st1 (hm_get (peers st1) cid) (\<lambda>peer.
             let v = (view room1)\<lparr> member_names := (member_names (view room1))(mid \<mapsto> player_name peer),
                   revision := bump (revision (view room1)) \<rparr>;
                 st2 = put_room rid (room1\<lparr> view := v \<rparr>) st1;
                 st3 = st2\<lparr> membership := hm_insert cid rid (membership st2), generation := generation st2 + 1 \<rparr>
             in Reply st3 (RespRoomJoined mid v) (publish_view rid st3))))"

definition leave_room :: "u64 \<Rightarrow> 'q ServiceState \<Rightarrow> 'q handled" where
  "leave_room cid st = (case hm_get (membership st) cid of None \<Rightarrow> Reply st RespRoomLeft []
     | Some rid \<Rightarrow>
       (let (st', pubs) =
          (if (case hm_get (rooms st) rid of None \<Rightarrow> False | Some room \<Rightarrow> host_connection_id room = cid)
           then close_room rid HostLeft st else remove_member cid st)
        in Reply st' RespRoomLeft pubs))"

section \<open>What only a host may do\<close>

text \<open>The common start: \<open>host_of\<close>, then \<open>rooms.get_mut(&room_id).expect(\"host room\")\<close>.\<close>

definition as_host :: "u64 \<Rightarrow> 'q ServiceState \<Rightarrow> (AdvertId \<Rightarrow> Room \<Rightarrow> 'q handled) \<Rightarrow> 'q handled" where
  "as_host cid st f = (case host_of cid st of Inl e \<Rightarrow> refuse st e
     | Inr rid \<Rightarrow> index_or_panic st (hm_get (rooms st) rid) (f rid))"

text \<open>The common end: bump the room, answer with its view, publish it to the members.\<close>

definition room_updated :: "AdvertId \<Rightarrow> 'q ServiceState \<Rightarrow> 'q handled" where
  "room_updated rid st = (let st' = bump_room rid st in
     index_or_panic st' (hm_get (rooms st') rid) (\<lambda>room.
     Reply st' (RespRoomUpdated (view room)) (publish_view rid st')))"

definition set_password :: "'q world \<Rightarrow> (nat \<Rightarrow> array16) \<Rightarrow> u64 \<Rightarrow> str \<Rightarrow> 'q ServiceState \<Rightarrow> 'q handled" where
  "set_password W rnd cid pw st = as_host cid st (\<lambda>rid room.
     let p = pv_new W (rnd 0) pw in
     room_updated rid (put_room rid (room\<lparr> password := p,
       view := (view room)\<lparr> password_protected := (p \<noteq> None) \<rparr> \<rparr>) st))"

text \<open>During a match, the map and the mode may not change.\<close>

definition options_refused :: "str \<Rightarrow> str \<Rightarrow> RoomView \<Rightarrow> bool" where
  "options_refused mp mode v \<longleftrightarrow> \<not> map_content_allowed mp (requires v)
     \<or> (in_match (phase v) \<and> (rv_map v \<noteq> mp \<or> rv_mode v \<noteq> mode))"

definition set_options :: "u64 \<Rightarrow> str \<Rightarrow> str \<Rightarrow> bool \<Rightarrow> 'q ServiceState \<Rightarrow> 'q handled" where
  "set_options cid mp mode jn st = as_host cid st (\<lambda>rid room.
     if options_refused mp mode (view room) then refuse st InvalidAdvert
     else room_updated rid (put_room rid (room\<lparr> view :=
       (view room)\<lparr> rv_map := mp, rv_mode := mode, joinable := jn \<rparr> \<rparr>) st))"

definition start_match :: "u64 \<Rightarrow> str \<Rightarrow> str \<Rightarrow> 'q ServiceState \<Rightarrow> 'q handled" where
  "start_match cid mp mode st = as_host cid st (\<lambda>rid room.
     if options_refused mp mode (view room) then refuse st InvalidAdvert
     else let v = (view room)\<lparr> rv_map := mp, rv_mode := mode \<rparr> in
       if in_match (phase v) then Reply (put_room rid (room\<lparr> view := v \<rparr>) st) (RespRoomUpdated v) []
       else room_updated rid (put_room rid (room\<lparr> view :=
         v\<lparr> epoch := bump (epoch v), phase := Loading \<rparr> \<rparr>) st))"

text \<open>A report about another room, epoch or phase is acknowledged and ignored.\<close>

definition stale_report :: "AdvertId \<Rightarrow> AdvertId \<Rightarrow> u32 \<Rightarrow> RoomView \<Rightarrow> bool" where
  "stale_report rid expected ep v \<longleftrightarrow> rid \<noteq> expected \<or> ep = 0 \<or> epoch v \<noteq> ep \<or> \<not> in_match (phase v)"

definition end_match :: "u64 \<Rightarrow> AdvertId \<Rightarrow> u32 \<Rightarrow> 'q ServiceState \<Rightarrow> 'q handled" where
  "end_match cid expected ep st = as_host cid st (\<lambda>rid room.
     if stale_report rid expected ep (view room) then Reply st RespAck []
     else let st' = bump_room rid (put_room rid (room\<lparr> view := (view room)\<lparr> phase := Gathering \<rparr> \<rparr>) st)
       in Reply st' RespAck (publish_view rid st'))"

definition host_world_ready :: "u64 \<Rightarrow> AdvertId \<Rightarrow> u32 \<Rightarrow> u64 \<Rightarrow> u64 \<Rightarrow> u64 \<Rightarrow> 'q ServiceState \<Rightarrow> 'q handled" where
  "host_world_ready cid expected ep mp weapons classes st = as_host cid st (\<lambda>rid room.
     if stale_report rid expected ep (view room) then Reply st RespAck []
     else let st' = bump_room rid (put_room rid (room\<lparr> view := (view room)\<lparr> phase := Running \<rparr> \<rparr>) st);
         event = FrPeerEvent (EvHostWorldReady ep mp weapons classes);
         events = (case hm_get (rooms st') rid of None \<Rightarrow> []
           | Some room \<Rightarrow> map (\<lambda>peer. (peer, event)) (hm_keys (member_of room)))
       in Reply st' RespAck (publish_view rid st' @ events))"

definition close_room_request :: "u64 \<Rightarrow> 'q ServiceState \<Rightarrow> 'q handled" where
  "close_room_request cid st = (case host_of cid st of Inl e \<Rightarrow> refuse st e
     | Inr rid \<Rightarrow> (let (st', pubs) = close_room rid HostLeft st in Reply st' RespAck pubs))"

section \<open>Events between a host and its members\<close>

definition forward_to_host :: "u64 \<Rightarrow> (MemberId \<Rightarrow> PeerEvent) \<Rightarrow> 'q ServiceState \<Rightarrow> 'q handled" where
  "forward_to_host cid event st = (case state_member_of cid st of Inl e \<Rightarrow> refuse st e
     | Inr (rid, mid) \<Rightarrow> (case hm_get (rooms st) rid of None \<Rightarrow> refuse st UnknownAdvert
       | Some room \<Rightarrow> Reply st RespAck [(host_connection_id room, FrPeerEvent (event mid))]))"

definition send_to_member :: "u64 \<Rightarrow> MemberId \<Rightarrow> PeerEvent \<Rightarrow> 'q ServiceState \<Rightarrow> 'q handled" where
  "send_to_member cid mid event st = (case host_of cid st of Inl e \<Rightarrow> refuse st e
     | Inr rid \<Rightarrow> (case hm_get (rooms st) rid of None \<Rightarrow> refuse st UnknownAdvert
       | Some room \<Rightarrow> (case hm_get (connection_of room) mid of None \<Rightarrow> refuse st NotMember
         | Some target \<Rightarrow> Reply st RespAck [(target, FrPeerEvent event)])))"

definition enter_match :: "u64 \<Rightarrow> MemberId \<Rightarrow> u32 \<Rightarrow> u32 \<Rightarrow> u64 \<Rightarrow> u32 \<Rightarrow> 'q ServiceState \<Rightarrow> 'q handled" where
  "enter_match cid mid ep bid con cli = send_to_member cid mid (EvEnterMatch mid ep bid con cli)"

definition admission_failed :: "u64 \<Rightarrow> MemberId \<Rightarrow> u32 \<Rightarrow> AdmissionFailure \<Rightarrow> 'q ServiceState \<Rightarrow> 'q handled" where
  "admission_failed cid mid ep reason = send_to_member cid mid (EvAdmissionFailed mid ep reason)"

section \<open>Queries\<close>

definition recently_online :: "nanos \<Rightarrow> 'q Peer \<Rightarrow> bool" where
  "recently_online t peer = (case online peer of None \<Rightarrow> False | Some seen \<Rightarrow> t - seen < from_secs 10)"

definition players_online :: "nanos \<Rightarrow> 'q ServiceState \<Rightarrow> nat" where
  "players_online t st = length (membership st) +
     length (filter (\<lambda>(cid, peer). recently_online t peer \<and> \<not> hm_contains (membership st) cid) (peers st))"

definition population :: "'q world \<Rightarrow> u64 \<Rightarrow> bool \<Rightarrow> 'q ServiceState \<Rightarrow> 'q handled" where
  "population W cid on st = (let st' = (case hm_get (peers st) cid of None \<Rightarrow> st
       | Some peer \<Rightarrow> st\<lparr> peers := hm_insert cid (peer\<lparr> online := (if on then Some (now W) else None) \<rparr>) (peers st) \<rparr>);
       players = players_online (now W) st'
     in Reply st' (RespPopulation (if players < 2 ^ 32 then of_nat players else - 1)) [])"

definition list_rooms :: "'q ServiceState \<Rightarrow> Advert list" where
  "list_rooms st = take MAX_LIST_ADVERTS (sort_key ad_id (map (\<lambda>(rid, room). advert (view room)) (rooms st)))"

section \<open>Dispatch on the request\<close>

fun handle_body :: "'q world \<Rightarrow> (nat \<Rightarrow> array16) \<Rightarrow> u64 \<Rightarrow> RequestBody \<Rightarrow> 'q ServiceState \<Rightarrow> 'q handled" where
  "handle_body W rnd cid ReqStatus st = Reply st (RespStatus CURRENT) []"
| "handle_body W rnd cid (ReqPopulation on) st = population W cid on st"
| "handle_body W rnd cid (ReqCreateRoom nm mp md mx req av pw) st = create_room W rnd cid nm mp md mx req av pw st"
| "handle_body W rnd cid (ReqJoinRoom rid hv pw) st = join_room W rnd cid rid hv pw st"
| "handle_body W rnd cid (ReqSetPassword pw) st = set_password W rnd cid pw st"
| "handle_body W rnd cid ReqLeaveRoom st = leave_room cid st"
| "handle_body W rnd cid (ReqSetOptions mp md jn) st = set_options cid mp md jn st"
| "handle_body W rnd cid (ReqStartMatch mp md) st = start_match cid mp md st"
| "handle_body W rnd cid (ReqEndMatch rid ep) st = end_match cid rid ep st"
| "handle_body W rnd cid ReqCloseRoom st = close_room_request cid st"
| "handle_body W rnd cid ReqListRooms st = Reply st (RespRoomList (generation st) (list_rooms st)) []"
| "handle_body W rnd cid (ReqHostWorldReady rid ep mp wp cl) st = host_world_ready cid rid ep mp wp cl st"
| "handle_body W rnd cid (ReqMapLoaded ep mp wp cl) st = forward_to_host cid (\<lambda>mid. EvMapLoaded mid ep mp wp cl) st"
| "handle_body W rnd cid (ReqBootstrapApplied ep bid seq con) st =
     forward_to_host cid (\<lambda>mid. EvBootstrapApplied mid ep bid seq con) st"
| "handle_body W rnd cid (ReqEnterMatch mid ep bid con cli) st = enter_match cid mid ep bid con cli st"
| "handle_body W rnd cid (ReqAdmissionFailed mid ep why) st = admission_failed cid mid ep why st"
| "handle_body W rnd cid ReqVoteToSkip st = forward_to_host cid (\<lambda>mid. EvVoteToSkip mid) st"

record 'q HandleOutcome =
  ho_state :: "'q ServiceState"
  ho_response :: ControlResponse
  ho_publishes :: publishes

definition handle_request :: "'q world \<Rightarrow> (nat \<Rightarrow> array16) \<Rightarrow> u64 \<Rightarrow> ControlRequest \<Rightarrow> 'q ServiceState \<Rightarrow>
    'q ServiceState + 'q HandleOutcome" where
  "handle_request W rnd cid q st = (case handle_body W rnd cid (request_body q) st of
     Panic st' \<Rightarrow> Inl st'
   | Reply st' body pubs \<Rightarrow> Inr \<lparr> ho_state = st',
       ho_response = \<lparr> response_id = request_id q, response_body = body \<rparr>, ho_publishes = pubs \<rparr>)"

end
