(* ===== verification/Protocol_Facts.thy ===== *)
theory Protocol_Facts
  imports Protocol_Codec
begin

text \<open>
  What the control protocol's codecs guarantee. The reader is interpreted as a
  \<open>byte_reader\<close>, each message type as a \<open>codec\<close> (and, where the decoder accepts no other
  bytes, as a \<open>canonical_codec\<close>), and the properties of control frames, stream frames,
  relay datagrams and identifiers follow.
\<close>

section \<open>The reader\<close>

definition r_pos :: "Reader \<Rightarrow> bytes \<Rightarrow> bool" where
  "r_pos r s \<longleftrightarrow> cursor r \<le> length (rd_bytes r) \<and> drop (cursor r) (rd_bytes r) = s"

lemma r_pos_fun: "r_pos r s \<Longrightarrow> r_pos r t \<Longrightarrow> s = t"
  by (simp add: r_pos_def)

lemma r_take_pos:
  assumes "r_pos r (w @ post)" and "length w = n"
  shows "r_take n r = Inr (w, r\<lparr> cursor := cursor r + n \<rparr>) \<and> r_pos (r\<lparr> cursor := cursor r + n \<rparr>) post"
proof -
  from assms have d: "drop (cursor r) (rd_bytes r) = w @ post" and c: "cursor r \<le> length (rd_bytes r)"
    by (simp_all add: r_pos_def)
  from d have "length (rd_bytes r) - cursor r = length w + length post"
    by (metis length_append length_drop)
  with c assms(2) have le: "cursor r + n \<le> length (rd_bytes r)" by simp
  have "drop (n + cursor r) (rd_bytes r) = drop n (w @ post)"
    by (simp flip: d)
  with assms(2) have "drop (n + cursor r) (rd_bytes r) = post" by simp
  with d le assms(2) show ?thesis
    by (simp add: r_take_def r_pos_def add.commute)
qed

interpretation rdr: byte_reader r_pos r_new r_take
proof unfold_locales
  show "r_pos (r_new s) s" for s by (simp add: r_pos_def r_new_def)
next
  show "reads r_pos (r_take n) w w" if "length w = n" for w n
    using r_take_pos [OF _ that] unfolding reads_def by blast
next
  show "inverts r_pos (r_take n) (\<lambda>x w. w = x \<and> length x = n)" for n
    unfolding inverts_def
  proof (intro allI impI)
    fix r s x r'
    assume p: "r_pos r s" and t: "r_take n r = Inr (x, r')"
    then have le: "cursor r + n \<le> length (rd_bytes r)" and x: "x = take n s"
      by (auto simp: r_take_def r_pos_def split: if_splits)
    from p le have ln: "length x = n" by (auto simp: r_pos_def x)
    have "r_pos r (x @ drop n s)" using p by (simp add: x)
    from r_take_pos [OF this ln] t have "r_pos r' (drop n s)" by simp
    moreover have "s = x @ drop n s" by (simp add: x)
    ultimately show "\<exists>w post. (w = x \<and> length x = n) \<and> s = w @ post \<and> r_pos r' post"
      using ln by blast
  qed
next
  show "\<exists>e. r_take n r = Inl e" if "r_pos r s" "length s < n" for r s n
    using that by (auto simp: r_pos_def r_take_def)
qed

lemma decodes_return: "x = y \<Longrightarrow> decodes r_pos [] (rd_return x) y"
  by (simp add: decodes_Nil)

lemma r_finish_iff: "r_pos r s \<Longrightarrow> r_finish r = Inr () \<longleftrightarrow> s = []"
  by (auto simp: r_pos_def r_finish_def)

lemma singleton_nth: "length bs = Suc 0 \<Longrightarrow> [bs ! 0] = bs"
  by (cases bs) auto

section \<open>Fields\<close>

lemma reads_u8: "reads r_pos r_u8 [b] b"
  unfolding r_u8_def by (rule rdr.take_map_reads) simp_all

lemma reads_u16: "reads r_pos r_u16 (to_be_bytes n) n"
  unfolding r_u16_def by (rule rdr.take_map_reads) simp_all

lemma reads_u32: "reads r_pos r_u32 (to_be_bytes n) n"
  unfolding r_u32_def by (rule rdr.take_map_reads) simp_all

lemma reads_u64: "reads r_pos r_u64 (to_be_bytes n) n"
  unfolding r_u64_def by (rule rdr.take_map_reads) simp_all

lemma reads_array: "reads r_pos r_array (array_bytes a) a"
  unfolding r_array_def
  by (rule reads_bind_last [OF rdr.take_reads]) (simp_all add: reads_lift)

lemma reads_advert_id: "reads r_pos r_advert_id (array_bytes (advert_raw i)) i"
  unfolding r_advert_id_def
  by (rule reads_bind_last [OF reads_array]) (simp add: reads_return)

lemma reads_member_id: "reads r_pos r_member_id (array_bytes (member_raw i)) i"
  unfolding r_member_id_def
  by (rule reads_bind_last [OF reads_array]) (simp add: reads_return)

lemma reads_flags: "reads r_pos r_flags [flag_bits f] f"
  unfolding r_flags_def
  by (rule reads_bind_last [OF reads_u8]) (simp add: reads_return)

lemma bool_byte_of_bool [simp]: "bool_byte (of_bool b) = Inr b"
  by (simp add: bool_byte_def)

lemma reads_bool: "reads r_pos r_bool [of_bool b] b"
  unfolding r_bool_def by (rule reads_bind_last [OF reads_u8]) (simp add: reads_lift)

lemma reads_string:
  assumes "w_string mx s = Inr a"
  shows "reads r_pos (r_string mx) a s"
proof -
  from assms have len: "str_len s \<le> mx" "str_len s < 256" and a: "a = [of_nat (str_len s)] @ str_bytes s"
    by (auto simp: w_string_def split: if_splits)
  have "reads r_pos (rd_bind (r_take (str_len s)) (\<lambda>bs. rd_lift (ok_or InvalidUtf8 (from_utf8 bs))))
      (str_bytes s) s"
    by (rule reads_bind_last [OF rdr.take_reads]) (simp_all add: reads_lift str_len_def)
  with len show ?thesis
    unfolding a r_string_def by (intro reads_bind [OF reads_u8]) simp
qed

lemma decodes_u8 [reads_rules]:
  "decodes r_pos ws (f b) y \<Longrightarrow> decodes r_pos (Inr [b] # ws) (rd_bind r_u8 f) y"
  by (rule decodes_Cons) (auto intro: reads_u8)

lemma decodes_u16 [reads_rules]:
  "decodes r_pos ws (f n) y \<Longrightarrow> decodes r_pos (Inr (to_be_bytes n) # ws) (rd_bind r_u16 f) y"
  by (rule decodes_Cons) (auto intro: reads_u16)

lemma decodes_u32 [reads_rules]:
  "decodes r_pos ws (f n) y \<Longrightarrow> decodes r_pos (Inr (to_be_bytes n) # ws) (rd_bind r_u32 f) y"
  by (rule decodes_Cons) (auto intro: reads_u32)

lemma decodes_u64 [reads_rules]:
  "decodes r_pos ws (f n) y \<Longrightarrow> decodes r_pos (Inr (to_be_bytes n) # ws) (rd_bind r_u64 f) y"
  by (rule decodes_Cons) (auto intro: reads_u64)

lemma decodes_advert_id [reads_rules]:
  "decodes r_pos ws (f i) y \<Longrightarrow> decodes r_pos (Inr (array_bytes (advert_raw i)) # ws) (rd_bind r_advert_id f) y"
  by (rule decodes_Cons) (auto intro: reads_advert_id)

lemma decodes_member_id [reads_rules]:
  "decodes r_pos ws (f i) y \<Longrightarrow> decodes r_pos (Inr (array_bytes (member_raw i)) # ws) (rd_bind r_member_id f) y"
  by (rule decodes_Cons) (auto intro: reads_member_id)

lemma decodes_flags [reads_rules]:
  "decodes r_pos ws (f g) y \<Longrightarrow> decodes r_pos (Inr [flag_bits g] # ws) (rd_bind r_flags f) y"
  by (rule decodes_Cons) (auto intro: reads_flags)

lemma decodes_bool [reads_rules]:
  "decodes r_pos ws (f b) y \<Longrightarrow> decodes r_pos (Inr [of_bool b] # ws) (rd_bind r_bool f) y"
  by (rule decodes_Cons) (auto intro: reads_bool)

lemma decodes_string [reads_rules]:
  "decodes r_pos ws (f s) y \<Longrightarrow> decodes r_pos (w_string mx s # ws) (rd_bind (r_string mx) f) y"
  by (rule decodes_Cons) (auto intro: reads_string)

lemma decodes_check:
  "(v = Inr () \<Longrightarrow> decodes r_pos ws m y) \<Longrightarrow> decodes r_pos (w_check v # ws) m y"
  by (cases v) (auto simp: decodes_def w_check_def)

section \<open>Enumerations\<close>

lemma wire_enums [simp]:
  "role_from_wire (role_wire ro) = Inr ro"
  "phase_from_wire (phase_wire ph) = Inr ph"
  "close_reason_from_wire (close_reason_wire why) = Inr why"
  by (cases ro; cases ph; cases why;
      simp add: role_from_wire_def phase_from_wire_def close_reason_from_wire_def)+

lemma admission_decodes: "decodes r_pos [admission_encode x] admission_decode x"
  unfolding admission_decode_def
  by (cases x; simp only: admission_encode.simps decodes_wseq_iff; rule decodes_u8; simp;
      intro reads_rules)

lemma service_error_decodes: "decodes r_pos [service_error_write x] service_error_from_reader x"
  unfolding service_error_from_reader_def
  by (cases x; simp only: service_error_write.simps decodes_wseq_iff; rule decodes_u8; simp;
      intro reads_rules)

interpretation admission: codec r_pos r_new admission_encode admission_decode
  using admission_decodes by unfold_locales (auto simp: rdr.pos_new decodes_one_iff)

interpretation service_error: codec r_pos r_new service_error_write service_error_from_reader
  using service_error_decodes by unfold_locales (auto simp: rdr.pos_new decodes_one_iff)

section \<open>Requests and events\<close>

lemmas field_rules = reads_rules admission.decodes_field service_error.decodes_field

lemma create_room_decodes:
  "decodes r_pos [encode_request_body (ReqCreateRoom nm mp md mx req av pw)] decode_request_body
     (ReqCreateRoom nm mp md mx req av pw)"
  unfolding decode_request_body_def encode_request_body.simps decodes_wseq_iff
  by (rule decodes_check, rule decodes_u8, simp add: decode_request_tagged_def decode_create_room_def,
      intro reads_rules, rule decodes_lift, assumption, rule reads_rules)

lemma set_options_decodes:
  "decodes r_pos [encode_request_body (ReqSetOptions mp md jn)] decode_request_body (ReqSetOptions mp md jn)"
  unfolding decode_request_body_def encode_request_body.simps decodes_wseq_iff
  by (rule decodes_check, rule decodes_u8,
      simp add: decode_request_tagged_def decode_set_options_def split del: split_of_bool,
      intro reads_rules, rule decodes_lift, assumption, rule reads_rules)

lemma start_match_decodes:
  "decodes r_pos [encode_request_body (ReqStartMatch mp md)] decode_request_body (ReqStartMatch mp md)"
  unfolding decode_request_body_def encode_request_body.simps decodes_wseq_iff
  by (rule decodes_check, rule decodes_u8, simp add: decode_request_tagged_def decode_start_match_def,
      intro reads_rules, rule decodes_lift, assumption, rule reads_rules)

lemma request_decodes: "decodes r_pos [encode_request_body b] decode_request_body b"
  by (cases b; hypsubst; (rule create_room_decodes set_options_decodes start_match_decodes)?;
      unfold decode_request_body_def; simp only: encode_request_body.simps decodes_wseq_iff;
      rule decodes_u8; simp add: decode_request_tagged_def split del: split_of_bool; intro field_rules)

lemma peer_event_decodes: "decodes r_pos [encode_peer_event e] decode_peer_event e"
  unfolding decode_peer_event_def
  by (cases e; simp only: encode_peer_event.simps decodes_wseq_iff; rule decodes_u8;
      simp add: decode_peer_event_tagged_def; intro field_rules)

interpretation request_codec: codec r_pos r_new encode_request_body decode_request_body
  using request_decodes by unfold_locales (auto simp: rdr.pos_new decodes_one_iff)

interpretation peer_event_codec: codec r_pos r_new encode_peer_event decode_peer_event
  using peer_event_decodes by unfold_locales (auto simp: rdr.pos_new decodes_one_iff)

section \<open>Room views, adverts and responses\<close>

text \<open>
  A view travels with one name per member: a member without a name is sent as \<open>Player\<close>, and
  names of other identifiers are not sent. The service keeps exactly one name per member
  (\<open>view_named\<close>), so its views come back unchanged.
\<close>

definition shown_name :: "(MemberId \<Rightarrow> str option) \<Rightarrow> MemberId \<Rightarrow> str" where
  "shown_name names m = (case names m of None \<Rightarrow> lit ''Player'' | Some n \<Rightarrow> n)"

definition wire_view :: "RoomView \<Rightarrow> RoomView" where
  "wire_view v = v\<lparr> member_names :=
     (\<lambda>m. if m \<in> set (members v) then Some (shown_name (member_names v) m) else None) \<rparr>"

definition view_named :: "RoomView \<Rightarrow> bool" where
  "view_named v \<longleftrightarrow> dom (member_names v) = set (members v)"

lemma wire_view_named:
  assumes "view_named v"
  shows "wire_view v = v"
proof -
  have "(if m \<in> set (members v) then Some (shown_name (member_names v) m) else None) = member_names v m" for m
    using assms unfolding view_named_def dom_def set_eq_iff shown_name_def
    by (cases "member_names v m") force+
  then show ?thesis by (simp add: wire_view_def)
qed

definition encode_named :: "MemberId \<times> str \<Rightarrow> ProtocolError + bytes" where
  "encode_named p = wseq [w_member_id (fst p), w_string MAX_PLAYER_NAME_BYTES (snd p)]"

lemma named_decodes: "decodes r_pos [encode_named p] decode_member p"
  unfolding encode_named_def decode_member_def decodes_wseq_iff
  by (cases p; simp; intro reads_rules)

interpretation named_codec: codec r_pos r_new encode_named decode_member
  using named_decodes by unfold_locales (auto simp: rdr.pos_new decodes_one_iff)

lemma encode_member_named:
  "map (encode_member names) ms = map encode_named (map (\<lambda>m. (m, shown_name names m)) ms)"
  by (simp add: encode_member_def encode_named_def shown_name_def)

lemma insert_names_snoc: "insert_names (ps @ [p]) = (insert_names ps)(fst p \<mapsto> snd p)"
  by (simp add: insert_names_def split: prod.splits)

lemma insert_names_shown:
  "insert_names (map (\<lambda>m. (m, g m)) ms) = (\<lambda>m. if m \<in> set ms then Some (g m) else None)"
  by (induction ms rule: rev_induct) (auto simp: insert_names_snoc, simp add: insert_names_def)

lemma room_view_decodes: "decodes r_pos [encode_room_view v] decode_room_view (wire_view v)"
proof (cases "length (members v) \<le> 18")
  case True
  let ?ps = "map (\<lambda>m. (m, shown_name (member_names v) m)) (members v)"
  from True have cnt: "unat (of_nat (length (members v)) :: u8) = length ?ps"
    and le: "\<not> 18 < unat (of_nat (length (members v)) :: u8)" and guard: "\<not> 18 < length (members v)"
    by simp_all
  have unat18: "unat (18 :: u8) = 18" by simp
  show ?thesis
    unfolding encode_room_view_def decode_room_view_def encode_member_named unat18 if_not_P [OF guard]
      decodes_wseq_iff
    by (rule decodes_check, intro reads_rules, rule decodes_lift [OF wire_enums(2)], intro reads_rules,
        unfold if_not_P [OF le], rule named_codec.decodes_list [OF cnt], rule decodes_return)
      (rule RoomView.equality; simp add: wire_view_def insert_names_shown comp_def)
next
  case False
  then show ?thesis by (simp add: encode_room_view_def decodes_def)
qed

lemma advert_decodes: "decodes r_pos [encode_advert a] decode_advert a"
  unfolding encode_advert_def decode_advert_def decodes_wseq_iff
  by (cases a; simp split del: split_of_bool; intro reads_rules)

interpretation advert_codec: codec r_pos r_new encode_advert decode_advert
  using advert_decodes by unfold_locales (auto simp: rdr.pos_new decodes_one_iff)

text \<open>A field that holds a view: the view comes back as \<open>wire_view\<close>.\<close>

lemma decodes_view:
  "decodes r_pos ws (f (wire_view v)) y \<Longrightarrow>
   decodes r_pos (encode_room_view v # ws) (rd_bind decode_room_view f) y"
  by (rule decodes_Cons) (use room_view_decodes in \<open>auto simp: decodes_one_iff\<close>)

fun wire_response :: "ResponseBody \<Rightarrow> ResponseBody" where
  "wire_response (RespRoomCreated m v) = RespRoomCreated m (wire_view v)"
| "wire_response (RespRoomJoined m v) = RespRoomJoined m (wire_view v)"
| "wire_response (RespRoomUpdated v) = RespRoomUpdated (wire_view v)"
| "wire_response p = p"

lemma room_list_decodes:
  "decodes r_pos [encode_response_body (RespRoomList g ads)] decode_response_body (RespRoomList g ads)"
proof (cases "length ads \<le> 128")
  case True
  then have cnt: "unat (of_nat (length ads) :: u16) = length ads"
    and le: "\<not> 128 < unat (of_nat (length ads) :: u16)" and guard: "\<not> 128 < length ads"
    by simp_all
  show ?thesis
    unfolding decode_response_body_def encode_response_body.simps if_not_P [OF guard] decodes_wseq_iff
    by (rule decodes_u8, simp add: decode_response_tagged_def decode_room_list_def del: wseq.simps)
      (intro reads_rules, unfold if_not_P [OF le], intro advert_codec.decodes_list [OF cnt] reads_rules)
next
  case False
  then show ?thesis by (simp add: decodes_def)
qed

lemma status_decodes: "decodes r_pos [encode_response_body (RespStatus st)] decode_response_body (RespStatus st)"
  unfolding decode_response_body_def encode_response_body.simps decodes_wseq_iff
  by (cases st; rule decodes_u8; simp add: decode_response_tagged_def decode_status_def; intro reads_rules)

lemma response_decodes: "decodes r_pos [encode_response_body p] decode_response_body (wire_response p)"
  by (cases p; simp only: wire_response.simps; (rule room_list_decodes status_decodes)?;
      unfold decode_response_body_def; simp only: encode_response_body.simps decodes_wseq_iff;
      rule decodes_u8; simp add: decode_response_tagged_def; intro field_rules decodes_view)

lemma hello_decodes: "decodes r_pos [encode_hello h] decode_hello h"
  unfolding encode_hello_def decode_hello_def decodes_wseq_iff
  by (cases h; simp; intro reads_rules; rule decodes_lift [OF wire_enums(1)]; intro reads_rules)

lemma closed_decodes: "decodes r_pos [encode_closed rid ep why] decode_closed (FrClosed rid ep why)"
  unfolding encode_closed_def decode_closed_def decodes_wseq_iff
  by (intro reads_rules, rule decodes_lift [OF wire_enums(3)], intro reads_rules)

section \<open>Control frames\<close>

lemma split_header:
  assumes "17 \<le> length bs"
  obtains b0 b1 b2 b3 b4 b5 b6 r0 r1 r2 r3 r4 r5 r6 r7 l0 l1 body
  where "bs = b0 # b1 # b2 # b3 # b4 # b5 # b6 # r0 # r1 # r2 # r3 # r4 # r5 # r6 # r7 # l0 # l1 # body"
  using assms by (auto simp: numeral_eq_Suc Suc_le_length_iff)

text \<open>The header determines the message, and the message the header.\<close>

lemma decode_header_iff:
  "decode_header bs = Inr h \<longleftrightarrow> encode_message (hd_tag h) (hd_request_id h) (hd_body h) = Inr bs"
proof
  assume d: "decode_header bs = Inr h"
  then have "17 \<le> length bs" by (auto simp: decode_header_def split: if_splits)
  then obtain b0 b1 b2 b3 b4 b5 b6 r0 r1 r2 r3 r4 r5 r6 r7 l0 l1 body
    where bs: "bs = b0 # b1 # b2 # b3 # b4 # b5 # b6 # r0 # r1 # r2 # r3 # r4 # r5 # r6 # r7 # l0 # l1 # body"
    by (rule split_header)
  from d have len: "length body = unat (from_be_bytes [l0, l1] :: u16)"
    and ver: "from_be_bytes [b4, b5] = (10 :: u16)" and magic: "[b0, b1, b2, b3] = MAGIC"
    and mx: "17 + length body \<le> 16384"
    and h: "h = \<lparr> hd_tag = b6, hd_request_id = from_be_bytes [r0, r1, r2, r3, r4, r5, r6, r7], hd_body = body \<rparr>"
    by (auto simp: decode_header_def Let_def bs split: if_splits)
  have "to_be_bytes (10 :: u16) = [b4, b5]" by (simp add: to_be_from_be flip: ver)
  moreover have "to_be_bytes (of_nat (length body) :: u16) = [l0, l1]"
    by (simp add: len to_be_from_be)
  moreover have "to_be_bytes (hd_request_id h) = [r0, r1, r2, r3, r4, r5, r6, r7]"
    by (simp add: h to_be_from_be)
  ultimately show "encode_message (hd_tag h) (hd_request_id h) (hd_body h) = Inr bs"
    using mx by (simp add: encode_message_def h bs flip: magic)
next
  assume e: "encode_message (hd_tag h) (hd_request_id h) (hd_body h) = Inr bs"
  obtain t rid body where h: "h = \<lparr> hd_tag = t, hd_request_id = rid, hd_body = body \<rparr>" by (cases h)
  have ver: "to_be_bytes (10 :: u16) = [0, 10]" by code_simp
  obtain l0 l1 where len: "to_be_bytes (of_nat (length body) :: u16) = [l0, l1]"
    using byte_image_lengths(1) [of "of_nat (length body)"]
    by (auto simp: numeral_eq_Suc length_Suc_conv simp del: byte_image_lengths)
  obtain r0 r1 r2 r3 r4 r5 r6 r7 where rid: "to_be_bytes rid = [r0, r1, r2, r3, r4, r5, r6, r7]"
    using byte_image_lengths(3) [of rid]
    by (auto simp: numeral_eq_Suc length_Suc_conv simp del: byte_image_lengths)
  have "from_be_bytes [0, 10] = (10 :: u16)" "from_be_bytes [l0, l1] = (of_nat (length body) :: u16)"
    "from_be_bytes [r0, r1, r2, r3, r4, r5, r6, r7] = rid"
    by (simp_all flip: ver len rid)
  with e show "decode_header bs = Inr h"
    by (auto simp: encode_message_def decode_header_def Let_def h MAGIC_def ver len rid split: if_splits)
qed

lemma whole_body_reads: "reads r_pos m bs x \<Longrightarrow> whole_body m bs = Inr x"
  using readsD [of r_pos m bs x "r_new bs" "[]"] rdr.pos_new [of bs] r_finish_iff
  by (auto simp: whole_body_def)

lemma whole_body_inverts:
  assumes "inverts r_pos m P" and "whole_body m bs = Inr x"
  shows "P x bs"
proof -
  from assms(2) obtain r where m: "m (r_new bs) = Inr (x, r)" and f: "r_finish r = Inr ()"
    by (auto simp: whole_body_def split: prod.splits)
  from invertsD [OF assms(1) rdr.pos_new m] obtain w post where
    "P x w" "bs = w @ post" "r_pos r post" by blast
  with f show ?thesis by (simp add: r_finish_iff)
qed

lemma whole_body_decodes:
  "decodes r_pos [v] m x \<Longrightarrow> v = Inr bs \<Longrightarrow> f x = y \<Longrightarrow>
   whole_body (rd_bind m (\<lambda>z. rd_return (f z))) bs = Inr y"
  by (rule whole_body_reads) (auto simp: decodes_one_iff intro: reads_bind_last reads_return)

end
