(* ===== verification/Protocol_Properties.thy ===== *)
theory Protocol_Properties
  imports Protocol_Facts
begin

text \<open>
  The properties of the control protocol: every frame that encodes decodes to itself, a
  request is accepted exactly in its own encoding, stream frames announce their length,
  relay datagrams are exactly their encodings, and identifiers survive their text form.
  The second half of each codec, that the decoder accepts nothing but encodings, is proved
  here for requests by matching the reads of the decoder with the writes of the encoder.
\<close>

section \<open>Reading nothing else\<close>

lemma inverts_u8: "inverts r_pos r_u8 (\<lambda>x w. w = [x])"
  unfolding r_u8_def
  by (rule inverts_mono [OF rdr.take_map_inverts [of 1 "\<lambda>x. [x]"]]) (auto simp: singleton_nth)

lemma inverts_u16: "inverts r_pos r_u16 (\<lambda>x w. w = to_be_bytes x)"
  unfolding r_u16_def
  by (rule inverts_mono [OF rdr.take_map_inverts [of 2 to_be_bytes]]) (auto simp: to_be_from_be)

lemma inverts_u32: "inverts r_pos r_u32 (\<lambda>x w. w = to_be_bytes x)"
  unfolding r_u32_def
  by (rule inverts_mono [OF rdr.take_map_inverts [of 4 to_be_bytes]]) (auto simp: to_be_from_be)

lemma inverts_u64: "inverts r_pos r_u64 (\<lambda>x w. w = to_be_bytes x)"
  unfolding r_u64_def
  by (rule inverts_mono [OF rdr.take_map_inverts [of 8 to_be_bytes]]) (auto simp: to_be_from_be)

lemma inverts_array: "inverts r_pos r_array (\<lambda>x w. w = array_bytes x)"
  unfolding r_array_def
  by (rule inverts_mono [OF inverts_bind [OF rdr.take_inverts inverts_lift]]) auto

lemma inverts_advert_id: "inverts r_pos r_advert_id (\<lambda>x w. w = array_bytes (advert_raw x))"
  unfolding r_advert_id_def by (rule inverts_mono [OF inverts_bind [OF inverts_array inverts_return]]) auto

lemma inverts_member_id: "inverts r_pos r_member_id (\<lambda>x w. w = array_bytes (member_raw x))"
  unfolding r_member_id_def by (rule inverts_mono [OF inverts_bind [OF inverts_array inverts_return]]) auto

lemma inverts_flags: "inverts r_pos r_flags (\<lambda>x w. w = [flag_bits x])"
  unfolding r_flags_def by (rule inverts_mono [OF inverts_bind [OF inverts_u8 inverts_return]]) auto

lemma bool_byte_Inr_iff: "bool_byte v = Inr b \<longleftrightarrow> v = of_bool b"
  by (auto simp: bool_byte_def)

lemma inverts_bool: "inverts r_pos r_bool (\<lambda>x w. w = [of_bool x])"
  unfolding r_bool_def
  by (rule inverts_mono [OF inverts_bind [OF inverts_u8 inverts_lift]])
    (auto simp: bool_byte_Inr_iff simp del: of_bool_eq split del: split_of_bool)

lemma inverts_string: "inverts r_pos (r_string mx) (\<lambda>x w. w_string mx x = Inr w)"
  unfolding r_string_def
proof (rule inverts_mono [OF inverts_bind [OF inverts_u8 inverts_if [OF inverts_error
      inverts_bind [OF rdr.take_inverts inverts_lift]]]])
  fix s w
  assume "\<exists>n a b. a = [n] \<and> (mx < unat n \<and> False \<or> \<not> mx < unat n \<and>
    (\<exists>x a' b'. (a' = x \<and> length x = unat n) \<and> (ok_or InvalidUtf8 (from_utf8 x) = Inr s \<and> b' = []) \<and> b = a' @ b'))
    \<and> w = a @ b"
  then obtain n :: u8 where le: "unat n \<le> mx" and len: "str_len s = unat n" and w: "w = n # str_bytes s"
    by (auto simp: from_utf8_Some_iff str_len_def)
  have "unat n < 2 ^ LENGTH(8)" by (rule unsigned_less)
  with le len w show "w_string mx s = Inr w" by (simp add: w_string_def)
qed

lemmas field_inverts = inverts_u8 inverts_u16 inverts_u32 inverts_u64 inverts_advert_id inverts_member_id
  inverts_flags inverts_bool inverts_string inverts_return inverts_lift inverts_bind

lemma admission_inverts: "inverts r_pos admission_decode (\<lambda>x w. admission_encode x = Inr w)"
  unfolding admission_decode_def
  by (rule inverts_mono, rule inverts_bind, rule inverts_u8, ((rule inverts_if)+, (rule field_inverts)+)+)
    auto

lemma request_tagged_inverts:
  "inverts r_pos (decode_request_tagged t) (\<lambda>x w. encode_request_body x = Inr (t # w))"
  unfolding decode_request_tagged_def decode_create_room_def decode_set_options_def decode_start_match_def
  by (intro inverts_ifI inverts_error)
    (hypsubst, rule inverts_mono, (rule field_inverts admission_inverts)+,
     auto simp: w_check_def simp del: of_bool_eq split del: split_of_bool; fail)+

lemma request_inverts: "inverts r_pos decode_request_body (\<lambda>x w. encode_request_body x = Inr w)"
  unfolding decode_request_body_def
  by (rule inverts_mono [OF inverts_bind [OF inverts_u8 request_tagged_inverts]]) auto

interpretation canonical_request: canonical_codec r_pos r_new encode_request_body decode_request_body
  using request_inverts by unfold_locales (auto dest: r_pos_fun)

section \<open>Frames\<close>

fun response_named :: "ResponseBody \<Rightarrow> bool" where
  "response_named (RespRoomCreated m v) = view_named v"
| "response_named (RespRoomJoined m v) = view_named v"
| "response_named (RespRoomUpdated v) = view_named v"
| "response_named p = True"

text \<open>Every room view in the frame has a name for each member and for no one else.\<close>

fun frame_named :: "ControlFrame \<Rightarrow> bool" where
  "frame_named (FrResponse p) = response_named (response_body p)"
| "frame_named (FrRoomView v) = view_named v"
| "frame_named f = True"

lemma wire_response_named: "response_named p \<Longrightarrow> wire_response p = p"
  by (cases p) (auto simp: wire_view_named)

lemma decode_header_message:
  "encode_message t rid body = Inr bs \<Longrightarrow>
   decode_header bs = Inr \<lparr> hd_tag = t, hd_request_id = rid, hd_body = body \<rparr>"
  by (simp add: decode_header_iff)

lemma frame_decodes:
  assumes "encode_control_frame f = Inr bs" and "frame_named f"
  shows "decode_control_frame bs = Inr f"
proof (cases f)
  case (FrRelay p)
  with assms show ?thesis
    by (auto simp: decode_control_frame_def dest!: decode_header_message split: if_splits)
next
  case (FrClosed rid ep why)
  with assms closed_decodes [of rid ep why] show ?thesis
    by (auto simp: decode_control_frame_def decodes_one_iff dest!: decode_header_message intro: whole_body_reads)
qed (use assms in \<open>auto simp: decode_control_frame_def dest!: decode_header_message
      intro!: whole_body_decodes hello_decodes request_decodes response_decodes room_view_decodes
        peer_event_decodes simp: wire_response_named wire_view_named\<close>)

lemma encode_message_length:
  "encode_message t rid body = Inr bs \<Longrightarrow> 17 \<le> length bs \<and> length bs \<le> 16384"
  by (auto simp: encode_message_def MAGIC_def split: if_splits)

lemma control_frame_length:
  "encode_control_frame f = Inr bs \<Longrightarrow> 17 \<le> length bs \<and> length bs \<le> 16384"
  by (cases f) (auto split: if_splits dest: encode_message_length)

text \<open>A view of a room with two members, for the examples below.\<close>

definition sample_member :: "u8 \<Rightarrow> MemberId" where
  "sample_member b = MemberId (array_of (replicate 16 b))"

definition sample_view :: RoomView where
  "sample_view = \<lparr> room_id = AdvertId (array_of (replicate 16 9)), rv_name = lit ''Favela'',
     host = sample_member 1, members = [sample_member 1, sample_member 2],
     member_names = [sample_member 1 \<mapsto> lit ''Ana'', sample_member 2 \<mapsto> lit ''Bo''],
     rv_map = lit ''mp_favela'', rv_mode = lit ''war'', joinable = True, revision = 4, epoch = 2,
     phase = Loading, max_players = 6, requires = ContentFlags 1, available = ContentFlags 3,
     password_protected = False \<rparr>"

text \<open>
  C1. Whatever control frame the encoder accepts, the decoder returns: requests, responses,
  room views with one name per member, events, closings, hellos and relayed packets all
  survive the wire.
\<close>

theorem control_frame_roundtrip:
  assumes "encode_control_frame f = Inr bs" and "frame_named f"
  shows "decode_control_frame bs = Inr f"
  using assms by (rule frame_decodes)

theorem control_frame_roundtrip_witness:
  "\<exists>bs. encode_control_frame (FrRoomView sample_view) = Inr bs \<and>
     decode_control_frame bs = Inr (FrRoomView sample_view)"
proof -
  have "\<not> isl (encode_control_frame (FrRoomView sample_view))" by code_simp
  then obtain bs where bs: "encode_control_frame (FrRoomView sample_view) = Inr bs"
    by (cases "encode_control_frame (FrRoomView sample_view)") auto
  have "frame_named (FrRoomView sample_view)"
    by (auto simp: view_named_def sample_view_def)
  from control_frame_roundtrip [OF bs this] bs show ?thesis by blast
qed

lemma decode_request_iff: "decode_request bs = Inr q \<longleftrightarrow> encode_request q = Inr bs"
proof
  assume "decode_request bs = Inr q"
  then obtain f where "decode_control_frame bs = Inr f" "(case f of FrRequest q \<Rightarrow> Inr q | _ \<Rightarrow> Inl InvalidBody) = Inr q"
    by (auto simp: decode_request_def)
  then have "decode_control_frame bs = Inr (FrRequest q)" by (cases f) auto
  then obtain h where h: "decode_header bs = Inr h" and tag: "hd_tag h = 1"
    and w: "whole_body (rd_bind decode_request_body (\<lambda>b. rd_return
         (FrRequest \<lparr> request_id = hd_request_id h, request_body = b \<rparr>))) (hd_body h) = Inr (FrRequest q)"
    by (auto simp: decode_control_frame_def Let_def whole_body_def decode_closed_def rd_bind_Inr_iff
        split: if_splits prod.splits)
  from whole_body_inverts [OF inverts_bind [OF request_inverts inverts_return] w]
  have "encode_request_body (request_body q) = Inr (hd_body h)" "request_id q = hd_request_id h" by auto
  with h tag show "encode_request q = Inr bs" by (simp add: encode_request_def decode_header_iff)
next
  assume "encode_request q = Inr bs"
  then show "decode_request bs = Inr q"
    using frame_decodes [of "FrRequest q" bs] by (simp add: encode_request_def decode_request_def)
qed

text \<open>
  C4. A request is accepted exactly in the bytes its encoder produces: there is no second
  encoding of a request, no trailing byte and no unchecked field.
\<close>

theorem request_canonical: "decode_request bs = Inr q \<longleftrightarrow> encode_request q = Inr bs"
  by (rule decode_request_iff)

text \<open>What the service may assume of a request that decoded.\<close>

fun valid_request :: "RequestBody \<Rightarrow> bool" where
  "valid_request (ReqCreateRoom nm mp md mx req av pw) \<longleftrightarrow>
     validate_advert nm mp md mx = Inr () \<and> str_len pw \<le> MAX_PASSWORD_BYTES"
| "valid_request (ReqJoinRoom rid hv pw) \<longleftrightarrow> str_len pw \<le> MAX_PASSWORD_BYTES"
| "valid_request (ReqSetPassword pw) \<longleftrightarrow> str_len pw \<le> MAX_PASSWORD_BYTES"
| "valid_request (ReqSetOptions mp md jn) \<longleftrightarrow> validate_map_mode mp md = Inr ()"
| "valid_request (ReqStartMatch mp md) \<longleftrightarrow> validate_map_mode mp md = Inr ()"
| "valid_request _ \<longleftrightarrow> True"

lemma w_string_Inr_iff:
  "w_string mx s = Inr w \<longleftrightarrow> str_len s \<le> mx \<and> str_len s \<le> 255 \<and> w = of_nat (str_len s) # str_bytes s"
  by (auto simp: w_string_def)

lemma w_check_Inr_iff [simp]: "w_check v = Inr w \<longleftrightarrow> v = Inr () \<and> w = []"
  by (auto simp: w_check_def)

lemma encoded_request_valid: "encode_request_body b = Inr w \<Longrightarrow> valid_request b"
  by (cases b) (auto simp: w_string_Inr_iff)

text \<open>
  Every request the service decodes is valid: a room has a name, a map and a mode of
  bounded length and between 2 and 18 seats, and a password has at most 64 bytes.
\<close>

lemma decoded_request_valid: "decode_request bs = Inr q \<Longrightarrow> valid_request (request_body q)"
  by (auto simp: decode_request_iff encode_request_def dest: encoded_request_valid)

text \<open>
  On a stream, a frame is sent as its length in four bytes and then its bytes; the length
  announced is the one the reader accepts, and the payload of that length decodes to the
  frame.
\<close>

lemma stream_frame_roundtrip:
  assumes "encode_stream_frame f = Inr bs" and "frame_named f"
  shows "stream_frame_len (take 4 bs) = Inr (length (drop 4 bs)) \<and> decode_stream_payload (drop 4 bs) = Inr f"
proof -
  from assms(1) obtain inner where i: "encode_control_frame f = Inr inner"
    and bs: "bs = to_be_bytes (of_nat (length inner) :: u32) @ inner"
    by (auto simp: encode_stream_frame_def split: if_splits)
  from control_frame_length [OF i] frame_decodes [OF i assms(2)] show ?thesis
    by (auto simp: bs stream_frame_len_def decode_stream_payload_def Let_def)
qed

section \<open>Relay datagrams\<close>

lemma encode_relay_decodes:
  "encode_relay_bounded d mx = Inr bs \<Longrightarrow> decode_relay_bounded bs mx = Inr d"
  by (cases d) (auto simp: encode_relay_bounded_def decode_relay_bounded_def Let_def split: if_splits)

lemma decode_relay_encodes:
  assumes "decode_relay_bounded bs mx = Inr d"
  shows "encode_relay_bounded d mx = Inr bs"
proof -
  from assms have "2 \<le> length bs" by (auto simp: decode_relay_bounded_def split: if_splits)
  then obtain v t tl where bs: "bs = v # t # tl" by (auto simp: numeral_2_eq_2 Suc_le_length_iff)
  have member: "take 16 tl @ drop 16 tl = tl" by simp
  from assms show ?thesis
    by (auto simp: bs decode_relay_bounded_def encode_relay_bounded_def Let_def split: if_splits
        simp del: append_take_drop_id simp: member)
qed

text \<open>
  A relay datagram is accepted exactly in its own encoding, under the same payload bound
  on both sides.
\<close>

lemma relay_canonical:
  "decode_relay_bounded bs mx = Inr d \<longleftrightarrow> encode_relay_bounded d mx = Inr bs"
  using encode_relay_decodes decode_relay_encodes by blast

section \<open>Identifiers\<close>

lemma hex_digits:
  assumes "n < 16"
  shows "hex_value (hex_digit n) = Some n \<and> hex_digit n \<noteq> 0x2B \<and> hex_digit n < 0x80 \<and> \<not> cont_byte (hex_digit n)"
proof -
  have "\<forall>n \<in> set [0..<16]. hex_value (hex_digit n) = Some n \<and> hex_digit n \<noteq> 0x2B \<and> hex_digit n < 0x80
      \<and> \<not> cont_byte (hex_digit n)"
    by code_simp
  with assms show ?thesis by simp
qed

lemma nibbles: "unat (b :: u8) div 16 < 16" "unat b mod 16 < 16"
  using unsigned_less [of b, where 'a = nat] by (simp_all add: less_mult_imp_div_less)

lemma radix16_byte_02x:
  "u8_from_radix16 (hex_digit (unat b div 16)) (hex_digit (unat b mod 16)) = Some b"
  by (simp add: u8_from_radix16_def hex_digits nibbles)

lemma hex_text_nth:
  "i < length bs \<Longrightarrow> concat (map byte_02x bs) ! (i * 2) = hex_digit (unat (bs ! i) div 16)
     \<and> concat (map byte_02x bs) ! (i * 2 + 1) = hex_digit (unat (bs ! i) mod 16)"
proof (induction bs arbitrary: i)
  case (Cons b bs)
  then show ?case by (cases i) (auto simp: byte_02x_def)
qed simp

lemma length_hex_text [simp]: "length (concat (map byte_02x bs)) = length bs * 2"
  by (induction bs) (simp_all add: byte_02x_def)

lemma hex_text_ascii: "c \<in> set (concat (map byte_02x bs)) \<Longrightarrow> c < 0x80 \<and> \<not> cont_byte c"
  by (auto simp: byte_02x_def hex_digits nibbles)

lemma hex_text_boundary: "i \<le> length bs * 2 \<Longrightarrow> is_char_boundary (concat (map byte_02x bs)) i"
  using hex_text_ascii [of "concat (map byte_02x bs) ! i" bs]
  by (cases "i = length bs * 2") (auto simp: is_char_boundary_def simp del: set_concat intro: nth_mem)

lemma id_parse_hex_text:
  "index + n = length bs \<Longrightarrow> id_parse_from (concat (map byte_02x bs)) index n = Some (Inr (drop index bs))"
proof (induction n arbitrary: index)
  case (Suc n)
  then have i: "index < length bs" and IH: "id_parse_from (concat (map byte_02x bs)) (Suc index) n = Some (Inr (drop (Suc index) bs))"
    by simp_all
  have "bs ! index # drop (Suc index) bs = drop index bs" using i by (rule Cons_nth_drop_Suc)
  with i IH hex_text_nth [OF i] show ?case by (simp add: hex_text_boundary radix16_byte_02x)
qed simp

text \<open>
  An identifier printed as text parses back to itself, without a panic.
\<close>

lemma id_text_roundtrip: "id_from_str (id_display a) = Some (Inr a)"
proof -
  have "utf8 (concat (map byte_02x (array_bytes a)))"
    by (rule utf8_ascii) (use hex_text_ascii in blast)
  then have "str_bytes (id_display a) = concat (map byte_02x (array_bytes a))"
    by (simp add: id_display_def str_bytes_str_of)
  then show ?thesis by (simp add: id_from_str_def str_len_def id_parse_hex_text)
qed


end
