(* ===== verification/Service_Invariant.thy ===== *)
theory Service_Invariant
  imports Service_Requests Protocol_Properties
begin

text \<open>
  The invariant of the relay service and its preservation by the operations on the state.
  \<open>room_ok\<close> relates the view of a room to its two membership maps; \<open>state_ok\<close> relates the rooms
  to the membership table and the peers. Host operations change one room through its view
  only: that contract is the locale \<open>room_update\<close>, interpreted on each of them.
\<close>

declare map_of_eq_Some_iff [simp del]

section \<open>The invariant\<close>

definition name_ok :: "str \<Rightarrow> bool" where
  "name_ok n \<longleftrightarrow> 0 < str_len n \<and> str_len n \<le> MAX_PLAYER_NAME_BYTES"

definition view_ok :: "RoomView \<Rightarrow> bool" where
  "view_ok v \<longleftrightarrow> validate_advert (rv_name v) (rv_map v) (rv_mode v) (max_players v) = Inr ()
     \<and> map_content_allowed (rv_map v) (requires v)
     \<and> distinct (members v) \<and> host v \<in> set (members v) \<and> length (members v) \<le> unat (max_players v)
     \<and> dom (member_names v) = set (members v) \<and> (\<forall>n \<in> ran (member_names v). name_ok n)
     \<and> revision v \<noteq> 0 \<and> (in_match (phase v) \<longrightarrow> epoch v \<noteq> 0)"

definition room_ok :: "AdvertId \<Rightarrow> Room \<Rightarrow> bool" where
  "room_ok rid room \<longleftrightarrow> room_id (view room) = rid \<and> view_ok (view room)
     \<and> hm_ok (member_of room) \<and> hm_ok (connection_of room)
     \<and> inverse_maps (hm_get (member_of room)) (hm_get (connection_of room))
     \<and> dom (hm_get (connection_of room)) = set (members (view room))
     \<and> hm_get (member_of room) (host_connection_id room) = Some (host (view room))
     \<and> (password_protected (view room) \<longleftrightarrow> password room \<noteq> None)"

definition membership_ok :: "'q ServiceState \<Rightarrow> bool" where
  "membership_ok st \<longleftrightarrow> (\<forall>cid rid. hm_get (membership st) cid = Some rid \<longleftrightarrow>
     (\<exists>room. hm_get (rooms st) rid = Some room \<and> hm_contains (member_of room) cid))"

definition state_ok :: "'q ServiceState \<Rightarrow> bool" where
  "state_ok st \<longleftrightarrow> hm_ok (rooms st) \<and> hm_ok (peers st) \<and> hm_ok (membership st)
     \<and> (\<forall>rid room. hm_get (rooms st) rid = Some room \<longrightarrow> room_ok rid room)
     \<and> membership_ok st
     \<and> (\<forall>cid. hm_contains (membership st) cid \<longrightarrow> hm_contains (peers st) cid)
     \<and> (\<forall>cid peer. hm_get (peers st) cid = Some peer \<longrightarrow> name_ok (player_name peer))
     \<and> length (rooms st) \<le> MAX_ROOMS"

lemma state_okD:
  assumes "state_ok st"
  shows "hm_ok (rooms st)" "hm_ok (peers st)" "hm_ok (membership st)" "membership_ok st"
    "length (rooms st) \<le> MAX_ROOMS"
  using assms by (simp_all add: state_ok_def)

lemma membership_ok_unrelated [simp]:
  "membership_ok (st\<lparr> peers := ps \<rparr>) = membership_ok st" "membership_ok (st\<lparr> generation := g \<rparr>) = membership_ok st"
  by (simp_all add: membership_ok_def)

lemma state_ok_room: "state_ok st \<Longrightarrow> hm_get (rooms st) rid = Some room \<Longrightarrow> room_ok rid room"
  by (simp add: state_ok_def)

lemma state_ok_peer: "state_ok st \<Longrightarrow> hm_get (peers st) cid = Some peer \<Longrightarrow> name_ok (player_name peer)"
  by (simp add: state_ok_def)

text \<open>A connection in the membership table is a member of exactly that room.\<close>

lemma membership_peer:
  "state_ok st \<Longrightarrow> hm_get (membership st) cid = Some rid \<Longrightarrow> \<exists>peer. hm_get (peers st) cid = Some peer"
  by (auto simp: state_ok_def)

lemma membership_room:
  assumes "state_ok st" and "hm_get (membership st) cid = Some rid"
  obtains room mid where "hm_get (rooms st) rid = Some room" "room_ok rid room"
    "hm_get (member_of room) cid = Some mid"
  using assms unfolding state_ok_def membership_ok_def by blast

lemma member_membership:
  "state_ok st \<Longrightarrow> hm_get (rooms st) rid = Some room \<Longrightarrow> hm_get (member_of room) cid = Some mid \<Longrightarrow>
   hm_get (membership st) cid = Some rid"
  unfolding state_ok_def membership_ok_def by blast

lemma host_membership:
  "state_ok st \<Longrightarrow> hm_get (rooms st) rid = Some room \<Longrightarrow>
   hm_get (membership st) (host_connection_id room) = Some rid"
  by (rule member_membership) (auto simp: room_ok_def dest: state_ok_room)

lemma elsewhere_not_member:
  assumes "state_ok st" and "hm_get (rooms st) rid = Some room" and "hm_get (member_of room) cid = Some mid"
    and "rid' \<noteq> rid" and "hm_get (rooms st) rid' = Some room'"
  shows "hm_get (member_of room') cid = None"
  using member_membership [OF assms(1-3)] member_membership [OF assms(1,5)] assms(4)
  by (cases "hm_get (member_of room') cid") auto

lemma default_state_ok: "state_ok default_state"
  by (simp add: state_ok_def membership_ok_def default_state_def)

lemma bump_nonzero [simp]: "bump (n :: 'a::len word) \<noteq> 0"
proof
  assume "bump n = 0"
  then have "1 \<le> (0 :: 'a word)" unfolding bump_def by (metis max.cobounded2)
  then show False by simp
qed

lemma length_rooms_insert:
  "hm_ok m \<Longrightarrow> length (hm_insert k v m) = (if hm_contains m k then length m else Suc (length m))"
  using hm.length_keys [of m] hm.length_keys [of "hm_insert k v m"]
  by (auto simp: hm_simps card_insert_if finite_dom_map_of)

section \<open>Host operations\<close>

text \<open>
  An update of one room that keeps the room well formed and touches neither its connections
  nor its host. The service then stays well formed, and the handler that applies it cannot
  panic.
\<close>

locale room_update =
  fixes pre :: "Room \<Rightarrow> bool" and upd :: "Room \<Rightarrow> Room"
  assumes upd_ok: "room_ok rid room \<Longrightarrow> pre room \<Longrightarrow> room_ok rid (upd room)"
    and upd_members: "member_of (upd room) = member_of room"
begin

lemma put_ok:
  assumes "state_ok st" and "hm_get (rooms st) rid = Some room" and "pre room"
  shows "state_ok (put_room rid (upd room) st)"
proof -
  have "room_ok rid (upd room)" using assms by (blast intro: upd_ok state_ok_room)
  with assms show ?thesis
    by (auto simp: state_ok_def membership_ok_def put_room_def hm_simps upd_members length_rooms_insert)
qed

end

lemma state_ok_generation [simp]: "state_ok (st\<lparr> generation := g \<rparr>) = state_ok st"
  by (simp add: state_ok_def membership_ok_def)

lemma bump_revision_ok:
  "room_ok rid room \<Longrightarrow> room_ok rid (room\<lparr> view := (view room)\<lparr> revision := bump (revision (view room)) \<rparr> \<rparr>)"
  by (simp add: room_ok_def view_ok_def)

interpretation bump_update: room_update "\<lambda>_. True"
  "\<lambda>room. room\<lparr> view := (view room)\<lparr> revision := bump (revision (view room)) \<rparr> \<rparr>"
  by unfold_locales (auto intro: bump_revision_ok)

lemma bump_room_ok: "state_ok st \<Longrightarrow> state_ok (bump_room rid st)"
  using bump_update.put_ok [of st rid]
  by (auto simp: bump_room_def put_room_def Let_def split: option.splits)

lemma bump_room_get:
  "hm_get (rooms (bump_room rid st)) rid =
   map_option (\<lambda>room. room\<lparr> view := (view room)\<lparr> revision := bump (revision (view room)) \<rparr> \<rparr>) (hm_get (rooms st) rid)"
  by (auto simp: bump_room_def Let_def hm_simps split: option.splits)

lemma put_room_get [simp]: "hm_get (rooms (put_room rid room st)) rid = Some room"
  by (simp add: put_room_def hm_simps)

text \<open>The result of a handler is a reply, in a well-formed state.\<close>

definition replies_ok :: "'q handled \<Rightarrow> bool" where
  "replies_ok h \<longleftrightarrow> (\<exists>st' body pubs. h = Reply st' body pubs \<and> state_ok st')"

lemma replies_ok_Reply [simp]: "replies_ok (Reply st body pubs) \<longleftrightarrow> state_ok st"
  by (simp add: replies_ok_def)

context room_update
begin

lemma updated_replies:
  assumes "state_ok st" and "hm_get (rooms st) rid = Some room" and "pre room"
  shows "replies_ok (room_updated rid (put_room rid (upd room) st))"
  using bump_room_ok [OF put_ok [OF assms], of rid]
  by (simp add: room_updated_def Let_def bump_room_get)

end

lemma host_of_Inr_iff:
  "host_of cid st = Inr rid \<longleftrightarrow> hm_get (membership st) cid = Some rid \<and>
     (\<exists>room. hm_get (rooms st) rid = Some room \<and> host_connection_id room = cid)"
  by (auto simp: host_of_def split: if_splits)

lemma as_host_ok:
  assumes "state_ok st"
    and "\<And>rid room. hm_get (rooms st) rid = Some room \<Longrightarrow> host_connection_id room = cid \<Longrightarrow> replies_ok (f rid room)"
  shows "replies_ok (as_host cid st f)"
  using assms by (auto simp: as_host_def host_of_Inr_iff split: sum.splits)

lemma pv_new_None_iff [simp]: "pv_new W rnd pw = None \<longleftrightarrow> str_is_empty pw"
  by (simp add: pv_new_def)

interpretation password_update: room_update "\<lambda>_. True"
  "\<lambda>room. room\<lparr> password := p, view := (view room)\<lparr> password_protected := (p \<noteq> None) \<rparr> \<rparr>" for p
  by unfold_locales (auto simp: room_ok_def view_ok_def)

interpretation options_update: room_update
  "\<lambda>room. validate_map_mode mp mode = Inr () \<and> \<not> options_refused mp mode (view room)"
  "\<lambda>room. room\<lparr> view := (view room)\<lparr> rv_map := mp, rv_mode := mode, joinable := jn \<rparr> \<rparr>" for mp mode jn
  by unfold_locales
    (auto simp: room_ok_def view_ok_def options_refused_def validate_advert_def validate_map_mode_def split: if_splits)

interpretation rename_update: room_update
  "\<lambda>room. validate_map_mode mp mode = Inr () \<and> \<not> options_refused mp mode (view room)"
  "\<lambda>room. room\<lparr> view := (view room)\<lparr> rv_map := mp, rv_mode := mode \<rparr> \<rparr>" for mp mode
  by unfold_locales
    (auto simp: room_ok_def view_ok_def options_refused_def validate_advert_def validate_map_mode_def split: if_splits)

interpretation start_update: room_update
  "\<lambda>room. validate_map_mode mp mode = Inr () \<and> \<not> options_refused mp mode (view room)"
  "\<lambda>room. room\<lparr> view := (view room)\<lparr> rv_map := mp, rv_mode := mode,
     epoch := bump (epoch (view room)), phase := Loading \<rparr> \<rparr>" for mp mode
  by unfold_locales
    (auto simp: room_ok_def view_ok_def options_refused_def validate_advert_def validate_map_mode_def split: if_splits)

interpretation phase_update: room_update "\<lambda>room. ph = Gathering \<or> epoch (view room) \<noteq> 0"
  "\<lambda>room. room\<lparr> view := (view room)\<lparr> phase := ph \<rparr> \<rparr>" for ph
  by unfold_locales (auto simp: room_ok_def view_ok_def in_match_def)

lemma set_password_ok: "state_ok st \<Longrightarrow> replies_ok (set_password W rnd cid pw st)"
  unfolding set_password_def Let_def by (rule as_host_ok, assumption, rule password_update.updated_replies) simp_all

lemma set_options_ok:
  "state_ok st \<Longrightarrow> validate_map_mode mp mode = Inr () \<Longrightarrow> replies_ok (set_options cid mp mode jn st)"
  unfolding set_options_def by (auto intro!: as_host_ok options_update.updated_replies)

lemma start_match_ok:
  "state_ok st \<Longrightarrow> validate_map_mode mp mode = Inr () \<Longrightarrow> replies_ok (start_match cid mp mode st)"
  unfolding start_match_def Let_def
  by (auto intro!: as_host_ok start_update.updated_replies rename_update.put_ok)

lemma stale_report_epoch: "\<not> stale_report rid expected ep v \<Longrightarrow> epoch v \<noteq> 0"
  by (auto simp: stale_report_def)

lemma end_match_ok: "state_ok st \<Longrightarrow> replies_ok (end_match cid expected ep st)"
  unfolding end_match_def Let_def
  by (auto intro!: as_host_ok bump_room_ok phase_update.put_ok)

lemma host_world_ready_ok: "state_ok st \<Longrightarrow> replies_ok (host_world_ready cid expected ep mp wp cl st)"
  unfolding host_world_ready_def Let_def
  by (auto intro!: as_host_ok bump_room_ok phase_update.put_ok dest: stale_report_epoch)

section \<open>Leaving and closing\<close>

lemma fold_remove_get: "hm_get (fold hm_remove ks m) k = (if k \<in> set ks then None else hm_get m k)"
  by (induction ks arbitrary: m) (auto simp: hm_simps)

lemma fold_remove_ok: "hm_ok m \<Longrightarrow> hm_ok (fold hm_remove ks m)"
  by (induction ks arbitrary: m) (auto simp: hm_simps)

lemma close_room_ok:
  assumes "state_ok st"
  shows "state_ok (fst (close_room rid reason st))"
proof (cases "hm_get (rooms st) rid")
  case None
  with assms show ?thesis by (simp add: close_room_def)
next
  case (Some room)
  let ?st' = "fst (close_room rid reason st)"
  have st': "rooms ?st' = hm_remove rid (rooms st)" "peers ?st' = peers st"
    "membership ?st' = fold hm_remove (hm_keys (member_of room)) (membership st)"
    by (simp_all add: close_room_def Some)
  have keys: "cid \<in> fst ` set (member_of room) \<longleftrightarrow> hm_contains (member_of room) cid" for cid
    by (simp add: map_of_eq_None_iff)
  have "membership_ok ?st'"
    unfolding membership_ok_def st'
  proof (intro allI)
    fix cid rid'
    show "hm_get (fold hm_remove (hm_keys (member_of room)) (membership st)) cid = Some rid' \<longleftrightarrow>
      (\<exists>r. hm_get (hm_remove rid (rooms st)) rid' = Some r \<and> hm_contains (member_of r) cid)"
      using state_okD(4) [OF assms] Some elsewhere_not_member [OF assms Some]
      unfolding membership_ok_def fold_remove_get
      by (cases "rid' = rid"; cases "hm_get (member_of room) cid") (auto simp: hm_simps keys)
  qed
  moreover have "length (hm_remove rid (rooms st)) \<le> length (rooms st)" by (simp add: AList.length_delete_le)
  ultimately show ?thesis
    using assms unfolding state_ok_def st'
    by (auto simp: hm_simps fold_remove_ok fold_remove_get membership_peer [OF assms] split: if_splits)
qed

lemma drop_member_ok:
  assumes "room_ok rid room" and "hm_get (member_of room) cid = Some mid" and "host_connection_id room \<noteq> cid"
  shows "room_ok rid (drop_member cid mid room)"
proof -
  have "mid \<noteq> host (view room)"
    using assms by (auto simp: room_ok_def inverse_maps_def)
  moreover have "inverse_maps ((hm_get (member_of room))(cid := None)) ((hm_get (connection_of room))(mid := None))"
    using assms by (intro inverse_maps_del) (simp_all add: room_ok_def)
  moreover have "length (filter (\<lambda>i. i \<noteq> mid) (members (view room))) \<le> unat (max_players (view room))"
    using assms(1) order_trans [OF length_filter_le] by (auto simp: room_ok_def view_ok_def)
  ultimately show ?thesis
    using assms unfolding room_ok_def view_ok_def drop_member_def
    by (auto simp: hm_simps ran_def)
qed

lemma remove_member_ok:
  assumes ok: "state_ok st"
    and nh: "\<And>rid room. hm_get (rooms st) rid = Some room \<Longrightarrow> host_connection_id room \<noteq> cid"
  shows "state_ok (fst (remove_member cid st))"
proof (cases "hm_get (membership st) cid")
  case None
  with ok show ?thesis by (simp add: remove_member_def)
next
  case (Some rid)
  from membership_room [OF ok Some] obtain room mid where r: "hm_get (rooms st) rid = Some room"
    and rok: "room_ok rid room" and m: "hm_get (member_of room) cid = Some mid" by blast
  let ?room' = "drop_member cid mid room"
  let ?st' = "st\<lparr> membership := hm_remove cid (membership st), rooms := hm_insert rid ?room' (rooms st) \<rparr>"
  have mo: "member_of ?room' = hm_remove cid (member_of room)" by (simp add: drop_member_def)
  note other = elsewhere_not_member [OF ok r m]
  have "membership_ok ?st'"
    unfolding membership_ok_def
  proof (intro allI)
    fix c rid'
    show "hm_get (membership ?st') c = Some rid' \<longleftrightarrow>
      (\<exists>r. hm_get (rooms ?st') rid' = Some r \<and> hm_contains (member_of r) c)"
      using state_okD(4) [OF ok] r other unfolding membership_ok_def
      by (cases "c = cid"; cases "rid' = rid") (auto simp: hm_simps mo)
  qed
  moreover have "room_ok rid ?room'" using rok m nh [OF r] by (rule drop_member_ok)
  ultimately have "state_ok ?st'"
    using ok r unfolding state_ok_def by (auto simp: hm_simps length_rooms_insert)
  moreover have "fst (remove_member cid st) = ?st'\<lparr> generation := generation st + 1 \<rparr>"
    by (simp add: remove_member_def Some r m Let_def)
  ultimately show ?thesis by simp
qed

lemma not_host_elsewhere:
  assumes "state_ok st" and "hm_get (membership st) cid = Some rid"
    and "hm_get (rooms st) rid = Some room" and "host_connection_id room \<noteq> cid"
    and "hm_get (rooms st) rid' = Some room'"
  shows "host_connection_id room' \<noteq> cid"
  using host_membership [OF assms(1,5)] assms by auto

lemma leave_room_ok:
  assumes "state_ok st"
  shows "replies_ok (leave_room cid st)"
proof (cases "hm_get (membership st) cid")
  case None
  with assms show ?thesis by (simp add: leave_room_def)
next
  case (Some rid)
  from membership_room [OF assms Some] obtain room where r: "hm_get (rooms st) rid = Some room" by blast
  show ?thesis
    using close_room_ok [OF assms, of rid HostLeft]
      remove_member_ok [OF assms not_host_elsewhere [OF assms Some r]]
    by (auto simp: leave_room_def Some r split: prod.splits)
qed

lemma close_room_request_ok: "state_ok st \<Longrightarrow> replies_ok (close_room_request cid st)"
  using close_room_ok [of st] by (auto simp: close_room_request_def split: sum.splits prod.splits)
    (metis fst_conv)

text \<open>Removing a peer that belongs to no room.\<close>

lemma remove_peer_ok:
  "state_ok st \<Longrightarrow> hm_get (membership st) cid = None \<Longrightarrow> state_ok (st\<lparr> peers := hm_remove cid (peers st) \<rparr>)"
  by (auto simp: state_ok_def hm_simps)

lemma close_room_parts:
  "hm_get (rooms st) rid = Some room \<Longrightarrow> fst (close_room rid reason st) =
     st\<lparr> rooms := hm_remove rid (rooms st), generation := generation st + 1,
         membership := fold hm_remove (hm_keys (member_of room)) (membership st) \<rparr>"
  by (simp add: close_room_def)

lemma close_room_peers: "fst (close_room rid reason (st\<lparr> peers := ps \<rparr>)) = (fst (close_room rid reason st))\<lparr> peers := ps \<rparr>"
  by (simp add: close_room_def split: option.splits)

lemma remove_member_peers: "fst (remove_member cid (st\<lparr> peers := ps \<rparr>)) = (fst (remove_member cid st))\<lparr> peers := ps \<rparr>"
  by (simp add: remove_member_def Let_def split: option.splits)

lemma close_room_keeps_peers [simp]: "peers (fst (close_room rid reason st)) = peers st"
  by (simp add: close_room_def split: option.splits)

lemma remove_member_keeps_peers [simp]: "peers (fst (remove_member cid st)) = peers st"
  by (simp add: remove_member_def Let_def split: option.splits)

lemma close_room_leaves:
  assumes "state_ok st" and "hm_get (rooms st) rid = Some room" and "hm_get (member_of room) cid = Some mid"
  shows "hm_get (membership (fst (close_room rid reason st))) cid = None"
  using assms(3) by (simp add: close_room_parts [OF assms(2)] fold_remove_get) (force dest: map_of_SomeD)

lemma remove_member_leaves: "hm_get (membership (fst (remove_member cid st))) cid = None"
  by (simp add: remove_member_def Let_def hm_simps split: option.splits)

lemma disconnect_ok:
  assumes "state_ok st"
  shows "state_ok (fst (disconnect cid st))"
proof (cases "hm_get (membership st) cid")
  case None
  with assms show ?thesis by (simp add: disconnect_def remove_peer_ok)
next
  case (Some rid)
  from membership_room [OF assms Some] obtain room mid where r: "hm_get (rooms st) rid = Some room"
    and m: "hm_get (member_of room) cid = Some mid" by blast
  show ?thesis
  proof (cases "host_connection_id room = cid")
    case True
    then have "fst (disconnect cid st) = (fst (close_room rid HostLeft st))\<lparr> peers := hm_remove cid (peers st) \<rparr>"
      by (simp add: disconnect_def Some r Let_def close_room_peers)
    then show ?thesis
      using remove_peer_ok [OF close_room_ok [OF assms] close_room_leaves [OF assms r m]] by simp
  next
    case False
    then have "fst (disconnect cid st) = (fst (remove_member cid st))\<lparr> peers := hm_remove cid (peers st) \<rparr>"
      by (simp add: disconnect_def Some r Let_def remove_member_peers)
    then show ?thesis
      using remove_peer_ok [OF remove_member_ok [OF assms not_host_elsewhere [OF assms Some r False]]
          remove_member_leaves] by simp
  qed
qed

lemma attach_peer_ok: "state_ok st \<Longrightarrow> name_ok name \<Longrightarrow> state_ok (attach_peer cid name con tx st)"
  by (auto simp: attach_peer_def state_ok_def membership_ok_def hm_simps)

section \<open>Creating and joining\<close>

text \<open>The identifiers a request draws are new. They have 128 random bits.\<close>

definition fresh_draws :: "(nat \<Rightarrow> array16) \<Rightarrow> 'q ServiceState \<Rightarrow> bool" where
  "fresh_draws rnd st \<longleftrightarrow> hm_get (rooms st) (AdvertId (rnd 0)) = None
     \<and> (\<forall>rid room. hm_get (rooms st) rid = Some room \<longrightarrow> hm_get (connection_of room) (MemberId (rnd 0)) = None)"

lemma new_member_ok:
  assumes "state_ok st" and "hm_get (membership st) cid = None" and "hm_contains (peers st) cid"
    and "hm_get (rooms st) rid = None \<or> (\<exists>room0. hm_get (rooms st) rid = Some room0 \<and>
          hm_get (member_of room) = (hm_get (member_of room0))(cid \<mapsto> mid))"
    and "hm_get (rooms st) rid = None \<Longrightarrow> dom (hm_get (member_of room)) = {cid}"
    and "room_ok rid room" and "length (hm_insert rid room (rooms st)) \<le> MAX_ROOMS"
  shows "state_ok (st\<lparr> rooms := hm_insert rid room (rooms st), membership := hm_insert cid rid (membership st) \<rparr>)"
proof -
  let ?st' = "st\<lparr> rooms := hm_insert rid room (rooms st), membership := hm_insert cid rid (membership st) \<rparr>"
  have nm: "hm_get (member_of r) cid = None" if "hm_get (rooms st) rid' = Some r" for rid' r
    using member_membership [OF assms(1) that, of cid] assms(2) by (cases "hm_get (member_of r) cid") auto
  have in_cid: "hm_contains (member_of room) cid"
    using assms(4,5) by (cases "hm_get (rooms st) rid") (auto simp: dom_def)
  have others: "hm_contains (member_of room) c \<longleftrightarrow> hm_get (membership st) c = Some rid" if "c \<noteq> cid" for c
    using assms(4,5) that state_okD(4) [OF assms(1)] unfolding membership_ok_def
    by (cases "hm_get (rooms st) rid") (auto simp: dom_def set_eq_iff)
  have "membership_ok ?st'"
    unfolding membership_ok_def
  proof (intro allI)
    fix c rid'
    show "hm_get (membership ?st') c = Some rid' \<longleftrightarrow>
      (\<exists>r. hm_get (rooms ?st') rid' = Some r \<and> hm_contains (member_of r) c)"
      using in_cid others nm state_okD(4) [OF assms(1)] unfolding membership_ok_def
      by (cases "c = cid"; cases "rid' = rid") (auto simp: hm_simps)
  qed
  with assms show ?thesis
    unfolding state_ok_def by (auto simp: hm_simps)
qed

lemma seats: "validate_advert nm mp md mx = Inr () \<Longrightarrow> 2 \<le> unat mx \<and> unat mx \<le> 18"
  by (auto simp: validate_advert_def word_le_nat_alt split: if_splits)

lemma single_maps:
  "inverse_maps (\<lambda>k. if k = a then Some b else None) (\<lambda>k. if k = b then Some a else None)"
  "dom (\<lambda>k. if k = a then Some b else None) = {a}"
  by (auto simp: inverse_maps_def split: if_splits)

lemma create_room_ok:
  assumes ok: "state_ok st" and fresh: "fresh_draws rnd st" and peer: "hm_contains (peers st) cid"
    and valid: "validate_advert nm mp md mx = Inr ()"
  shows "replies_ok (create_room W rnd cid nm mp md mx req av pw st)"
proof (cases "map_content_allowed mp req \<and> \<not> hm_contains (membership st) cid \<and> length (rooms st) < 10000")
  case True
  from peer obtain p where p: "hm_get (peers st) cid = Some p" by blast
  let ?rid = "AdvertId (rnd 0)" and ?mid = "MemberId (rnd 1)"
  define v where "v = \<lparr> room_id = ?rid, rv_name = nm, host = ?mid, members = [?mid],
    member_names = [?mid \<mapsto> player_name p], rv_map = mp, rv_mode = md, joinable = True,
    revision = 1, epoch = 0, phase = Gathering, max_players = mx, requires = req,
    available = av, password_protected = (\<not> str_is_empty pw) \<rparr>"
  define room where "room = \<lparr> view = v, password = pv_new W (rnd 2) pw, host_connection_id = cid,
    member_of = [(cid, ?mid)], connection_of = [(?mid, cid)] \<rparr>"
  from fresh have new: "hm_get (rooms st) ?rid = None" by (simp add: fresh_draws_def)
  have "view_ok v"
    using valid True seats [OF valid] state_ok_peer [OF ok p] by (simp add: view_ok_def v_def in_match_def)
  then have "room_ok ?rid room"
    by (simp add: room_ok_def room_def v_def single_maps)
  then have "state_ok (st\<lparr> rooms := hm_insert ?rid room (rooms st), membership := hm_insert cid ?rid (membership st) \<rparr>)"
    using new True by (intro new_member_ok [OF ok]) (auto simp: p room_def length_rooms_insert [OF state_okD(1) [OF ok]] split: if_splits)
  with ok True p show ?thesis
    by (simp add: create_room_def put_room_def Let_def room_def v_def)
next
  case False
  with ok show ?thesis by (auto simp: create_room_def)
qed

lemma join_room_ok:
  assumes ok: "state_ok st" and fresh: "fresh_draws rnd st" and peer: "hm_contains (peers st) cid"
  shows "replies_ok (join_room W rnd cid rid hv pw st)"
proof (cases "hm_get (membership st) cid")
  case (Some existing)
  from membership_room [OF ok Some] obtain room mid where "hm_get (rooms st) existing = Some room"
    "hm_get (member_of room) cid = Some mid" by blast
  with Some ok show ?thesis by (cases "existing = rid") (simp_all add: join_room_def)
next
  case None
  from peer obtain p where p: "hm_get (peers st) cid = Some p" by blast
  show ?thesis
  proof (cases "hm_get (rooms st) rid")
    case r: (Some room)
    let ?mid = "MemberId (rnd 0)"
    define room' where "room' = room\<lparr> member_of := hm_insert cid ?mid (member_of room),
      connection_of := hm_insert ?mid cid (connection_of room),
      view := (view room)\<lparr> members := members (view room) @ [?mid],
        member_names := (member_names (view room))(?mid \<mapsto> player_name p), revision := bump (revision (view room)) \<rparr> \<rparr>"
    have rok: "room_ok rid room" using ok r by (rule state_ok_room)
    have nm: "hm_get (member_of room) cid = None"
      using member_membership [OF ok r, of cid] None by (cases "hm_get (member_of room) cid") auto
    have nc: "hm_get (connection_of room) ?mid = None" using fresh r by (auto simp: fresh_draws_def)
    then have new: "?mid \<notin> set (members (view room))" using rok by (auto simp: room_ok_def)
    then have nn: "member_names (view room) ?mid = None" using rok by (auto simp: room_ok_def view_ok_def)
    have ok': "state_ok (st\<lparr> rooms := hm_insert rid room' (rooms st), membership := hm_insert cid rid (membership st) \<rparr>)"
      if free: "length (members (view room)) < unat (max_players (view room))"
    proof -
      have "room_ok rid room'"
        using rok nm nc new nn free state_ok_peer [OF ok p] host_membership [OF ok r] None
        unfolding room_ok_def view_ok_def room'_def by (auto simp: hm_simps inverse_maps_upd simp del: dom_def)
      then show ?thesis
        using None r state_okD(5) [OF ok]
        by (intro new_member_ok [OF ok]) (auto simp: p room'_def hm_simps length_rooms_insert [OF state_okD(1) [OF ok]])
    qed
    with ok None r p show ?thesis
      by (auto simp: join_room_def put_room_def Let_def AList.update_last room'_def not_le)
  qed (use ok None in \<open>simp add: join_room_def\<close>)
qed

section \<open>Requests\<close>

lemma population_ok: "state_ok st \<Longrightarrow> replies_ok (population W cid on st)"
  by (auto simp: population_def Let_def state_ok_def hm_simps split: option.splits)

lemma forward_to_host_ok: "state_ok st \<Longrightarrow> replies_ok (forward_to_host cid event st)"
  by (simp add: forward_to_host_def split: sum.splits prod.splits option.splits)

lemma send_to_member_ok: "state_ok st \<Longrightarrow> replies_ok (send_to_member cid mid event st)"
  by (simp add: send_to_member_def split: sum.splits prod.splits option.splits)

lemmas handlers_ok = set_password_ok set_options_ok start_match_ok end_match_ok host_world_ready_ok
  leave_room_ok close_room_request_ok population_ok forward_to_host_ok send_to_member_ok
  create_room_ok join_room_ok

text \<open>
  A valid request of a connected peer, with fresh random draws, is answered without a panic
  and leaves the service well formed.
\<close>

lemma handle_body_ok:
  assumes "state_ok st" and "valid_request b" and "hm_contains (peers st) cid" and "fresh_draws rnd st"
  shows "replies_ok (handle_body W rnd cid b st)"
  using assms by (cases b) (simp_all add: handlers_ok enter_match_def admission_failed_def)

end
