(* ===== verification/Service_Dispatch.thy ===== *)
theory Service_Dispatch
  imports Service_Invariant
begin

text \<open>
  Delivery: sending queued frames to peers and dropping the peers that cannot take them
  (\<open>dispatch_publishes\<close>), what one control frame of a client makes the service do
  (\<open>run_connection\<close>), the end of a connection, the relay of datagrams with the gate that
  sheds whole packets, and the bounded transfer of a bootstrap stream. Every function is one
  task's work; the locked sections it is made of are the steps of \<open>service_step\<close>, which
  interleaves all tasks.
\<close>

section \<open>Sending\<close>

text \<open>
  The first loop of \<open>dispatch_publishes\<close>: the new state, the connections whose queue refused a
  frame (once per refused frame), and the QUIC connections it closed.
\<close>

fun send_all :: "'q world \<Rightarrow> publishes \<Rightarrow> 'q ServiceState \<Rightarrow> 'q ServiceState \<times> u64 list \<times> nat list" where
  "send_all W [] st = (st, [], [])"
| "send_all W ((cid, frame) # pubs) st = (case hm_get (peers st) cid of
     None \<Rightarrow> send_all W pubs st
   | Some peer \<Rightarrow> (case try_send W (control_tx peer) frame of
       Inr tx \<Rightarrow> send_all W pubs (st\<lparr> peers := hm_insert cid (peer\<lparr> control_tx := tx \<rparr>) (peers st) \<rparr>)
     | Inl _ \<Rightarrow> (let (st', failed, closed) = send_all W pubs st in
         (st', cid # failed, connection peer # closed))))"

text \<open>
  The function then disconnects each failed peer and calls itself on what that publishes. The
  calls still to make are kept as a list of tasks; \<open>dispatch_recursion\<close> below is the
  recursion as the source writes it.
\<close>

datatype task = Publish publishes | Disconnect u64

definition service_size :: "'q ServiceState \<Rightarrow> nat" where
  "service_size st = length (peers st) + length (membership st) + length (rooms st)"

fun task_weight :: "task \<Rightarrow> nat" where
  "task_weight (Publish pubs) = Suc (2 * length pubs)"
| "task_weight (Disconnect cid) = 2"

lemma length_insert_present: "hm_contains m k \<Longrightarrow> length (hm_insert k v m) = length m"
  by (induction m) (auto split: if_splits)

lemma length_remove_le: "length (hm_remove k m) \<le> length m"
  by (simp add: AList.length_delete_le)

lemma length_remove_less: "hm_contains m k \<Longrightarrow> length (hm_remove k m) < length m"
  using length_remove_le [of k] by (induction m) (auto simp: less_Suc_eq_le split: if_splits)

lemma remove_absent: "hm_get m k = None \<Longrightarrow> hm_remove k m = m"
  by (simp add: delete_id map_of_eq_None_iff)

lemma length_fold_remove_le: "length (fold hm_remove ks m) \<le> length m"
  by (induction ks arbitrary: m) (auto intro: order_trans [OF _ length_remove_le])

lemma send_all_shape:
  "send_all W pubs st = (st', failed, closed) \<Longrightarrow>
   rooms st' = rooms st \<and> membership st' = membership st \<and> generation st' = generation st
   \<and> length (peers st') = length (peers st) \<and> length failed \<le> length pubs \<and> length closed = length failed"
proof (induction pubs arbitrary: st st' failed closed)
  case (Cons p pubs)
  obtain cid frame where p: "p = (cid, frame)" by (cases p)
  show ?case
  proof (cases "hm_get (peers st) cid")
    case None
    with Cons.prems Cons.IH [of st] show ?thesis by (simp add: p)
  next
    case (Some peer)
    show ?thesis
    proof (cases "try_send W (control_tx peer) frame")
      case (Inl e)
      with Cons.prems Some obtain f c where "send_all W pubs st = (st', f, c)" "failed = cid # f" "closed = connection peer # c"
        by (auto simp: p split: prod.splits)
      with Cons.IH show ?thesis by simp
    next
      case (Inr tx)
      with Cons.prems Some Cons.IH show ?thesis by (fastforce simp: p length_insert_present)
    qed
  qed
qed simp

lemma close_room_size:
  "hm_contains (rooms st) rid \<Longrightarrow> service_size (fst (close_room rid reason st)) < service_size st"
  using length_remove_less [of "rooms st" rid] length_fold_remove_le
  by (auto simp: close_room_def service_size_def intro!: add_le_less_mono)

lemma remove_member_size:
  "hm_contains (membership st) cid \<Longrightarrow> service_size (fst (remove_member cid st)) < service_size st"
  using length_remove_less [of "membership st" cid]
  by (auto simp: remove_member_def service_size_def Let_def length_insert_present split: option.splits)

lemma disconnect_size:
  assumes "disconnect cid st = (st', pubs)"
  shows "service_size st' < service_size st \<or> service_size st' = service_size st \<and> pubs = []"
proof -
  let ?st1 = "st\<lparr> peers := hm_remove cid (peers st) \<rparr>"
  have le: "service_size ?st1 \<le> service_size st" by (simp add: service_size_def length_remove_le)
  show ?thesis
  proof (cases "hm_get (membership st) cid")
    case None
    with assms le show ?thesis by (auto simp: disconnect_def)
  next
    case (Some rid)
    show ?thesis
    proof (cases "hm_get (rooms st) rid")
      case None
      with assms Some le length_remove_less [of "membership st" cid] show ?thesis
        by (auto simp: disconnect_def service_size_def)
    next
      case r: (Some room)
      have "service_size (fst (disconnect cid st)) < service_size ?st1"
        using close_room_size [of ?st1 rid HostLeft] remove_member_size [of ?st1 cid] Some r
        by (simp add: disconnect_def Let_def)
      with assms le show ?thesis by simp
    qed
  qed
qed

lemma task_weight_disconnects: "sum_list (map task_weight (map Disconnect cids)) = 2 * length cids"
  by (induction cids) simp_all

function (sequential) drain :: "'q world \<Rightarrow> task list \<Rightarrow> 'q ServiceState \<Rightarrow> 'q ServiceState \<times> nat list" where
  "drain W [] st = (st, [])"
| "drain W (Publish pubs # k) st = (case send_all W pubs st of (st1, failed, closed) \<Rightarrow>
      (case drain W (map Disconnect failed @ k) st1 of (st2, closed') \<Rightarrow> (st2, closed @ closed')))"
| "drain W (Disconnect cid # k) st = (case disconnect cid st of (st1, extra) \<Rightarrow> drain W (Publish extra # k) st1)"
  by pat_completeness auto

termination
proof (relation "inv_image (less_than <*lex*> less_than)
    (\<lambda>(W, k, st). (service_size st, sum_list (map task_weight k)))", goal_cases)
  case (2 W pubs k st)
  then show ?case
    using task_weight_disconnects by (auto simp: service_size_def dest!: send_all_shape [OF sym])
next
  case (3 W cid k st)
  then show ?case by (auto dest: disconnect_size [OF sym])
qed (rule wf_inv_image [OF wf_lex_prod [OF wf_less_than wf_less_than]])

definition dispatch_publishes :: "'q world \<Rightarrow> publishes \<Rightarrow> 'q ServiceState \<Rightarrow> 'q ServiceState \<times> nat list" where
  "dispatch_publishes W pubs = drain W [Publish pubs]"

text \<open>The tasks of a list run one after the other.\<close>

lemma drain_append:
  "drain W (k @ k') st = (case drain W k st of (st1, closed) \<Rightarrow>
     (case drain W k' st1 of (st2, closed') \<Rightarrow> (st2, closed @ closed')))"
proof (induction W k st rule: drain.induct)
  case (2 W pubs k st)
  then show ?case by (auto split: prod.splits)
next
  case (3 W cid k st)
  then show ?case by (auto split: prod.splits)
qed (simp split: prod.splits)

text \<open>The body of the second loop of the source.\<close>

definition drop_failed :: "'q world \<Rightarrow> u64 \<Rightarrow> 'q ServiceState \<times> nat list \<Rightarrow> 'q ServiceState \<times> nat list" where
  "drop_failed W cid acc = (case acc of (st, closed) \<Rightarrow> (case disconnect cid st of (st1, extra) \<Rightarrow>
     (case dispatch_publishes W extra st1 of (st2, closed') \<Rightarrow> (st2, closed @ closed'))))"

lemma drain_disconnects:
  "fold (drop_failed W) failed (st, closed) =
     (case drain W (map Disconnect failed) st of (st2, closed') \<Rightarrow> (st2, closed @ closed'))"
proof (induction failed arbitrary: st closed)
  case (Cons cid failed)
  have "drain W (Disconnect cid # map Disconnect failed) st =
    (case disconnect cid st of (st1, extra) \<Rightarrow> drain W ([Publish extra] @ map Disconnect failed) st1)"
    by simp
  with Cons show ?case
    unfolding drain_append by (auto simp: drop_failed_def dispatch_publishes_def split: prod.splits)
qed simp

lemma dispatch_unfold:
  "dispatch_publishes W pubs st = (case send_all W pubs st of (st1, failed, closed) \<Rightarrow>
     fold (drop_failed W) failed (st1, closed))"
  by (simp add: dispatch_publishes_def drain_disconnects split: prod.splits)

section \<open>What dispatch keeps and guarantees\<close>

lemma requeue_ok:
  "state_ok st \<Longrightarrow> hm_get (peers st) cid = Some peer \<Longrightarrow>
   state_ok (st\<lparr> peers := hm_insert cid (peer\<lparr> control_tx := tx \<rparr>) (peers st) \<rparr>)"
  by (auto simp: state_ok_def hm_simps)

lemma send_all_ok: "state_ok st \<Longrightarrow> state_ok (fst (send_all W pubs st))"
  by (induction W pubs st rule: send_all.induct)
    (auto simp: requeue_ok split: option.splits sum.splits prod.splits)

lemma drain_ok: "state_ok st \<Longrightarrow> state_ok (fst (drain W k st))"
proof (induction W k st rule: drain.induct)
  case (2 W pubs k st)
  with send_all_ok [of st W pubs] show ?case by (auto split: prod.splits)
next
  case (3 W cid k st)
  with disconnect_ok [of st cid] show ?case by (auto split: prod.splits)
qed simp

lemma dispatch_ok: "state_ok st \<Longrightarrow> state_ok (fst (dispatch_publishes W pubs st))"
  unfolding dispatch_publishes_def by (rule drain_ok)

text \<open>Nothing in the dispatch adds a peer.\<close>

lemma send_all_peers: "hm_contains (peers (fst (send_all W pubs st))) c \<longleftrightarrow> hm_contains (peers st) c"
  by (induction W pubs st rule: send_all.induct)
    (auto simp: hm_simps split: option.splits sum.splits prod.splits if_splits)

lemma disconnect_peers: "peers (fst (disconnect cid st)) = hm_remove cid (peers st)"
  by (auto simp: disconnect_def Let_def split: option.splits)

lemma drain_peers: "hm_get (peers st) c = None \<Longrightarrow> hm_get (peers (fst (drain W k st))) c = None"
proof (induction W k st rule: drain.induct)
  case (2 W pubs k st)
  with send_all_peers [of W pubs st c] show ?case by (auto split: prod.splits)
next
  case (3 W cid k st)
  with disconnect_peers [of cid st] show ?case by (auto simp: hm_simps split: prod.splits)
qed simp

lemma drain_disconnected: "Disconnect cid \<in> set k \<Longrightarrow> hm_get (peers (fst (drain W k st))) cid = None"
proof (induction W k st rule: drain.induct)
  case (2 W pubs k st)
  then show ?case by (auto split: prod.splits)
next
  case (3 W c k st)
  show ?case
  proof (cases "Disconnect cid \<in> set k")
    case True
    with 3 show ?thesis by (auto split: prod.splits)
  next
    case False
    with 3 have "c = cid" by simp
    then show ?thesis
      using disconnect_peers [of cid st] by (auto simp: hm_simps intro!: drain_peers split: prod.splits simp del: drain.simps(2))
  qed
qed simp

text \<open>The frames for one connection, offered to its queue in order until one is refused.\<close>

fun offer_all :: "'q world \<Rightarrow> ControlFrame list \<Rightarrow> 'q \<Rightarrow> 'q option" where
  "offer_all W [] q = Some q"
| "offer_all W (f # fs) q = (case try_send W q f of Inl _ \<Rightarrow> None | Inr q' \<Rightarrow> offer_all W fs q')"

definition frames_for :: "u64 \<Rightarrow> publishes \<Rightarrow> ControlFrame list" where
  "frames_for cid pubs = map snd (filter (\<lambda>p. fst p = cid) pubs)"

lemma send_all_delivers:
  assumes "send_all W pubs st = (st', failed, closed)" and "hm_get (peers st) cid = Some peer"
  shows "(cid \<notin> set failed \<longleftrightarrow> offer_all W (frames_for cid pubs) (control_tx peer) \<noteq> None) \<and>
    (\<forall>q. offer_all W (frames_for cid pubs) (control_tx peer) = Some q \<longrightarrow>
       hm_get (peers st') cid = Some (peer\<lparr> control_tx := q \<rparr>))"
  using assms
proof (induction pubs arbitrary: st st' failed closed peer)
  case (Cons p pubs)
  obtain c frame where p: "p = (c, frame)" by (cases p)
  show ?case
  proof (cases "c = cid")
    case False
    then have frames: "frames_for cid (p # pubs) = frames_for cid pubs" by (simp add: frames_for_def p)
    obtain st1 failed1 closed1 where s1: "send_all W pubs st1 = (st', failed1, closed1)"
      and "hm_get (peers st1) cid = Some peer" and "cid \<in> set failed \<longleftrightarrow> cid \<in> set failed1"
      using Cons.prems False by (auto simp: p hm_simps split: option.splits sum.splits prod.splits)
    with Cons.IH [OF s1] show ?thesis unfolding frames by simp
  next
    case True
    then have frames: "frames_for cid (p # pubs) = frame # frames_for cid pubs" by (simp add: frames_for_def p)
    show ?thesis
    proof (cases "try_send W (control_tx peer) frame")
      case (Inl e)
      with Cons.prems True show ?thesis unfolding frames by (auto simp: p split: prod.splits)
    next
      case (Inr tx)
      let ?st1 = "st\<lparr> peers := hm_insert cid (peer\<lparr> control_tx := tx \<rparr>) (peers st) \<rparr>"
      from Cons.prems True Inr have "send_all W pubs ?st1 = (st', failed, closed)" by (simp add: p)
      from Cons.IH [OF this, of "peer\<lparr> control_tx := tx \<rparr>"] Inr show ?thesis
        unfolding frames by (simp add: hm_simps)
    qed
  qed
qed (simp add: frames_for_def)

section \<open>One control frame of a client\<close>

text \<open>
  The control branch of the loop of \<open>run_connection\<close>. The connection goes on, stops with an
  error (the \<open>?\<close> operator and \<open>break Err\<close>), or its task panics; the last component lists the
  QUIC connections closed.
\<close>

datatype 'q loop_step =
    Continue "'q ServiceState" "nat list"
  | Stop Failure "'q ServiceState" "nat list"
  | TaskPanic "'q ServiceState"

text \<open>\<open>peers.values().find(..)\<close>: the entry of a peer with the target connection.\<close>

definition find_peer :: "nat \<Rightarrow> 'q ServiceState \<Rightarrow> (u64 \<times> 'q Peer) option" where
  "find_peer target st = List.find (\<lambda>(cid, peer). connection peer = target) (peers st)"

definition relay_control :: "'q world \<Rightarrow> u64 \<Rightarrow> bytes \<Rightarrow> 'q ServiceState \<Rightarrow> 'q loop_step" where
  "relay_control W cid bs st = (case map_err ProtocolFailure (decode_relay_stream bs) of Inl e \<Rightarrow> Stop e st []
     | Inr relay \<Rightarrow> (case route_target_stream cid relay st of Inl e \<Rightarrow> Stop e st []
       | Inr (target, outgoing) \<Rightarrow> (case find_peer target st of None \<Rightarrow> Stop (ServiceFailure NotMember) st []
         | Some (pid, peer) \<Rightarrow> (case try_send W (control_tx peer) (FrRelay outgoing) of
             Inl _ \<Rightarrow> Stop (Message ''control queue exhausted'') st [target]
           | Inr tx \<Rightarrow> Continue (st\<lparr> peers := hm_insert pid (peer\<lparr> control_tx := tx \<rparr>) (peers st) \<rparr>) []))))"

fun on_control_frame :: "'q world \<Rightarrow> (nat \<Rightarrow> array16) \<Rightarrow> u64 \<Rightarrow> ControlFrame \<Rightarrow> 'q ServiceState \<Rightarrow> 'q loop_step" where
  "on_control_frame W rnd cid (FrRequest q) st = (case handle_request W rnd cid q st of
     Inl st' \<Rightarrow> TaskPanic st'
   | Inr ho \<Rightarrow> (case dispatch_publishes W (ho_publishes ho @ [(cid, FrResponse (ho_response ho))]) (ho_state ho) of
       (st', closed) \<Rightarrow> Continue st' closed))"
| "on_control_frame W rnd cid (FrRelay bs) st = relay_control W cid bs st"
| "on_control_frame W rnd cid (FrHello h) st = Stop (Message ''duplicate Hello'') st []"
| "on_control_frame W rnd cid _ st = Stop (Message ''client sent a non-request control frame'') st []"

text \<open>The end of \<open>handle_connection\<close>.\<close>

definition finish_connection :: "'q world \<Rightarrow> u64 \<Rightarrow> 'q ServiceState \<Rightarrow> 'q ServiceState \<times> nat list" where
  "finish_connection W cid st = (case disconnect cid st of (st', pubs) \<Rightarrow> dispatch_publishes W pubs st')"

section \<open>Relayed datagrams\<close>

abbreviation (input) DATAGRAM_SEND_BUFFER :: nat where "DATAGRAM_SEND_BUFFER \<equiv> 128 * 1024"
abbreviation (input) RELAY_BACKLOG_BYTES :: nat where "RELAY_BACKLOG_BYTES \<equiv> 16 * 1024"

definition fragment_header :: "bytes \<Rightarrow> (u16 \<times> u16 \<times> u32) option" where
  "fragment_header payload =
     (if length payload < 12 then None
      else let header = take 12 payload in
        if take 3 header \<noteq> [0x52, 0x46, 2] then None
        else Some (from_le_bytes [header ! 4, header ! 5], from_le_bytes [header ! 6, header ! 7],
               from_le_bytes [header ! 8, header ! 9, header ! 10, header ! 11]))"

record RelayGate =
  shedding :: "u32 option"

text \<open>\<open>space\<close> is \<open>target.datagram_send_buffer_space()\<close> at the time of the call.\<close>

definition gate_admit :: "bytes \<Rightarrow> nat \<Rightarrow> nat \<Rightarrow> RelayGate \<Rightarrow> bool \<times> RelayGate" where
  "gate_admit payload space wire_bytes gate = (case fragment_header payload of
     None \<Rightarrow> (True, gate)
   | Some (index, cnt, packet_id) \<Rightarrow>
       if index \<noteq> 0 then (shedding gate \<noteq> Some packet_id, gate)
       else let queued = DATAGRAM_SEND_BUFFER - space;
           admitted = (queued < wire_bytes \<or> queued + wire_bytes * unat cnt \<le> RELAY_BACKLOG_BYTES)
         in (admitted, gate\<lparr> shedding := (if admitted then None else Some packet_id) \<rparr>))"

fun relay_payload :: "RelayDatagram \<Rightarrow> bytes" where
  "relay_payload (ClientToHost p) = p"
| "relay_payload (HostToMember m p) = p"
| "relay_payload (ServiceToHost m p) = p"
| "relay_payload (ServiceToMember p) = p"

text \<open>
  The result is the gate and the datagram to send, if any; an error leaves the gate alone.
\<close>

definition relay_datagram :: "(nat \<Rightarrow> nat) \<Rightarrow> u64 \<Rightarrow> bytes \<Rightarrow> RelayGate \<Rightarrow> 'q ServiceState \<Rightarrow>
    Failure + (nat \<times> bytes) option \<times> RelayGate" where
  "relay_datagram space cid bs gate st =
     res_bind (map_err ProtocolFailure (decode_relay bs)) (\<lambda>relay.
     res_bind (route_target cid relay st) (\<lambda>(target, outgoing).
     case gate_admit (relay_payload relay) (space target) (length outgoing) gate of
       (admitted, gate') \<Rightarrow> Inr (if admitted then Some (target, outgoing) else None, gate')))"

section \<open>Bootstrap transfers\<close>

text \<open>What \<open>read_chunk\<close> under its deadline can give.\<close>

datatype chunk_event = ChunkDeadline | ChunkError string | ChunkEnd | Chunk bytes

text \<open>\<open>None\<close>: the stream has not ended yet.\<close>

fun read_transfer :: "bytes \<Rightarrow> chunk_event list \<Rightarrow> (Failure + bytes) option" where
  "read_transfer bs [] = None"
| "read_transfer bs (ChunkDeadline # _) = Some (Inl (Message ''transfer progress deadline''))"
| "read_transfer bs (ChunkError e # _) = Some (Inl (Message e))"
| "read_transfer bs (ChunkEnd # _) = Some (Inr bs)"
| "read_transfer bs (Chunk c # es) =
     (if c = [] \<or> MAX_BOOTSTRAP_STREAM_BYTES < length bs + length c
      then Some (Inl (Message ''transfer byte budget exceeded''))
      else read_transfer (bs @ c) es)"

lemma read_transfer_bounded:
  "read_transfer bs es = Some (Inr out) \<Longrightarrow> length bs \<le> MAX_BOOTSTRAP_STREAM_BYTES \<Longrightarrow>
   length out \<le> MAX_BOOTSTRAP_STREAM_BYTES"
  by (induction bs es rule: read_transfer.induct) (auto split: if_splits)

lemma read_transfer_collects:
  "read_transfer bs es = Some (Inr out) \<Longrightarrow>
   \<exists>cs rest. es = map Chunk cs @ ChunkEnd # rest \<and> out = bs @ concat cs"
proof (induction bs es rule: read_transfer.induct)
  case (5 bs c es)
  then obtain cs rest where "es = map Chunk cs @ ChunkEnd # rest" "out = (bs @ c) @ concat cs"
    by (auto split: if_splits)
  then show ?case by (intro exI [of _ "c # cs"] exI [of _ rest]) simp
next
  case (4 bs es)
  then show ?case by (intro exI [of _ "[]"] exI [of _ es]) simp
qed simp_all

text \<open>
  A chunk of at most 16 KiB is offered at a time; quinn says how much of it was taken.
\<close>

datatype write_event = WriteDeadline | WriteError string | Wrote nat

text \<open>The results of \<open>finish\<close> and, under its deadline, of \<open>stopped\<close>.\<close>

datatype finish_event = FinishError string | AckDeadline | AckError string | Refused nat | Acknowledged

fun finish_transfer :: "finish_event \<Rightarrow> Failure + unit" where
  "finish_transfer (FinishError e) = Inl (Message e)"
| "finish_transfer AckDeadline = Inl (Message ''transfer acknowledgement deadline'')"
| "finish_transfer (AckError e) = Inl (Message e)"
| "finish_transfer (Refused code) = Inl (Message ''transfer refused'')"
| "finish_transfer Acknowledged = Inr ()"

fun write_transfer :: "bytes \<Rightarrow> nat \<Rightarrow> write_event list \<Rightarrow> finish_event \<Rightarrow> (Failure + unit) option" where
  "write_transfer bs offset es fin =
     (if length bs \<le> offset then Some (finish_transfer fin)
      else case es of [] \<Rightarrow> None
        | WriteDeadline # _ \<Rightarrow> Some (Inl (Message ''transfer progress deadline''))
        | WriteError e # _ \<Rightarrow> Some (Inl (Message e))
        | Wrote n # es' \<Rightarrow> if n = 0 then Some (Inl (Message ''transfer made no progress''))
            else write_transfer bs (offset + n) es' fin)"

text \<open>Since every write makes progress or ends the transfer, as many writes as bytes are enough.\<close>

lemma write_transfer_ends:
  "length bs - offset \<le> length es \<Longrightarrow> \<exists>r. write_transfer bs offset es fin = Some r"
proof (induction es arbitrary: offset)
  case (Cons e es)
  then show ?case by (cases e) auto
qed simp

section \<open>Steps of the service\<close>

text \<open>
  One step is one locked section of some task: a connection attaches after its hello, a
  request is handled, frames are sent, a connection is disconnected. Any task may take the
  next step, so an execution is any sequence of steps. A request comes from a connected peer
  and was decoded, hence is valid; identifiers drawn are fresh. (A task whose peer a failed
  dispatch has dropped can still handle a frame it had read; what happens then is the subject
  of the last section of \<open>Service_Properties\<close>.)
\<close>

inductive service_step :: "'q ServiceState \<Rightarrow> 'q ServiceState \<Rightarrow> bool" where
  attach: "service_step st (attach_peer cid (normalize_player_name name) con tx st)"
| request: "hm_contains (peers st) cid \<Longrightarrow> decode_request bs = Inr q \<Longrightarrow> fresh_draws rnd st \<Longrightarrow>
    handle_request W rnd cid q st = Inr ho \<Longrightarrow> service_step st (ho_state ho)"
| send: "send_all W pubs st = (st', failed, closed) \<Longrightarrow> service_step st st'"
| relay: "relay_control W cid bs st = Continue st' closed \<Longrightarrow> service_step st st'"
| leave: "disconnect cid st = (st', pubs) \<Longrightarrow> service_step st st'"

inductive reachable :: "'q ServiceState \<Rightarrow> bool" where
  start: "reachable default_state"
| step: "reachable st \<Longrightarrow> service_step st st' \<Longrightarrow> reachable st'"

lemma normalized_name_ok: "name_ok (normalize_player_name name)"
proof -
  let ?cs = "take 16 (filter (\<lambda>c. \<not> is_control c) (trim_chars (str_chars name)))"
  have wf: "\<forall>c \<in> set ?cs. wf_char c"
    using set_trim_chars str_chars_wf by (fastforce dest: in_set_takeD)
  have "length (concat ?cs) \<le> 4 * length ?cs" using wf by (rule length_concat_chars)
  then have "str_len (collect_chars ?cs) \<le> 64" using wf by (simp add: str_len_def str_bytes_collect_chars)
  moreover have "str_len (lit ''Player'') = 6 \<and> str_bytes (lit ''Player'') \<noteq> []" by code_simp
  ultimately show ?thesis
    by (simp add: name_ok_def normalize_player_name_def Let_def str_is_empty_def str_len_def)
qed

lemma find_peer_Some:
  assumes "state_ok st" and "find_peer target st = Some (pid, peer)"
  shows "hm_get (peers st) pid = Some peer \<and> connection peer = target"
proof -
  from assms(2) obtain i where "i < length (peers st)" "peers st ! i = (pid, peer)" and c: "connection peer = target"
    by (auto simp: find_peer_def find_Some_iff)
  then have "(pid, peer) \<in> set (peers st)" by (metis nth_mem)
  with c show ?thesis by (simp add: map_of_is_SomeI [OF state_okD(2) [OF assms(1)]])
qed

lemma relay_control_ok: "state_ok st \<Longrightarrow> relay_control W cid bs st = Continue st' closed \<Longrightarrow> state_ok st'"
  using find_peer_Some [of st]
  by (auto simp: relay_control_def intro!: requeue_ok split: sum.splits option.splits)

lemma service_step_ok: "service_step st st' \<Longrightarrow> state_ok st \<Longrightarrow> state_ok st'"
proof (induction rule: service_step.induct)
  case (request st cid bs q rnd W ho)
  from request.hyps(2) have "valid_request (request_body q)"
    by (auto simp: decode_request_iff encode_request_def dest: encoded_request_valid)
  from handle_body_ok [OF request.prems this request.hyps(1,3), of W] request.hyps(4) show ?case
    by (auto simp: replies_ok_def handle_request_def)
next
  case (send W pubs st st' failed closed)
  with send_all_ok [of st W pubs] show ?case by simp
next
  case (leave cid st st' pubs)
  with disconnect_ok [of st cid] show ?case by simp
qed (auto simp: attach_peer_ok normalized_name_ok relay_control_ok)

lemma reachable_ok: "reachable st \<Longrightarrow> state_ok st"
  by (induction rule: reachable.induct) (auto simp: default_state_ok service_step_ok)

end
