(* ===== verification/Service_Properties.thy ===== *)
theory Service_Properties
  imports Service_Dispatch
begin

text \<open>
  The properties of the relay service: its invariant over all interleavings of its tasks, the
  absence of panics, who may change what in a room, where frames go and whether they can be
  delivered, the limits it keeps, and the cases where it does not do what it means to.
\<close>

section \<open>A concrete world for the examples\<close>

text \<open>A channel of 32 slots with a byte budget, and a hash that keeps the first 32 bytes.\<close>

definition sample_world :: "(nat \<times> QueuedControl list) world" where
  "sample_world = \<lparr>
     try_acquire_many = (\<lambda>(free, q) n. if n \<le> free then Some (free - n, q) else None),
     mpsc_try_send = (\<lambda>(free, q) c. if length q < 32 then Some (free, q @ [c]) else None),
     sha256 = (\<lambda>bs. take 32 (bs @ replicate 32 0)), now = 0, limit_queue_age = from_secs 20 \<rparr>"

definition sample_draws :: "nat \<Rightarrow> array16" where
  "sample_draws n = array_of (replicate 16 (of_nat n))"

definition sample_create :: RequestBody where
  "sample_create = ReqCreateRoom (lit ''Ana'') (lit ''mp_rust'') (lit ''war'') 6 IW4 IW4 (lit '''')"

text \<open>The service after one peer attached, and after that peer created a room.\<close>

definition attached_state :: "(nat \<times> QueuedControl list) ServiceState" where
  "attached_state = attach_peer 1 (normalize_player_name (lit ''Ana'')) 7 (8388608, []) default_state"

definition hosted_state :: "(nat \<times> QueuedControl list) ServiceState" where
  "hosted_state = (case handle_body sample_world sample_draws 1 sample_create attached_state of
     Reply st body pubs \<Rightarrow> st | Panic st \<Rightarrow> st)"

lemma sample_create_decodes: "\<exists>bs. decode_request bs = Inr \<lparr> request_id = 1, request_body = sample_create \<rparr>"
proof -
  have "\<not> isl (encode_request \<lparr> request_id = 1, request_body = sample_create \<rparr>)" by code_simp
  then show ?thesis unfolding decode_request_iff not_isl_iff by blast
qed

lemma attached_reachable: "reachable attached_state"
  unfolding attached_state_def by (rule reachable.step [OF reachable.start service_step.attach])

lemma attached_peer: "hm_contains (peers attached_state) 1"
  by (simp add: attached_state_def attach_peer_def default_state_def)

lemma attached_fresh: "fresh_draws rnd attached_state"
  by (simp add: fresh_draws_def attached_state_def attach_peer_def default_state_def)

lemma hosted_reachable: "reachable hosted_state"
proof -
  obtain bs where bs: "decode_request bs = Inr \<lparr> request_id = 1, request_body = sample_create \<rparr>"
    using sample_create_decodes by blast
  obtain st body pubs where h: "handle_body sample_world sample_draws 1 sample_create attached_state = Reply st body pubs"
    using handle_body_ok [OF reachable_ok [OF attached_reachable] _ attached_peer attached_fresh, of sample_create]
      encoded_request_valid bs
    by (fastforce simp: decode_request_iff encode_request_def replies_ok_def)
  have "service_step attached_state hosted_state"
    using service_step.request [OF attached_peer bs attached_fresh, of sample_world sample_draws] h
    by (simp add: handle_request_def hosted_state_def)
  with attached_reachable show ?thesis by (rule reachable.step)
qed

definition hosted_room :: Room where
  "hosted_room = snd (hd (rooms hosted_state))"

lemma sample_content:
  "flags_contain KNOWN IW4" "flags_contain IW4 IW4" "flags_empty (missing_from IW4 IW4)"
  "map_content_allowed (lit ''mp_rust'') IW4" "str_is_empty (lit '''')"
  by code_simp+

lemmas hosted_simps = hosted_state_def attached_state_def sample_create_def create_room_def put_room_def
  attach_peer_def default_state_def Let_def sample_content

lemma hosted_rooms: "rooms hosted_state = [(AdvertId (sample_draws 0), hosted_room)]"
  by (simp add: hosted_room_def hosted_simps)

lemma hosted_room_get: "hm_get (rooms hosted_state) (AdvertId (sample_draws 0)) = Some hosted_room"
  by (simp add: hosted_rooms)

lemma hosted_room_facts:
  "host_connection_id hosted_room = 1" "member_of hosted_room = [(1, MemberId (sample_draws 1))]"
  "members (view hosted_room) = [MemberId (sample_draws 1)]" "phase (view hosted_room) = Gathering"
  "connection_of hosted_room = [(MemberId (sample_draws 1), 1)]"
  "rv_map (view hosted_room) = lit ''mp_rust''" "rv_mode (view hosted_room) = lit ''war''"
  "requires (view hosted_room) = IW4" "revision (view hosted_room) = 1"
  "epoch (view hosted_room) = 0" "host (view hosted_room) = MemberId (sample_draws 1)"
  by (simp_all add: hosted_room_def hosted_simps)

lemma hosted_membership: "membership hosted_state = [(1, AdvertId (sample_draws 0))]"
  by (simp add: hosted_simps)

lemma sample_draws_distinct:
  "sample_draws 5 \<noteq> sample_draws 0" "sample_draws 5 \<noteq> sample_draws (Suc 0)"
  by code_simp+

lemma sample_fresh: "fresh_draws (\<lambda>_. sample_draws 5) hosted_state"
  by (simp add: fresh_draws_def hosted_rooms hosted_room_facts sample_draws_distinct)

section \<open>The invariant and the absence of panics\<close>





text \<open>
  In a reachable state every member of a room is a connected peer registered in that room
  and in no other, and the room has at most 18 members.
\<close>

lemma members_connected:
  assumes "reachable st" and "hm_get (rooms st) rid = Some room"
  shows "length (members (view room)) \<le> unat (max_players (view room)) \<and> unat (max_players (view room)) \<le> 18
    \<and> (\<forall>cid mid. hm_get (member_of room) cid = Some mid \<longleftrightarrow> hm_get (connection_of room) mid = Some cid)
    \<and> (\<forall>cid mid. hm_get (member_of room) cid = Some mid \<longrightarrow> mid \<in> set (members (view room)) \<and>
         hm_get (membership st) cid = Some rid \<and> hm_contains (peers st) cid)"
proof -
  have ok: "state_ok st" and rok: "room_ok rid room"
    using assms by (auto intro: reachable_ok state_ok_room)
  have inv: "inverse_maps (hm_get (member_of room)) (hm_get (connection_of room))"
    and v: "view_ok (view room)" and dm: "dom (hm_get (connection_of room)) = set (members (view room))"
    using rok by (simp_all add: room_ok_def)
  have "mid \<in> set (members (view room)) \<and> hm_get (membership st) cid = Some rid \<and> hm_contains (peers st) cid"
    if "hm_get (member_of room) cid = Some mid" for cid mid
    using inverse_mapsD [OF inv that] dm member_membership [OF ok assms(2) that]
      membership_peer [OF ok member_membership [OF ok assms(2) that]] by (auto intro: domI)
  with inv v show ?thesis
    using seats by (auto simp: inverse_maps_def view_ok_def)
qed

section \<open>Who may change a room\<close>

text \<open>What a host sets: everything of a room except who is in it and its revision.\<close>

definition settings :: "Room \<Rightarrow> Room" where
  "settings room = room\<lparr> member_of := [], connection_of := [],
     view := (view room)\<lparr> members := [], member_names := Map.empty, revision := 0 \<rparr> \<rparr>"

lemma settings_drop_member [simp]: "settings (drop_member cid mid room) = settings room"
  by (simp add: settings_def drop_member_def)

lemma put_room_other: "rid' \<noteq> rid \<Longrightarrow> hm_get (rooms (put_room rid room st)) rid' = hm_get (rooms st) rid'"
  by (simp add: put_room_def hm_simps)

lemma bump_room_other: "rid' \<noteq> rid \<Longrightarrow> hm_get (rooms (bump_room rid st)) rid' = hm_get (rooms st) rid'"
  by (simp add: bump_room_def Let_def hm_simps split: option.splits)

text \<open>The other rooms after a reply.\<close>

definition others_kept :: "AdvertId \<Rightarrow> 'q ServiceState \<Rightarrow> 'q handled \<Rightarrow> bool" where
  "others_kept rid st h \<longleftrightarrow> (\<forall>st' body pubs rid'. h = Reply st' body pubs \<longrightarrow> rid' \<noteq> rid \<longrightarrow>
     hm_get (rooms st') rid' = hm_get (rooms st) rid')"

lemma room_updated_others: "others_kept rid st (room_updated rid (put_room rid room st))"
  by (simp add: others_kept_def room_updated_def Let_def index_or_panic_def bump_room_other put_room_other
      split: option.splits)

text \<open>Every room not hosted by the connection is still there with the same settings.\<close>

definition keeps_rooms :: "u64 \<Rightarrow> 'q ServiceState \<Rightarrow> 'q handled \<Rightarrow> bool" where
  "keeps_rooms cid st h \<longleftrightarrow> (\<forall>st' body pubs rid room. h = Reply st' body pubs \<longrightarrow>
     hm_get (rooms st) rid = Some room \<longrightarrow> host_connection_id room \<noteq> cid \<longrightarrow>
     (\<exists>room'. hm_get (rooms st') rid = Some room' \<and> settings room' = settings room))"

lemma keeps_rooms_unchanged [simp]: "keeps_rooms cid st (Reply st body pubs)"
  by (simp add: keeps_rooms_def)

lemma keeps_rooms_panic [simp]: "keeps_rooms cid st (Panic st')"
  by (simp add: keeps_rooms_def)

lemma others_kept_keeps:
  "others_kept rid st h \<Longrightarrow> hm_get (rooms st) rid = Some room \<Longrightarrow> host_connection_id room = cid \<Longrightarrow> keeps_rooms cid st h"
  unfolding others_kept_def keeps_rooms_def by (metis option.inject)

lemma as_host_keeps:
  assumes "\<And>rid room. others_kept rid st (f rid room)"
  shows "keeps_rooms cid st (as_host cid st f)"
proof (cases "host_of cid st")
  case (Inr rid)
  then obtain room where "hm_get (rooms st) rid = Some room" "host_connection_id room = cid"
    by (auto simp: host_of_Inr_iff)
  with others_kept_keeps [OF assms] Inr show ?thesis by (simp add: as_host_def)
qed (simp add: as_host_def)

lemma others_kept_Reply [simp]:
  "others_kept rid st (Reply st' body pubs) \<longleftrightarrow> (\<forall>rid'. rid' \<noteq> rid \<longrightarrow> hm_get (rooms st') rid' = hm_get (rooms st) rid')"
  by (auto simp: others_kept_def)

lemmas host_keeps = room_updated_others bump_room_other put_room_other

lemma host_handlers_keep:
  "keeps_rooms cid st (set_password W rnd cid pw st)"
  "keeps_rooms cid st (set_options cid mp mode jn st)"
  "keeps_rooms cid st (start_match cid mp mode st)"
  "keeps_rooms cid st (end_match cid expected ep st)"
  "keeps_rooms cid st (host_world_ready cid expected ep m wp cl st)"
  unfolding set_password_def set_options_def start_match_def end_match_def host_world_ready_def Let_def
  by (rule as_host_keeps, simp add: host_keeps)+

lemma close_room_other: "rid' \<noteq> rid \<Longrightarrow> hm_get (rooms (fst (close_room rid reason st))) rid' = hm_get (rooms st) rid'"
  by (simp add: close_room_def hm_simps split: option.splits)

lemma remove_member_settings:
  "hm_get (rooms st) rid = Some room \<Longrightarrow>
   \<exists>room'. hm_get (rooms (fst (remove_member cid st))) rid = Some room' \<and> settings room' = settings room"
  by (auto simp: remove_member_def Let_def hm_simps split: option.splits)

lemma leave_room_keeps: "keeps_rooms cid st (leave_room cid st)"
  unfolding keeps_rooms_def leave_room_def
  by (auto simp: close_room_other split: option.splits prod.splits if_splits)
    (metis close_room_other fst_conv option.inject remove_member_settings)+

lemma close_room_request_keeps: "keeps_rooms cid st (close_room_request cid st)"
  unfolding keeps_rooms_def close_room_request_def
  by (auto simp: host_of_Inr_iff split: sum.splits prod.splits) (metis close_room_other fst_conv option.inject)

lemma create_room_keeps: "fresh_draws rnd st \<Longrightarrow> keeps_rooms cid st (create_room W rnd cid nm mp md mx req av pw st)"
  by (auto simp: create_room_def keeps_rooms_def put_room_def Let_def index_or_panic_def hm_simps fresh_draws_def
      split: option.splits)

lemma join_room_keeps: "keeps_rooms cid st (join_room W rnd cid rid hv pw st)"
  by (auto simp: join_room_def keeps_rooms_def put_room_def Let_def index_or_panic_def hm_simps settings_def
      split: option.splits if_splits)

lemma queries_keep:
  "keeps_rooms cid st (population W cid on st)"
  "keeps_rooms cid st (forward_to_host cid event st)"
  "keeps_rooms cid st (send_to_member cid mid ev st)"
  by (auto simp: keeps_rooms_def population_def forward_to_host_def send_to_member_def Let_def
      split: sum.splits option.splits prod.splits)

lemma handle_body_keeps: "fresh_draws rnd st \<Longrightarrow> keeps_rooms cid st (handle_body W rnd cid b st)"
  by (cases b) (simp_all add: host_handlers_keep leave_room_keeps close_room_request_keeps create_room_keeps
      join_room_keeps queries_keep enter_match_def admission_failed_def)

text \<open>
  C6. Only its host changes a room: a request of any other connection leaves the room in place
  with the same map, mode, lock, password, phase, epoch, limits and host; at most its own
  membership changes.
\<close>

theorem only_host_changes_room:
  assumes "fresh_draws rnd st" and "handle_request W rnd cid q st = Inr ho"
    and "hm_get (rooms st) rid = Some room" and "host_connection_id room \<noteq> cid"
  shows "\<exists>room'. hm_get (rooms (ho_state ho)) rid = Some room' \<and> settings room' = settings room"
  using handle_body_keeps [OF assms(1), of cid W "request_body q"] assms(2-)
  by (auto simp: keeps_rooms_def handle_request_def split: handled.splits)

theorem only_host_changes_room_witness:
  "\<exists>ho room'. handle_request sample_world (\<lambda>_. sample_draws 5) 2 \<lparr> request_id = 3, request_body = ReqCloseRoom \<rparr> hosted_state = Inr ho
     \<and> hm_get (rooms (ho_state ho)) (AdvertId (sample_draws 0)) = Some room' \<and> settings room' = settings hosted_room"
proof -
  let ?q = "\<lparr> request_id = 3, request_body = ReqCloseRoom \<rparr> :: ControlRequest" and ?rnd = "\<lambda>_ :: nat. sample_draws 5"
  have "\<not> isl (handle_request sample_world ?rnd 2 ?q hosted_state)"
    by (simp add: handle_request_def close_room_request_def split: sum.splits prod.splits)
  then obtain ho where ho: "handle_request sample_world ?rnd 2 ?q hosted_state = Inr ho"
    unfolding not_isl_iff by blast
  from only_host_changes_room [OF sample_fresh ho hosted_room_get] ho show ?thesis by (auto simp: hosted_room_facts)
qed

section \<open>The phases of a match\<close>

text \<open>
  A match starts from \<open>Gathering\<close> under a new epoch, becomes \<open>Running\<close> or ends under the same
  epoch, and keeps its map and mode.
\<close>

definition match_step :: "RoomView \<Rightarrow> RoomView \<Rightarrow> bool" where
  "match_step v v' \<longleftrightarrow>
     ((phase v' = phase v \<and> epoch v' = epoch v)
      \<or> (phase v = Gathering \<and> phase v' = Loading \<and> epoch v' = bump (epoch v))
      \<or> (in_match (phase v) \<and> epoch v' = epoch v \<and> (phase v' = Running \<or> phase v' = Gathering)))
     \<and> (in_match (phase v) \<longrightarrow> rv_map v' = rv_map v \<and> rv_mode v' = rv_mode v)"

definition room_steps :: "AdvertId \<Rightarrow> 'q ServiceState \<Rightarrow> 'q handled \<Rightarrow> bool" where
  "room_steps rid st h \<longleftrightarrow> (\<forall>st' body pubs room room'. h = Reply st' body pubs \<longrightarrow>
     hm_get (rooms st) rid = Some room \<longrightarrow> hm_get (rooms st') rid = Some room' \<longrightarrow> match_step (view room) (view room'))"

lemma match_step_refl [simp]: "match_step v v"
  by (simp add: match_step_def)

lemma room_steps_simps [simp]: "room_steps rid st (Reply st body pubs)" "room_steps rid st (Panic st')"
  by (simp_all add: room_steps_def)

lemma room_updated_steps:
  "hm_get (rooms st) rid = Some room \<Longrightarrow> match_step (view room) ((view room')\<lparr> revision := bump (revision (view room')) \<rparr>) \<Longrightarrow>
   room_steps rid st (room_updated rid (put_room rid room' st))"
  by (auto simp: room_steps_def room_updated_def Let_def bump_room_get)

lemma as_host_steps:
  assumes "\<And>rid room. hm_get (rooms st) rid = Some room \<Longrightarrow> room_steps rid st (f rid room)"
    and "\<And>rid room. others_kept rid st (f rid room)"
  shows "room_steps rid st (as_host cid st f)"
proof (cases "host_of cid st")
  case (Inr rid')
  then obtain room where r: "hm_get (rooms st) rid' = Some room" by (auto simp: host_of_Inr_iff)
  show ?thesis
    using assms(1) [OF r] assms(2) [of rid' room] Inr r
    by (cases "rid = rid'") (auto simp: as_host_def room_steps_def others_kept_def)
qed (simp add: as_host_def)

lemma host_handlers_step:
  "room_steps rid st (set_password W rnd cid pw st)"
  "room_steps rid st (set_options cid mp mode jn st)"
  "room_steps rid st (start_match cid mp mode st)"
  "room_steps rid st (end_match cid expected ep st)"
  "room_steps rid st (host_world_ready cid expected ep m wp cl st)"
  unfolding set_password_def set_options_def start_match_def end_match_def host_world_ready_def Let_def
  by (rule as_host_steps;
      auto simp: host_keeps room_steps_def bump_room_get match_step_def options_refused_def stale_report_def
        room_updated_def Let_def in_match_def)+

lemma settings_match_step: "settings room' = settings room \<Longrightarrow> match_step (view room) (view room')"
  by (cases room; cases room'; cases "view room"; cases "view room'") (simp add: settings_def match_step_def)

lemma close_room_step:
  "hm_get (rooms st) rid = Some room \<Longrightarrow> hm_get (rooms (fst (close_room rid' reason st))) rid = Some room' \<Longrightarrow>
   match_step (view room) (view room')"
  by (cases "rid = rid'") (auto simp: close_room_other close_room_def hm_simps split: option.splits)

lemma remove_member_step:
  "hm_get (rooms st) rid = Some room \<Longrightarrow> hm_get (rooms (fst (remove_member cid st))) rid = Some room' \<Longrightarrow>
   match_step (view room) (view room')"
  using remove_member_settings [of st rid room cid] by (auto intro: settings_match_step)

lemma leave_room_steps: "room_steps rid st (leave_room cid st)"
  unfolding room_steps_def leave_room_def
  by (auto split: option.splits prod.splits if_splits) (metis fst_conv close_room_step remove_member_step)+

lemma close_room_request_steps: "room_steps rid st (close_room_request cid st)"
  unfolding room_steps_def close_room_request_def
  by (auto split: sum.splits prod.splits) (metis fst_conv close_room_step)

lemma create_room_steps: "fresh_draws rnd st \<Longrightarrow> room_steps rid st (create_room W rnd cid nm mp md mx req av pw st)"
  by (auto simp: create_room_def room_steps_def put_room_def Let_def index_or_panic_def hm_simps fresh_draws_def
      split: option.splits if_splits)

lemma join_room_steps: "room_steps rid st (join_room W rnd cid rid' hv pw st)"
  by (auto simp: join_room_def room_steps_def put_room_def Let_def index_or_panic_def hm_simps match_step_def
      split: option.splits if_splits)

lemma queries_step:
  "room_steps rid st (population W cid on st)"
  "room_steps rid st (forward_to_host cid event st)"
  "room_steps rid st (send_to_member cid mid ev st)"
  by (auto simp: room_steps_def population_def forward_to_host_def send_to_member_def Let_def
      split: sum.splits option.splits prod.splits)

lemma handle_body_steps: "fresh_draws rnd st \<Longrightarrow> room_steps rid st (handle_body W rnd cid b st)"
  by (cases b) (simp_all add: host_handlers_step leave_room_steps close_room_request_steps create_room_steps
      join_room_steps queries_step enter_match_def admission_failed_def)

text \<open>
  C5. The phase of a room follows the match protocol under every request: a match is loaded
  from gathering under a fresh epoch, runs or ends under that epoch, and keeps its map and mode
  until it is over.
\<close>

theorem match_protocol:
  assumes "fresh_draws rnd st" and "handle_request W rnd cid q st = Inr ho"
    and "hm_get (rooms st) rid = Some room" and "hm_get (rooms (ho_state ho)) rid = Some room'"
  shows "match_step (view room) (view room')"
  using handle_body_steps [OF assms(1), of rid W cid "request_body q"] assms(2-)
  by (auto simp: room_steps_def handle_request_def split: handled.splits)

text \<open>The service after the host started the match.\<close>

definition started_room :: Room where
  "started_room = hosted_room\<lparr> view := (view hosted_room)\<lparr> epoch := 1, phase := Loading, revision := 2 \<rparr> \<rparr>"

definition start_request :: ControlRequest where
  "start_request = \<lparr> request_id = 2, request_body = ReqStartMatch (lit ''mp_rust'') (lit ''war'') \<rparr>"

lemma start_sample:
  "\<exists>ho. handle_request sample_world (\<lambda>_. sample_draws 5) 1 start_request hosted_state = Inr ho
     \<and> hm_get (rooms (ho_state ho)) (AdvertId (sample_draws 0)) = Some started_room"
proof -
  have host: "host_of 1 hosted_state = Inr (AdvertId (sample_draws 0))"
    by (simp add: host_of_Inr_iff hosted_membership hosted_room_get hosted_room_facts)
  have "bump (0 :: u32) = 1 \<and> bump (1 :: u64) = 2" by code_simp
  moreover have "(view hosted_room)\<lparr> rv_map := lit ''mp_rust'', rv_mode := lit ''war'' \<rparr> = view hosted_room"
    by (rule RoomView.equality) (simp_all add: hosted_room_facts)
  ultimately show ?thesis
    by (simp add: handle_request_def start_request_def start_match_def as_host_def host hosted_room_get
        options_refused_def hosted_room_facts sample_content in_match_def Let_def room_updated_def bump_room_get
        started_room_def)
qed

theorem match_protocol_witness:
  "match_step (view hosted_room) (view started_room) \<and> phase (view started_room) = Loading"
proof -
  obtain ho where "handle_request sample_world (\<lambda>_. sample_draws 5) 1 start_request hosted_state = Inr ho"
    "hm_get (rooms (ho_state ho)) (AdvertId (sample_draws 0)) = Some started_room"
    using start_sample by blast
  from match_protocol [OF sample_fresh this(1) hosted_room_get this(2)] show ?thesis
    by (simp add: started_room_def)
qed

section \<open>Where frames go\<close>

definition same_room :: "'q ServiceState \<Rightarrow> u64 \<Rightarrow> u64 \<Rightarrow> bool" where
  "same_room st a b \<longleftrightarrow> (\<exists>rid. hm_get (membership st) a = Some rid \<and> hm_get (membership st) b = Some rid)"

definition targets_in_room :: "u64 \<Rightarrow> 'q ServiceState \<Rightarrow> 'q handled \<Rightarrow> bool" where
  "targets_in_room cid st h \<longleftrightarrow> (\<forall>st' body pubs t f. h = Reply st' body pubs \<longrightarrow> (t, f) \<in> set pubs \<longrightarrow>
     same_room st cid t \<or> same_room st' cid t)"

lemma targets_in_roomD:
  "targets_in_room cid st (Reply st' body pubs) \<Longrightarrow> (t, f) \<in> set pubs \<Longrightarrow> same_room st cid t \<or> same_room st' cid t"
  unfolding targets_in_room_def by blast

lemma targets_simps [simp]:
  "targets_in_room cid st (Reply st' body [])" "targets_in_room cid st (Panic st')"
  by (simp_all add: targets_in_room_def)

text \<open>All frames go to members of the room \<open>rid\<close>.\<close>

definition to_members :: "AdvertId \<Rightarrow> 'q ServiceState \<Rightarrow> publishes \<Rightarrow> bool" where
  "to_members rid st pubs \<longleftrightarrow> (\<forall>t f. (t, f) \<in> set pubs \<longrightarrow>
     (\<exists>room mid. hm_get (rooms st) rid = Some room \<and> hm_get (member_of room) t = Some mid))"

lemma in_keysD: "(t, v) \<in> set m \<Longrightarrow> \<exists>w. hm_get m t = Some w"
  by (metis domD hm.set_keys image_eqI fst_conv list.set_map)

lemma publish_view_members: "to_members rid st (publish_view rid st)"
  by (cases "hm_get (rooms st) rid") (auto simp: to_members_def publish_view_def dest: in_keysD)

lemma to_members_append [simp]: "to_members rid st (ps @ qs) \<longleftrightarrow> to_members rid st ps \<and> to_members rid st qs"
  by (auto simp: to_members_def)

lemma to_members_Nil [simp]: "to_members rid st []"
  by (simp add: to_members_def)

lemma to_members_membership:
  "state_ok st \<Longrightarrow> to_members rid st pubs \<Longrightarrow> (t, f) \<in> set pubs \<Longrightarrow> hm_get (membership st) t = Some rid"
  unfolding to_members_def by (blast intro: member_membership)

lemma membership_put_room [simp]: "membership (put_room rid room st) = membership st"
  by (simp add: put_room_def)

lemma membership_bump_room [simp]: "membership (bump_room rid st) = membership st"
  by (simp add: bump_room_def Let_def split: option.splits)

text \<open>The reply of a host operation publishes to the host's room and keeps the membership.\<close>

definition room_reply :: "AdvertId \<Rightarrow> 'q ServiceState \<Rightarrow> 'q handled \<Rightarrow> bool" where
  "room_reply rid st h \<longleftrightarrow> (\<forall>st' body pubs. h = Reply st' body pubs \<longrightarrow>
     membership st' = membership st \<and> to_members rid st' pubs)"

lemma room_reply_simps [simp]:
  "room_reply rid st (Panic st')"
  "room_reply rid st (Reply st' body pubs) \<longleftrightarrow> membership st' = membership st \<and> to_members rid st' pubs"
  by (auto simp: room_reply_def)

lemma room_updated_reply: "room_reply rid st (room_updated rid (put_room rid room st))"
  by (simp add: room_updated_def Let_def bump_room_get publish_view_members)

lemma as_host_targets:
  assumes "replies_ok (as_host cid st f)" and "\<And>rid room. room_reply rid st (f rid room)"
  shows "targets_in_room cid st (as_host cid st f)"
proof (cases "host_of cid st")
  case (Inr rid)
  then obtain room where r: "hm_get (rooms st) rid = Some room" and m: "hm_get (membership st) cid = Some rid"
    by (auto simp: host_of_Inr_iff)
  then have h: "as_host cid st f = f rid room" by (simp add: as_host_def Inr)
  show ?thesis
    using assms(1) assms(2) [of rid room] m unfolding h targets_in_room_def room_reply_def
    by (fastforce simp: same_room_def dest: to_members_membership)
qed (simp add: as_host_def)

lemma event_members: "hm_get (rooms st) rid = Some room \<Longrightarrow> to_members rid st (map (\<lambda>p. (p, e)) (hm_keys (member_of room)))"
  by (auto simp: to_members_def dest: in_keysD)

lemma host_handlers_target:
  assumes "state_ok st"
  shows "targets_in_room cid st (set_password W rnd cid pw st)"
    and "validate_map_mode mp mode = Inr () \<Longrightarrow> targets_in_room cid st (set_options cid mp mode jn st)"
    and "validate_map_mode mp mode = Inr () \<Longrightarrow> targets_in_room cid st (start_match cid mp mode st)"
    and "targets_in_room cid st (end_match cid expected ep st)"
    and "targets_in_room cid st (host_world_ready cid expected ep m wp cl st)"
  using handlers_ok(1-5) [OF assms]
  unfolding set_password_def set_options_def start_match_def end_match_def host_world_ready_def Let_def
  by (auto intro!: as_host_targets simp: room_updated_reply publish_view_members event_members
      simp del: map_map split: option.splits)

lemma close_room_targets:
  "hm_get (membership st) cid = Some rid \<Longrightarrow> state_ok st \<Longrightarrow> (t, f) \<in> set (snd (close_room rid reason st)) \<Longrightarrow> same_room st cid t"
  by (auto simp: close_room_def same_room_def dest!: in_keysD intro: member_membership split: option.splits)

lemma remove_member_targets:
  assumes "hm_get (membership st) cid = Some rid" and "state_ok st" and "(t, f) \<in> set (snd (remove_member cid st))"
  shows "same_room st cid t"
  using assms
  by (auto simp: remove_member_def same_room_def Let_def publish_view_def drop_member_def hm_simps
      dest!: in_keysD intro: member_membership split: option.splits if_splits)

lemma leave_room_targets: "state_ok st \<Longrightarrow> targets_in_room cid st (leave_room cid st)"
  unfolding targets_in_room_def leave_room_def
  by (auto split: option.splits prod.splits if_splits) (metis snd_conv close_room_targets remove_member_targets)+

lemma close_room_request_targets: "state_ok st \<Longrightarrow> targets_in_room cid st (close_room_request cid st)"
  unfolding targets_in_room_def close_room_request_def
  by (auto simp: host_of_Inr_iff split: sum.splits prod.splits) (metis snd_conv close_room_targets)

lemma create_room_targets: "targets_in_room cid st (create_room W rnd cid nm mp md mx req av pw st)"
  by (auto simp: create_room_def targets_in_room_def same_room_def Let_def index_or_panic_def hm_simps
      split: option.splits if_splits)

lemma join_room_targets:
  assumes "state_ok st" and "fresh_draws rnd st" and "hm_contains (peers st) cid"
  shows "targets_in_room cid st (join_room W rnd cid rid hv pw st)"
  unfolding targets_in_room_def
proof (intro allI impI)
  fix st' body pubs t f
  assume h: "join_room W rnd cid rid hv pw st = Reply st' body pubs" and t: "(t, f) \<in> set pubs"
  have ok: "state_ok st'" using join_room_ok [OF assms, of W rid hv pw] h by simp
  from h t have p: "pubs = publish_view rid st'" and m: "hm_get (membership st') cid = Some rid"
    by (auto simp: join_room_def Let_def index_or_panic_def hm_simps split: option.splits if_splits)
  from to_members_membership [OF ok publish_view_members] t m show "same_room st cid t \<or> same_room st' cid t"
    by (auto simp: same_room_def p)
qed

lemma events_target:
  assumes "state_ok st"
  shows "targets_in_room cid st (forward_to_host cid event st)"
    and "targets_in_room cid st (send_to_member cid mid ev st)"
proof -
  show "targets_in_room cid st (forward_to_host cid event st)"
    using host_membership [OF assms]
    by (auto simp: targets_in_room_def forward_to_host_def state_member_of_def same_room_def
        split: sum.splits option.splits prod.splits)
next
  have "hm_get (membership st) t = Some rid"
    if "hm_get (rooms st) rid = Some room" "hm_get (connection_of room) mid = Some t" for rid room t
  proof -
    have "inverse_maps (hm_get (member_of room)) (hm_get (connection_of room))"
      using state_ok_room [OF assms that(1)] by (simp add: room_ok_def)
    then have "hm_get (member_of room) t = Some mid" using that(2) by (rule inverse_mapsD2)
    with assms that(1) show ?thesis by (rule member_membership)
  qed
  then show "targets_in_room cid st (send_to_member cid mid ev st)"
    by (auto simp: targets_in_room_def send_to_member_def host_of_Inr_iff same_room_def
        split: sum.splits option.splits)
qed

lemma population_targets: "targets_in_room cid st (population W cid on st)"
  by (simp add: population_def Let_def)

lemma handle_body_targets:
  assumes "state_ok st" and "valid_request b" and "hm_contains (peers st) cid" and "fresh_draws rnd st"
  shows "targets_in_room cid st (handle_body W rnd cid b st)"
  using assms by (cases b) (simp_all add: host_handlers_target leave_room_targets close_room_request_targets
      create_room_targets join_room_targets events_target population_targets enter_match_def admission_failed_def)

text \<open>
  C7. What a request makes the service send stays in the room: every frame published goes to a
  connection that is, before or after the request, a member of the same room as the requester.
\<close>

theorem publishes_stay_in_room:
  assumes "reachable st" and "hm_contains (peers st) cid" and "decode_request bs = Inr q" and "fresh_draws rnd st"
    and "handle_request W rnd cid q st = Inr ho" and "(t, frame) \<in> set (ho_publishes ho)"
  shows "same_room st cid t \<or> same_room (ho_state ho) cid t"
proof -
  from assms(3) have "valid_request (request_body q)"
    by (auto simp: decode_request_iff encode_request_def dest: encoded_request_valid)
  from handle_body_targets [OF reachable_ok [OF assms(1)] this assms(2,4), of W] assms(5,6) show ?thesis
    by (cases "handle_body W rnd cid (request_body q) st") (auto simp: handle_request_def dest: targets_in_roomD)
qed

theorem publishes_stay_in_room_witness:
  "\<exists>ho t frame. handle_request sample_world sample_draws 1 \<lparr> request_id = 1, request_body = sample_create \<rparr> attached_state = Inr ho
     \<and> (t, frame) \<in> set (ho_publishes ho) \<and> (same_room attached_state 1 t \<or> same_room (ho_state ho) 1 t)"
proof -
  let ?q = "\<lparr> request_id = 1, request_body = sample_create \<rparr> :: ControlRequest"
  obtain bs where bs: "decode_request bs = Inr ?q" using sample_create_decodes by blast
  have "\<exists>ho frame. handle_request sample_world sample_draws 1 ?q attached_state = Inr ho \<and> (1, frame) \<in> set (ho_publishes ho)"
    by (simp add: handle_request_def hosted_simps)
  then obtain ho frame where ho: "handle_request sample_world sample_draws 1 ?q attached_state = Inr ho"
    and p: "(1, frame) \<in> set (ho_publishes ho)" by blast
  from publishes_stay_in_room [OF attached_reachable attached_peer bs attached_fresh ho p] ho p show ?thesis by blast
qed

section \<open>A peer that was dropped\<close>

text \<open>
  C39. A join of a peer that is no longer connected leaves a ghost. A task whose peer another task's
  dispatch has dropped can still handle the frame it had read; when that is a join which the room
  admits, the handler panics on the missing peer after it entered the member into the room. The
  member then fills a place of the room, is in no membership table, and the disconnect that ends the
  task does not remove it.
\<close>

theorem dropped_peer_leaves_ghost:
  assumes "reachable st" and "hm_get (peers st) cid = None" and "hm_get (rooms st) rid = Some room" and "password room = None"
    and "allows_join_request (advert (view room))" and "flags_empty (missing_from (requires (view room)) hv)"
    and "length (members (view room)) < unat (max_players (view room))"
  shows "\<exists>st' room'. join_room W rnd cid rid hv pw st = Panic st' \<and> hm_get (rooms st') rid = Some room'
    \<and> members (view room') = members (view room) @ [MemberId (rnd 0)] \<and> hm_get (member_of room') cid = Some (MemberId (rnd 0))
    \<and> hm_get (membership st') cid = None \<and> \<not> state_ok st' \<and> disconnect cid st' = (st', [])"
proof -
  note ok = reachable_ok [OF assms(1)]
  have m: "hm_get (membership st) cid = None"
    using membership_peer [OF ok, of cid] assms(2) by (cases "hm_get (membership st) cid") auto
  define room' where "room' = room\<lparr> member_of := hm_insert cid (MemberId (rnd 0)) (member_of room),
    connection_of := hm_insert (MemberId (rnd 0)) cid (connection_of room),
    view := (view room)\<lparr> members := members (view room) @ [MemberId (rnd 0)] \<rparr> \<rparr>"
  define st' where "st' = put_room rid room' st"
  have j: "join_room W rnd cid rid hv pw st = Panic st'"
    using assms m by (simp add: join_room_def st'_def room'_def Let_def index_or_panic_def put_room_def)
  have r: "hm_get (rooms st') rid = Some room'" "hm_get (membership st') cid = None" "peers st' = peers st"
    using m by (simp_all add: st'_def put_room_def hm_simps)
  have g: "hm_get (member_of room') cid = Some (MemberId (rnd 0))" by (simp add: room'_def hm_simps)
  have "\<not> state_ok st'" using member_membership [OF _ r(1) g] r(2) by auto
  moreover have "hm_remove cid (peers st) = peers st"
    using assms(2) by (simp add: delete_id map_of_eq_None_iff)
  then have "disconnect cid st' = (st', [])" using r by (simp add: disconnect_def Let_def)
  ultimately show ?thesis using j r g by (auto simp: room'_def)
qed

theorem dropped_peer_leaves_ghost_witness:
  "\<exists>st' room'. join_room sample_world (\<lambda>_. sample_draws 5) 2 (AdvertId (sample_draws 0)) IW4 (lit '''') hosted_state = Panic st'
    \<and> hm_get (rooms st') (AdvertId (sample_draws 0)) = Some room' \<and> hm_contains (member_of room') 2 \<and> \<not> state_ok st'"
proof -
  have "hm_get (peers hosted_state) 2 = None" "password hosted_room = None" "allows_join_request (advert (view hosted_room))"
    "flags_empty (missing_from (requires (view hosted_room)) IW4)" "length (members (view hosted_room)) < unat (max_players (view hosted_room))"
    by (simp_all add: hosted_simps hosted_room_def allows_join_request_def request_join_allowed_def advert_def)
  from dropped_peer_leaves_ghost [OF hosted_reachable this(1) hosted_room_get this(2-), of sample_world "\<lambda>_. sample_draws 5" "lit ''''"]
  show ?thesis by auto
qed

end
