(* ===== verification/Service_Delivery.thy ===== *)
theory Service_Delivery
  imports Service_Properties
begin

text \<open>
  Delivery and limits of the relay service: the recursion of \<open>dispatch_publishes\<close>, what a peer
  receives, whether frames can be encoded at all, routing and the relay gate, passwords, the
  room list, the population, connections per address, and bootstrap transfers.
\<close>

section \<open>Dispatch\<close>


text \<open>
  C8. A connected peer gets all the frames published to it, in order, or is dropped: when its
  queue accepts them all, they are in the queue after the sending loop; when it refuses one,
  the peer is gone when the dispatch is over.
\<close>

theorem dispatch_delivers_or_drops:
  assumes "hm_get (peers st) cid = Some peer"
  shows "case offer_all W (frames_for cid pubs) (control_tx peer) of
      None \<Rightarrow> hm_get (peers (fst (dispatch_publishes W pubs st))) cid = None
    | Some q \<Rightarrow> hm_get (peers (fst (send_all W pubs st))) cid = Some (peer\<lparr> control_tx := q \<rparr>)"
proof -
  obtain st' failed closed where s: "send_all W pubs st = (st', failed, closed)" by (cases "send_all W pubs st") auto
  note d = send_all_delivers [OF s assms]
  show ?thesis
  proof (cases "offer_all W (frames_for cid pubs) (control_tx peer)")
    case None
    with d have "Disconnect cid \<in> set (map Disconnect failed)" by auto
    from drain_disconnected [OF this, of W st'] None show ?thesis
      by (cases "drain W (map Disconnect failed) st'") (simp add: dispatch_publishes_def s)
  next
    case (Some q)
    with d s show ?thesis by simp
  qed
qed

theorem dispatch_delivers_or_drops_witness:
  "hm_get (peers (fst (dispatch_publishes sample_world [(1, FrRelay (replicate 16368 0))] attached_state))) 1 = None"
proof -
  obtain peer where p: "hm_get (peers attached_state) 1 = Some peer" using attached_peer by blast
  have "offer_all sample_world (frames_for 1 [(1, FrRelay (replicate 16368 0))]) (control_tx peer) = None"
    by (simp add: frames_for_def try_send_def encode_stream_frame_def)
  with dispatch_delivers_or_drops [OF p, of sample_world "[(1, FrRelay (replicate 16368 0))]"] show ?thesis by simp
qed

section \<open>Frames that encode\<close>

lemma w_string_encodes: "str_len s \<le> mx \<Longrightarrow> mx \<le> 255 \<Longrightarrow> \<exists>bs. w_string mx s = Inr bs \<and> length bs \<le> Suc mx"
  by (simp add: w_string_def str_len_def)

lemma members_encode:
  "\<forall>m \<in> set ms. \<exists>n. names m = Some n \<and> name_ok n \<Longrightarrow>
   \<exists>bs. wseq (map (encode_member names) ms) = Inr bs \<and> length bs \<le> 81 * length ms"
proof (induction ms)
  case (Cons m ms)
  then obtain n where n: "names m = Some n" "str_len n \<le> 64" by (auto simp: name_ok_def)
  from w_string_encodes [OF n(2)] obtain a where a: "w_string 64 n = Inr a" "length a \<le> 65" by auto
  from Cons obtain b where "wseq (map (encode_member names) ms) = Inr b" "length b \<le> 81 * length ms" by auto
  moreover from a n have "encode_member names m = Inr (array_bytes (member_raw m) @ a)"
    by (simp add: encode_member_def)
  ultimately show ?case using a(2) by simp
qed simp

lemma view_encodes:
  assumes "view_ok v"
  shows "\<exists>bs. encode_room_view v = Inr bs \<and> length bs \<le> 1660"
proof -
  have va: "validate_advert (rv_name v) (rv_map v) (rv_mode v) (max_players v) = Inr ()"
    using assms by (simp add: view_ok_def)
  then have len: "str_len (rv_name v) \<le> 48" "str_len (rv_map v) \<le> 64" "str_len (rv_mode v) \<le> 24"
    by (auto simp: validate_advert_def split: if_splits)
  have "length (members v) \<le> 18" using assms seats [OF va] by (auto simp: view_ok_def)
  have "\<forall>m \<in> set (members v). \<exists>n. member_names v m = Some n \<and> name_ok n"
    using assms unfolding view_ok_def by (metis domD ranI)
  from members_encode [OF this] obtain bs where
    bs: "wseq (map (encode_member (member_names v)) (members v)) = Inr bs" "length bs \<le> 81 * length (members v)" by blast
  from w_string_encodes [OF len(1)] w_string_encodes [OF len(2)] w_string_encodes [OF len(3)]
  obtain a b c where "w_string 48 (rv_name v) = Inr a" "length a \<le> 49" "w_string 64 (rv_map v) = Inr b" "length b \<le> 65"
    "w_string 24 (rv_mode v) = Inr c" "length c \<le> 25" by auto
  with bs va \<open>length (members v) \<le> 18\<close> show ?thesis
    by (simp add: encode_room_view_def w_check_def split: if_splits del: wseq.simps(2)) simp
qed

text \<open>The views a frame or a response carries.\<close>

fun body_views :: "ResponseBody \<Rightarrow> RoomView list" where
  "body_views (RespRoomCreated m v) = [v]"
| "body_views (RespRoomJoined m v) = [v]"
| "body_views (RespRoomUpdated v) = [v]"
| "body_views p = []"

fun frame_views :: "ControlFrame \<Rightarrow> RoomView list" where
  "frame_views (FrRoomView v) = [v]"
| "frame_views (FrResponse p) = body_views (response_body p)"
| "frame_views f = []"

definition is_event :: "ControlFrame \<Rightarrow> bool" where
  "is_event f \<longleftrightarrow> (case f of FrRoomView v \<Rightarrow> True | FrClosed a b c \<Rightarrow> True | FrPeerEvent e \<Rightarrow> True | _ \<Rightarrow> False)"

lemma message_encodes: "length body \<le> 16000 \<Longrightarrow> \<exists>bs. encode_message t rid body = Inr bs \<and> length bs \<le> 16384"
  by (simp add: encode_message_def MAGIC_def)

lemma encodes_stream:
  assumes "encode_control_frame f = Inr bs"
  shows "\<exists>out. encode_stream_frame f = Inr out"
  using assms control_frame_length [OF assms] by (simp add: encode_stream_frame_def)

lemma peer_event_encodes: "\<exists>bs. encode_peer_event e = Inr bs \<and> length bs \<le> 100"
proof (cases e)
  case (EvAdmissionFailed mid ep why)
  then show ?thesis by (cases why) simp_all
qed simp_all

lemma event_encodes:
  assumes "is_event f" and "\<forall>v \<in> set (frame_views f). view_ok v"
  shows "\<exists>out. encode_stream_frame f = Inr out"
proof -
  have "\<exists>bs. encode_control_frame f = Inr bs"
  proof (cases f)
    case (FrRoomView v)
    with assms view_encodes [of v] obtain b where b: "encode_room_view v = Inr b" "length b \<le> 1660" by auto
    from message_encodes [of b 3 0] b FrRoomView show ?thesis by auto
  next
    case (FrPeerEvent e)
    from peer_event_encodes [of e] obtain b where b: "encode_peer_event e = Inr b" "length b \<le> 100" by blast
    from message_encodes [of b 5 0] b FrPeerEvent show ?thesis by auto
  next
    case (FrClosed a b c)
    then show ?thesis by (simp add: encode_closed_def encode_message_def)
  qed (use assms in \<open>simp_all add: is_event_def\<close>)
  with encodes_stream show ?thesis by blast
qed

fun is_list :: "ResponseBody \<Rightarrow> bool" where
  "is_list (RespRoomList g ads) = True"
| "is_list _ = False"

lemma body_encodes:
  assumes "\<not> is_list p" and "\<forall>v \<in> set (body_views p). view_ok v"
  shows "\<exists>bs. encode_response_body p = Inr bs \<and> length bs \<le> 1700"
proof (cases p)
  case (RespError e)
  then show ?thesis by (cases e) simp_all
qed (use assms view_encodes in \<open>fastforce+\<close>)

lemma response_encodes:
  assumes "\<not> is_list (response_body p)" and "\<forall>v \<in> set (body_views (response_body p)). view_ok v"
  shows "\<exists>out. encode_stream_frame (FrResponse p) = Inr out"
proof -
  from body_encodes [OF assms] obtain b where b: "encode_response_body (response_body p) = Inr b" "length b \<le> 1700" by blast
  from message_encodes [of b 2 "response_id p"] b have "\<exists>bs. encode_control_frame (FrResponse p) = Inr bs" by auto
  with encodes_stream show ?thesis by blast
qed

text \<open>Frames and replies whose views are well formed.\<close>

definition pubs_fit :: "publishes \<Rightarrow> bool" where
  "pubs_fit pubs \<longleftrightarrow> (\<forall>(t, f) \<in> set pubs. is_event f \<and> (\<forall>v \<in> set (frame_views f). view_ok v))"

definition reply_fits :: "'q handled \<Rightarrow> bool" where
  "reply_fits h \<longleftrightarrow> (\<forall>st' body pubs. h = Reply st' body pubs \<longrightarrow>
     (\<forall>v \<in> set (body_views body). view_ok v) \<and> pubs_fit pubs)"

lemma pubs_fit_simps [simp]:
  "pubs_fit []" "pubs_fit (ps @ qs) \<longleftrightarrow> pubs_fit ps \<and> pubs_fit qs"
  "pubs_fit [(t, FrRoomView v)] \<longleftrightarrow> view_ok v" "pubs_fit [(t, FrPeerEvent e)]"
  by (auto simp: pubs_fit_def is_event_def)

lemma pubs_fit_keys:
  "pubs_fit (map (\<lambda>c. (c, FrPeerEvent e)) ks)" "pubs_fit (map (\<lambda>c. (c, FrClosed rid ep why)) ks)"
  "view_ok v \<Longrightarrow> pubs_fit (map (\<lambda>c. (c, FrRoomView v)) ks)"
  by (auto simp: pubs_fit_def is_event_def)

lemma reply_fits_simps [simp]:
  "reply_fits (Panic st)"
  "reply_fits (Reply st body pubs) \<longleftrightarrow> (\<forall>v \<in> set (body_views body). view_ok v) \<and> pubs_fit pubs"
  by (simp_all add: reply_fits_def)

lemma room_view_ok: "state_ok st \<Longrightarrow> hm_get (rooms st) rid = Some room \<Longrightarrow> view_ok (view room)"
  by (auto simp: room_ok_def dest: state_ok_room)

lemma publish_view_fits: "state_ok st \<Longrightarrow> pubs_fit (publish_view rid st)"
  by (auto simp: publish_view_def pubs_fit_keys room_view_ok simp del: map_map split: option.splits)

lemma room_updated_fits:
  assumes "replies_ok (room_updated rid st)"
  shows "reply_fits (room_updated rid st)"
proof (cases "hm_get (rooms (bump_room rid st)) rid")
  case (Some room)
  then have h: "room_updated rid st = Reply (bump_room rid st) (RespRoomUpdated (view room)) (publish_view rid (bump_room rid st))"
    by (simp add: room_updated_def Let_def)
  with assms have ok: "state_ok (bump_room rid st)" by simp
  from publish_view_fits [OF this] room_view_ok [OF this Some] show ?thesis unfolding h by simp
qed (simp add: room_updated_def Let_def)

lemma as_host_fits:
  assumes "\<And>rid room. hm_get (rooms st) rid = Some room \<Longrightarrow> host_connection_id room = cid \<Longrightarrow> reply_fits (f rid room)"
  shows "reply_fits (as_host cid st f)"
  using assms by (auto simp: as_host_def host_of_Inr_iff split: sum.splits)

context room_update
begin

lemma updated_fits:
  "state_ok st \<Longrightarrow> hm_get (rooms st) rid = Some room \<Longrightarrow> pre room \<Longrightarrow>
   reply_fits (room_updated rid (put_room rid (upd room) st))"
  by (intro room_updated_fits updated_replies)

lemma put_view_ok:
  assumes "state_ok st" and "hm_get (rooms st) rid = Some room" and "pre room"
  shows "view_ok (view (upd room))"
  using upd_ok [OF state_ok_room [OF assms(1,2)] assms(3)] by (simp add: room_ok_def)

lemma bumped_fits:
  assumes "state_ok st" and "hm_get (rooms st) rid = Some room" and "pre room"
  shows "pubs_fit (publish_view rid (bump_room rid (put_room rid (upd room) st)))"
  by (rule publish_view_fits [OF bump_room_ok [OF put_ok [OF assms]]])

end

lemma set_password_fits: "state_ok st \<Longrightarrow> reply_fits (set_password W rnd cid pw st)"
  unfolding set_password_def Let_def by (rule as_host_fits, rule password_update.updated_fits) simp_all

lemma set_options_fits:
  "state_ok st \<Longrightarrow> validate_map_mode mp mode = Inr () \<Longrightarrow> reply_fits (set_options cid mp mode jn st)"
  unfolding set_options_def by (auto intro!: as_host_fits options_update.updated_fits)

lemma start_match_fits:
  assumes "state_ok st" and "validate_map_mode mp mode = Inr ()"
  shows "reply_fits (start_match cid mp mode st)"
  unfolding start_match_def Let_def
  using rename_update.put_view_ok [OF assms(1)] assms
  by (auto intro!: as_host_fits start_update.updated_fits)

lemma end_match_fits: "state_ok st \<Longrightarrow> reply_fits (end_match cid expected ep st)"
  unfolding end_match_def Let_def by (auto intro!: as_host_fits phase_update.bumped_fits)

lemma host_world_ready_fits: "state_ok st \<Longrightarrow> reply_fits (host_world_ready cid expected ep mp wp cl st)"
  unfolding host_world_ready_def Let_def
  by (auto intro!: as_host_fits phase_update.bumped_fits pubs_fit_keys dest: stale_report_epoch
      simp del: map_map split: option.splits)

lemma close_room_fits: "pubs_fit (snd (close_room rid reason st))"
  by (simp add: close_room_def pubs_fit_keys del: map_map split: option.splits)

lemma remove_member_fits: "state_ok (fst (remove_member cid st)) \<Longrightarrow> pubs_fit (snd (remove_member cid st))"
  by (auto simp: remove_member_def Let_def publish_view_fits split: option.splits)

lemma leave_room_fits:
  assumes "state_ok st"
  shows "reply_fits (leave_room cid st)"
proof (cases "hm_get (membership st) cid")
  case None
  then show ?thesis by (simp add: leave_room_def)
next
  case (Some rid)
  from membership_room [OF assms Some] obtain room where r: "hm_get (rooms st) rid = Some room" by blast
  show ?thesis
    using close_room_fits [of rid HostLeft st]
      remove_member_fits [OF remove_member_ok [OF assms not_host_elsewhere [OF assms Some r]]]
    by (auto simp: leave_room_def Some r split: prod.splits)
qed

lemma close_room_request_fits: "reply_fits (close_room_request cid st)"
  using close_room_fits [of _ HostLeft st]
  by (auto simp: close_room_request_def split: sum.splits prod.splits) (metis snd_conv)

lemma create_room_fits:
  assumes "state_ok st" and "fresh_draws rnd st" and "hm_contains (peers st) cid"
    and "validate_advert nm mp md mx = Inr ()"
  shows "reply_fits (create_room W rnd cid nm mp md mx req av pw st)"
  unfolding reply_fits_def
proof (intro allI impI)
  fix st' body pubs
  assume h: "create_room W rnd cid nm mp md mx req av pw st = Reply st' body pubs"
  have ok: "state_ok st'" using create_room_ok [OF assms, of W req av pw] h by simp
  from h have "(\<exists>e. body = RespError e) \<and> pubs = [] \<or>
      (\<exists>mid room. body = RespRoomCreated mid (view room) \<and> pubs = [(cid, FrRoomView (view room))]
        \<and> hm_get (rooms st') (AdvertId (rnd 0)) = Some room)"
    by (auto simp: create_room_def Let_def index_or_panic_def put_room_def hm_simps split: if_splits option.splits)
  then show "(\<forall>v \<in> set (body_views body). view_ok v) \<and> pubs_fit pubs"
    by (auto intro: room_view_ok [OF ok])
qed

lemma join_room_fits:
  assumes "state_ok st" and "fresh_draws rnd st" and "hm_contains (peers st) cid"
  shows "reply_fits (join_room W rnd cid rid hv pw st)"
  unfolding reply_fits_def
proof (intro allI impI)
  fix st' body pubs
  assume h: "join_room W rnd cid rid hv pw st = Reply st' body pubs"
  have ok: "state_ok st'" using join_room_ok [OF assms, of W rid hv pw] h by simp
  from h have "(\<exists>e. body = RespError e) \<and> pubs = [] \<or>
      (\<exists>mid room. body = RespRoomJoined mid (view room) \<and> (pubs = [] \<or> pubs = publish_view rid st')
        \<and> hm_get (rooms st') rid = Some room)"
    by (auto simp: join_room_def Let_def index_or_panic_def put_room_def hm_simps split: if_splits option.splits)
  then show "(\<forall>v \<in> set (body_views body). view_ok v) \<and> pubs_fit pubs"
    by (auto intro: room_view_ok [OF ok] publish_view_fits [OF ok])
qed

lemma queries_fit:
  "reply_fits (population W cid on st)"
  "reply_fits (forward_to_host cid event st)"
  "reply_fits (send_to_member cid mid ev st)"
  by (auto simp: population_def forward_to_host_def send_to_member_def Let_def
      split: sum.splits option.splits prod.splits)

lemma handle_body_fits:
  assumes "state_ok st" and "valid_request b" and "hm_contains (peers st) cid" and "fresh_draws rnd st"
  shows "reply_fits (handle_body W rnd cid b st)"
  using assms by (cases b) (simp_all add: set_password_fits set_options_fits start_match_fits end_match_fits
      host_world_ready_fits leave_room_fits close_room_request_fits create_room_fits join_room_fits queries_fit
      enter_match_def admission_failed_def)

lemma answers_no_list:
  "create_room W rnd cid nm mp md mx req av pw st = Reply st' body pubs \<Longrightarrow> \<not> is_list body"
  "join_room W rnd cid rid hv pw st = Reply st' body pubs \<Longrightarrow> \<not> is_list body"
  "set_password W rnd cid pw st = Reply st' body pubs \<Longrightarrow> \<not> is_list body"
  "leave_room cid st = Reply st' body pubs \<Longrightarrow> \<not> is_list body"
  "set_options cid mp md jn st = Reply st' body pubs \<Longrightarrow> \<not> is_list body"
  "start_match cid mp md st = Reply st' body pubs \<Longrightarrow> \<not> is_list body"
  "end_match cid rid ep st = Reply st' body pubs \<Longrightarrow> \<not> is_list body"
  "close_room_request cid st = Reply st' body pubs \<Longrightarrow> \<not> is_list body"
  "host_world_ready cid rid ep m wp cl st = Reply st' body pubs \<Longrightarrow> \<not> is_list body"
  "forward_to_host cid event st = Reply st' body pubs \<Longrightarrow> \<not> is_list body"
  "send_to_member cid mid ev st = Reply st' body pubs \<Longrightarrow> \<not> is_list body"
  "population W cid on st = Reply st' body pubs \<Longrightarrow> \<not> is_list body"
  by (auto simp: create_room_def join_room_def set_password_def leave_room_def set_options_def start_match_def
      end_match_def close_room_request_def host_world_ready_def forward_to_host_def send_to_member_def population_def
      as_host_def room_updated_def index_or_panic_def Let_def
      split: if_splits option.splits sum.splits prod.splits)

lemma handle_body_list:
  "handle_body W rnd cid b st = Reply st' body pubs \<Longrightarrow> is_list body \<Longrightarrow> b = ReqListRooms"
  by (cases b) (auto simp: enter_match_def admission_failed_def dest: answers_no_list)

text \<open>
  C10. Whatever the service publishes in answer to a request can be encoded and sent, and so can
  every response other than a room list: no peer is dropped because a frame of the service is
  too long.
\<close>

theorem published_frames_encode:
  assumes "reachable st" and "hm_contains (peers st) cid" and "decode_request bs = Inr q" and "fresh_draws rnd st"
    and "handle_request W rnd cid q st = Inr ho"
  shows "(\<forall>t frame. (t, frame) \<in> set (ho_publishes ho) \<longrightarrow> (\<exists>out. encode_stream_frame frame = Inr out))
    \<and> (request_body q \<noteq> ReqListRooms \<longrightarrow> (\<exists>out. encode_stream_frame (FrResponse (ho_response ho)) = Inr out))"
proof -
  from assms(3) have "valid_request (request_body q)"
    by (auto simp: decode_request_iff encode_request_def dest: encoded_request_valid)
  note fits = handle_body_fits [OF reachable_ok [OF assms(1)] this assms(2,4), of W]
  from assms(5) have h: "handle_body W rnd cid (request_body q) st =
      Reply (ho_state ho) (response_body (ho_response ho)) (ho_publishes ho)"
    by (auto simp: handle_request_def split: handled.splits)
  from fits h have views: "\<forall>v \<in> set (body_views (response_body (ho_response ho))). view_ok v"
    and pubs: "pubs_fit (ho_publishes ho)" by simp_all
  from pubs have "\<exists>out. encode_stream_frame frame = Inr out" if "(t, frame) \<in> set (ho_publishes ho)" for t frame
    using that by (intro event_encodes) (auto simp: pubs_fit_def)
  with response_encodes [OF _ views] handle_body_list [OF h] show ?thesis by blast
qed

theorem published_frames_encode_witness:
  "\<exists>ho out. handle_request sample_world sample_draws 1 \<lparr> request_id = 1, request_body = sample_create \<rparr> attached_state = Inr ho
     \<and> encode_stream_frame (FrResponse (ho_response ho)) = Inr out"
proof -
  let ?q = "\<lparr> request_id = 1, request_body = sample_create \<rparr> :: ControlRequest"
  obtain bs where bs: "decode_request bs = Inr ?q" using sample_create_decodes by blast
  have "\<exists>ho. handle_request sample_world sample_draws 1 ?q attached_state = Inr ho"
    by (simp add: handle_request_def hosted_simps)
  then obtain ho where ho: "handle_request sample_world sample_draws 1 ?q attached_state = Inr ho" by blast
  from published_frames_encode [OF attached_reachable attached_peer bs attached_fresh ho] ho show ?thesis
    by (auto simp: sample_create_def)
qed

section \<open>The room list\<close>

text \<open>
  The room list is sorted by identifier without repetition, has at most 128 entries, and
  each is the advert of a room of the service.
\<close>

lemma list_rooms_ordered:
  assumes "reachable st"
  shows "sorted (map ad_id (list_rooms st)) \<and> distinct (map ad_id (list_rooms st)) \<and> length (list_rooms st) \<le> 128
    \<and> (\<forall>a \<in> set (list_rooms st). \<exists>room. hm_get (rooms st) (ad_id a) = Some room \<and> a = advert (view room))"
proof -
  let ?ads = "map (\<lambda>(rid, room). advert (view room)) (rooms st)"
  have ok: "state_ok st" using assms by (rule reachable_ok)
  have get: "hm_get (rooms st) rid = Some room" if "(rid, room) \<in> set (rooms st)" for rid room
    using that state_okD(1) [OF ok] by (rule map_of_is_SomeI [rotated])
  have ids: "ad_id (advert (view room)) = rid" if "(rid, room) \<in> set (rooms st)" for rid room
    using state_ok_room [OF ok get [OF that]] by (simp add: advert_def room_ok_def)
  have eq: "map ad_id ?ads = hm_keys (rooms st)" using ids by auto
  have "distinct (map ad_id ?ads)" unfolding eq by (rule state_okD(1) [OF ok])
  then have "distinct (map ad_id (sort_key ad_id ?ads))"
    by (simp add: distinct_map del: map_map)
  moreover have "sorted (map ad_id (sort_key ad_id ?ads))" by simp
  ultimately have "sorted (map ad_id (list_rooms st)) \<and> distinct (map ad_id (list_rooms st))"
    by (simp add: list_rooms_def take_map [symmetric] sorted_wrt_take)
  moreover have "\<exists>room. hm_get (rooms st) (ad_id a) = Some room \<and> a = advert (view room)" if "a \<in> set (list_rooms st)" for a
    using that get ids unfolding list_rooms_def by (auto dest!: in_set_takeD)
  ultimately show ?thesis by (simp add: list_rooms_def)
qed

section \<open>Routing\<close>

text \<open>
  A relayed datagram goes from a member to the host of its room, marked with the member's
  identifier, or from the host of a room to the member it names in that room; anything else
  is refused. The payload is not changed.
\<close>

lemma route_stays_in_room:
  assumes "reachable st" and "route_target cid relay st = Inr (target, out)"
  shows "\<exists>rid room mid peer. hm_get (membership st) cid = Some rid \<and> hm_get (rooms st) rid = Some room
    \<and> hm_get (member_of room) cid = Some mid \<and> connection peer = target
    \<and> ((\<exists>p. relay = ClientToHost p \<and> hm_get (peers st) (host_connection_id room) = Some peer
           \<and> decode_relay out = Inr (ServiceToHost mid p))
      \<or> (\<exists>m p t. relay = HostToMember m p \<and> host_connection_id room = cid \<and> hm_get (connection_of room) m = Some t
           \<and> hm_get (peers st) t = Some peer \<and> decode_relay out = Inr (ServiceToMember p)))"
proof (cases relay)
  case (ClientToHost p)
  with assms(2) show ?thesis
    by (auto simp: route_target_def route_with_def state_member_of_def peer_connection_def encode_relay_def
        decode_relay_def dest: encode_relay_decodes)
next
  case (HostToMember m p)
  with assms(2) obtain rid room t peer where "hm_get (membership st) cid = Some rid" "hm_get (rooms st) rid = Some room"
    "host_connection_id room = cid" "hm_get (connection_of room) m = Some t" "hm_get (peers st) t = Some peer"
    "connection peer = target" "decode_relay out = Inr (ServiceToMember p)"
    by (auto simp: route_target_def route_with_def host_of_Inr_iff peer_connection_def encode_relay_def
        decode_relay_def dest: encode_relay_decodes)
  moreover from membership_room [OF reachable_ok [OF assms(1)] this(1)] this(2)
  obtain mid where "hm_get (member_of room) cid = Some mid" by auto
  ultimately show ?thesis using HostToMember by blast
qed (use assms in \<open>simp_all add: route_target_def route_with_def\<close>)

lemma hosted_peer: "\<exists>peer. hm_get (peers hosted_state) 1 = Some peer \<and> connection peer = 7"
  by (simp add: hosted_simps)

section \<open>Passwords\<close>

lemma constant_time_compare:
  "length xs = length ys \<Longrightarrow>
   foldl (\<lambda>d (a, b). d OR (a XOR b)) d0 (zip xs ys) = (0 :: u8) \<longleftrightarrow> d0 = 0 \<and> xs = ys"
proof (induction xs ys arbitrary: d0 rule: list_induct2)
  case (Cons x xs y ys)
  have "d0 OR (x XOR y) = 0 \<longleftrightarrow> d0 = 0 \<and> x = y"
    by (simp add: bit_eq_iff bit_simps) blast
  with Cons show ?case by auto
qed simp

text \<open>
  A room password is accepted exactly when its salted digest is the stored one: the
  comparison that never stops early misses no difference.
\<close>

lemma password_matches_digest:
  assumes "\<And>bs. length (sha256 W bs) = 32" and "pv_new W sa pw = Some pv"
  shows "pv_matches W pv pw' \<longleftrightarrow>
    sha256 W (array_bytes sa @ str_bytes pw') = sha256 W (array_bytes sa @ str_bytes pw)"
  using assms by (auto simp: pv_matches_def pv_new_def pv_digest_def constant_time_compare split: if_splits)

section \<open>Population\<close>

text \<open>
  The population counts every connection once: those in a room, and those that reported
  themselves online in the last ten seconds.
\<close>

lemma population_counts_once:
  assumes "reachable st"
  shows "players_online t st = card ({cid. hm_contains (membership st) cid} \<union>
    {cid. \<exists>peer. hm_get (peers st) cid = Some peer \<and> recently_online t peer})"
proof -
  have ok: "state_ok st" using assms by (rule reachable_ok)
  let ?idle = "filter (\<lambda>(cid, peer). recently_online t peer \<and> \<not> hm_contains (membership st) cid) (peers st)"
  let ?A = "{cid. hm_contains (membership st) cid}"
  let ?B = "{cid. \<exists>peer. hm_get (peers st) cid = Some peer \<and> recently_online t peer} - ?A"
  have fin: "finite {cid. hm_contains m cid}" for m :: "(u64, 'b) hash_map"
    using finite_dom_map_of [of m] by (simp add: dom_def)
  have mem: "length (membership st) = card ?A"
    using hm.length_keys [OF state_okD(3) [OF ok]] by (simp add: dom_def)
  have idle: "set (map fst ?idle) = ?B"
    using state_okD(2) [OF ok] by (force simp: map_of_eq_Some_iff)
  have "distinct (map fst ?idle)"
    using state_okD(2) [OF ok] by (rule distinct_map_filter)
  from distinct_card [OF this] have "length ?idle = card ?B" unfolding idle by simp
  with mem have "players_online t st = card ?A + card ?B"
    unfolding players_online_def by (simp only:)
  also have "\<dots> = card (?A \<union> ?B)"
    using fin [of "membership st"] finite_subset [OF _ fin [of "peers st"], of ?B]
    by (intro card_Un_disjoint [symmetric]) auto
  finally show ?thesis by simp
qed

section \<open>Connections per address\<close>

text \<open>\<open>held\<close> lists the address of every live \<open>AddressSlot\<close>.\<close>

definition slots_ok :: "'ip list \<Rightarrow> ('ip, nat) hash_map \<Rightarrow> bool" where
  "slots_ok held counts \<longleftrightarrow> (\<forall>ip. count_list held ip \<le> 32 \<and>
     hm_get counts ip = (if count_list held ip = 0 then None else Some (count_list held ip)))"

lemma count_list_remove1: "count_list (remove1 a xs) x = (if x = a then count_list xs x - 1 else count_list xs x)"
  by (induction xs) auto

text \<open>
  At most 32 connections of one address are open: the table counts the live slots of each
  address exactly, a claim is refused only at 32, and dropping the last slot of an address
  removes its entry.
\<close>

lemma address_slots_counted:
  assumes "slots_ok held counts"
  shows "(case slot_claim ip counts of
      (True, counts') \<Rightarrow> slots_ok (ip # held) counts'
    | (False, counts') \<Rightarrow> count_list held ip = 32 \<and> slots_ok held counts')
    \<and> (ip \<in> set held \<longrightarrow> slots_ok (remove1 ip held) (slot_drop ip counts))"
proof -
  have get: "hm_get counts ip = (if count_list held ip = 0 then None else Some (count_list held ip))"
    and le: "count_list held ip \<le> 32"
    using assms by (simp_all add: slots_ok_def)
  let ?n = "count_list held ip"
  have "slots_ok (ip # held) (hm_insert ip (Suc ?n) counts)" if "?n < 32"
    using assms that by (auto simp: slots_ok_def hm_simps)
  moreover have "slots_ok held (hm_insert ip ?n counts)" if "?n = 32"
    using assms that by (auto simp: slots_ok_def hm_simps)
  moreover have "slots_ok (remove1 ip held) (slot_drop ip counts)" if "ip \<in> set held"
  proof -
    from that have "?n \<noteq> 0" by (simp add: count_list_0_iff)
    with get assms show ?thesis
      by (auto simp: slots_ok_def slot_drop_def hm_simps count_list_remove1 intro: order_trans [OF diff_le_self])
  qed
  ultimately show ?thesis
    using get le by (auto simp: slot_claim_def Let_def)
qed

section \<open>The relay gate\<close>

text \<open>Offer the datagrams of a list in turn, each with the buffer space at its time.\<close>

fun gate_run :: "(bytes \<times> nat \<times> nat) list \<Rightarrow> RelayGate \<Rightarrow> bool list" where
  "gate_run [] gate = []"
| "gate_run ((payload, space, n) # ds) gate =
     (case gate_admit payload space n gate of (ok, gate') \<Rightarrow> ok # gate_run ds gate')"

lemma gate_run_rest:
  "\<forall>(payload, space, n) \<in> set ds. \<exists>i c. fragment_header payload = Some (i, c, pid) \<and> i \<noteq> 0 \<Longrightarrow>
   gate_run ds gate = replicate (length ds) (shedding gate \<noteq> Some pid)"
  by (induction ds) (auto simp: gate_admit_def)

text \<open>
  The gate sheds whole packets: when the fragments of a packet arrive in order, either all
  of them are relayed or none is.
\<close>

lemma gate_sheds_whole_packets:
  assumes "fragment_header payload = Some (0, c, pid)"
    and "\<forall>(p, space, n) \<in> set ds. \<exists>i c. fragment_header p = Some (i, c, pid) \<and> i \<noteq> 0"
  shows "\<exists>b. gate_run ((payload, space, n) # ds) gate = replicate (Suc (length ds)) b"
proof -
  obtain ok gate' where g: "gate_admit payload space n gate = (ok, gate')" by force
  with assms(1) have "shedding gate' \<noteq> Some pid \<longleftrightarrow> ok"
    by (auto simp: gate_admit_def Let_def)
  with gate_run_rest [OF assms(2), of gate'] g show ?thesis by auto
qed

definition sample_fragment :: "u8 \<Rightarrow> bytes" where
  "sample_fragment i = [0x52, 0x46, 2, 0, i, 0, 2, 0, 9, 0, 0, 0, 5, 0, 0, 0, 1]"

section \<open>Transfers\<close>

text \<open>
  A bootstrap transfer that is accepted holds exactly the chunks received before the end of
  the stream, at most 262162 bytes in all.
\<close>

lemma transfer_bounded:
  assumes "read_transfer [] es = Some (Inr out)"
  shows "length out \<le> MAX_BOOTSTRAP_STREAM_BYTES \<and> (\<exists>cs rest. es = map Chunk cs @ ChunkEnd # rest \<and> out = concat cs)"
  using read_transfer_bounded [OF assms] read_transfer_collects [OF assms] by simp

text \<open>
  Writing a bootstrap transfer ends: every write takes at least one byte or ends the
  transfer, so as many write events as there are bytes decide it.
\<close>

lemma write_transfer_terminates:
  assumes "length bs \<le> length es"
  shows "\<exists>r. write_transfer bs 0 es fin = Some r"
  using assms by (intro write_transfer_ends) simp

section \<open>Names\<close>

text \<open>
  C36. A player name is never empty, has at most 16 characters and 64 bytes, and no control
  characters, whatever the hello said.
\<close>

theorem player_names_bounded:
  "\<exists>cs. str_bytes (normalize_player_name name) = concat cs \<and> cs \<noteq> [] \<and> length cs \<le> 16
     \<and> str_len (normalize_player_name name) \<le> 64 \<and> list_all (\<lambda>c. wf_char c \<and> \<not> is_control c) cs"
proof -
  let ?cs = "take 16 (filter (\<lambda>c. \<not> is_control c) (trim_chars (str_chars name)))"
  have wf: "\<forall>c \<in> set ?cs. wf_char c \<and> \<not> is_control c"
    by (auto dest!: in_set_takeD intro: str_chars_wf [OF subsetD [OF set_trim_chars]])
  have b: "str_bytes (collect_chars ?cs) = concat ?cs"
    by (rule str_bytes_collect_chars) (use wf in blast)
  note le = normalized_name_ok [of name, unfolded name_ok_def]
  have len: "length ?cs \<le> 16" by simp
  show ?thesis
  proof (cases "concat ?cs = []")
    case True
    let ?ps = "map (\<lambda>c. [of_char c]) ''Player'' :: bytes list"
    from True b have n: "normalize_player_name name = lit ''Player''"
      by (simp only: normalize_player_name_def Let_def str_is_empty_def) simp
    have "str_bytes (lit ''Player'') = concat ?ps \<and> ?ps \<noteq> [] \<and> length ?ps \<le> 16
        \<and> (\<forall>c \<in> set ?ps. wf_char c \<and> \<not> is_control c)" by code_simp
    with le show ?thesis unfolding n list_all_iff by (intro exI [of _ ?ps]) blast
  next
    case False
    with b have n: "normalize_player_name name = collect_chars ?cs"
      by (simp only: normalize_player_name_def Let_def str_is_empty_def) simp
    have "?cs \<noteq> []" using False by fastforce
    with b wf len le show ?thesis unfolding n list_all_iff by (intro exI [of _ ?cs]) blast
  qed
qed

end
