(* ===== verification/Fragmentation.thy ===== *)
theory Fragmentation
  imports Rust_Std
begin

text \<open>
  Splitting game packets into datagrams and putting them together again:
  \<^verbatim>\<open>crates/net/src/transport/fragment.rs\<close>. A packet is cut into numbered fragments of equal
  size with a sixteen-byte header; the receiver keeps the fragments of up to 32 packets and
  2 MiB, for one second each. The clock is read once per \<open>push\<close>: the reading is an argument.
  A panic is \<open>None\<close>. The error messages are constructors that carry what they print.
\<close>

section \<open>Slices cut into chunks\<close>

definition div_ceil :: "nat \<Rightarrow> nat \<Rightarrow> nat" where
  "div_ceil a b = (if a mod b = 0 then a div b else a div b + 1)"

function chunks :: "nat \<Rightarrow> 'a list \<Rightarrow> 'a list list" where
  "chunks n xs = (if n = 0 \<or> xs = [] then [] else take n xs # chunks n (drop n xs))"
  by pat_completeness auto
termination by (relation "measure (\<lambda>(_, xs). length xs)") auto

declare chunks.simps [simp del]

lemma chunks_Nil [simp]: "chunks n [] = []"
  by (simp add: chunks.simps)

lemma concat_chunks: "0 < n \<Longrightarrow> concat (chunks n xs) = xs"
  by (induction n xs rule: chunks.induct) (subst chunks.simps, auto)

lemma div_ceil_step: "0 < n \<Longrightarrow> 0 < a \<Longrightarrow> div_ceil a n = Suc (div_ceil (a - n) n)"
  by (cases "n \<le> a") (auto simp: div_ceil_def le_mod_geq le_div_geq mod_less div_less)

lemma div_ceil_bounds:
  assumes "0 < n"
  shows "a \<le> n * div_ceil a n" and "0 < a \<Longrightarrow> n * (div_ceil a n - 1) < a"
proof -
  define q m where "q = a div n" and "m = a mod n"
  have e: "a = n * q + m" and m: "m < n" using assms by (simp_all add: q_def m_def)
  have d: "div_ceil a n = (if m = 0 then q else q + 1)" by (simp add: div_ceil_def q_def m_def)
  show "a \<le> n * div_ceil a n" unfolding d using e m by (cases "m = 0") simp_all
  show "n * (div_ceil a n - 1) < a" if "0 < a"
    unfolding d using e m that by (cases "m = 0"; cases q) simp_all
qed

lemma length_chunks: "0 < n \<Longrightarrow> length (chunks n xs) = div_ceil (length xs) n"
proof (induction n xs rule: chunks.induct)
  case (1 n xs)
  show ?case
  proof (cases "xs = []")
    case True
    then show ?thesis by (simp add: div_ceil_def)
  next
    case False
    with 1 show ?thesis by (subst chunks.simps) (simp add: div_ceil_step [of n "length xs"])
  qed
qed

lemma nth_chunks: "0 < n \<Longrightarrow> i < length (chunks n xs) \<Longrightarrow> chunks n xs ! i = take n (drop (n * i) xs)"
proof (induction n xs arbitrary: i rule: chunks.induct)
  case (1 n xs)
  from "1.prems" have ne: "\<not> (n = 0 \<or> xs = [])" by auto
  then have c: "chunks n xs = take n xs # chunks n (drop n xs)" by (subst chunks.simps) simp
  show ?case
  proof (cases i)
    case (Suc j)
    with "1.IH" [OF ne, of j] "1.prems" show ?thesis unfolding c by (simp add: add.commute)
  qed (simp add: c)
qed

section \<open>The sender\<close>

abbreviation (input) FRAGMENT_HEADER_BYTES :: nat where "FRAGMENT_HEADER_BYTES \<equiv> 16"
abbreviation (input) FRAGMENT_MAGIC :: bytes where "FRAGMENT_MAGIC \<equiv> [0x52, 0x46]"
abbreviation (input) FRAGMENT_VERSION :: u8 where "FRAGMENT_VERSION \<equiv> 2"
abbreviation (input) MAX_PENDING_PACKETS :: nat where "MAX_PENDING_PACKETS \<equiv> 32"
abbreviation (input) MAX_PENDING_BYTES :: nat where "MAX_PENDING_BYTES \<equiv> 2 * 1024 * 1024"
abbreviation (input) FRAGMENT_TTL :: nanos where "FRAGMENT_TTL \<equiv> from_secs 1"
abbreviation (input) MAX_FRAGMENTS :: nat where "MAX_FRAGMENTS \<equiv> 65535"

datatype FragmentError =
    PacketLength nat nat
  | TooManyFragments nat nat
  | MalformedHeader
  | OtherVersion u8 u8
  | LengthOutOfBounds nat nat
  | MalformedRange
  | MalformedLength
  | CapacityExceeded u32 nat nat nat nat
  | MetadataChanged
  | PayloadChanged

record Fragmenter =
  fg_payload_bytes :: nat
  fg_max_packet_bytes :: nat
  fg_next_id :: u32

definition fragmenter_new :: "nat \<Rightarrow> nat \<Rightarrow> Fragmenter" where
  "fragmenter_new datagram_bytes max_packet_bytes = \<lparr> fg_payload_bytes = max (datagram_bytes - FRAGMENT_HEADER_BYTES) 1,
     fg_max_packet_bytes = max_packet_bytes, fg_next_id = 0 \<rparr>"

definition fragment_of :: "nat \<Rightarrow> u32 \<Rightarrow> nat \<Rightarrow> nat \<Rightarrow> bytes \<Rightarrow> bytes" where
  "fragment_of count packet_id total_len index payload = FRAGMENT_MAGIC @ [FRAGMENT_VERSION, 0]
     @ to_le_bytes (of_nat index :: u16) @ to_le_bytes (of_nat count :: u16) @ to_le_bytes packet_id
     @ to_le_bytes (of_nat total_len :: u32) @ payload"

definition split :: "bytes \<Rightarrow> Fragmenter \<Rightarrow> (FragmentError + bytes list) \<times> Fragmenter" where
  "split bs f =
     (if bs = [] \<or> fg_max_packet_bytes f < length bs then (Inl (PacketLength (length bs) (fg_max_packet_bytes f)), f)
      else let count = div_ceil (length bs) (fg_payload_bytes f) in
      if MAX_FRAGMENTS < count then (Inl (TooManyFragments (length bs) count), f)
      else (Inr (map (\<lambda>(index, payload). fragment_of count (fg_next_id f) (length bs) index payload)
                 (enumerate 0 (chunks (fg_payload_bytes f) bs))),
            f\<lparr> fg_next_id := fg_next_id f + 1 \<rparr>))"

section \<open>The receiver\<close>

record PartialPacket =
  pp_total_len :: nat
  pp_created_at :: nanos
  pp_fragments :: "bytes option list"
  pp_received :: nat

record Reassembler =
  ra_payload_bytes :: nat
  ra_max_packet_bytes :: nat
  ra_pending :: "(u32, PartialPacket) hash_map"

definition reassembler_new :: "nat \<Rightarrow> nat \<Rightarrow> Reassembler" where
  "reassembler_new datagram_bytes max_packet_bytes = \<lparr> ra_payload_bytes = max (datagram_bytes - FRAGMENT_HEADER_BYTES) 1,
     ra_max_packet_bytes = max_packet_bytes, ra_pending = [] \<rparr>"

definition reassembler_is_empty :: "Reassembler \<Rightarrow> bool" where
  "reassembler_is_empty r \<longleftrightarrow> ra_pending r = []"

text \<open>The header checks: index, count, packet identifier, packet length and payload.\<close>

definition parse_fragment :: "bytes \<Rightarrow> Reassembler \<Rightarrow> FragmentError + nat \<times> nat \<times> u32 \<times> nat \<times> bytes" where
  "parse_fragment bs r =
     (if length bs < FRAGMENT_HEADER_BYTES \<or> take 2 bs \<noteq> FRAGMENT_MAGIC then Inl MalformedHeader
      else if bs ! 2 \<noteq> FRAGMENT_VERSION \<or> bs ! 3 \<noteq> 0 then Inl (OtherVersion (bs ! 2) (bs ! 3))
      else let index = unat (from_le_bytes (take 2 (drop 4 bs)) :: u16);
               count = unat (from_le_bytes (take 2 (drop 6 bs)) :: u16);
               packet_id = from_le_bytes (take 4 (drop 8 bs)) :: u32;
               total_len = unat (from_le_bytes (take 4 (drop 12 bs)) :: u32) in
      if total_len = 0 \<or> ra_max_packet_bytes r < total_len then Inl (LengthOutOfBounds total_len (ra_max_packet_bytes r))
      else let expected_count = div_ceil total_len (ra_payload_bytes r) in
      if count = 0 \<or> MAX_FRAGMENTS < count \<or> count \<noteq> expected_count \<or> count \<le> index then Inl MalformedRange
      else let expected_len = (if index + 1 = count then total_len - ra_payload_bytes r * index else ra_payload_bytes r);
               payload = drop FRAGMENT_HEADER_BYTES bs in
      if length payload \<noteq> expected_len then Inl MalformedLength
      else Inr (index, count, packet_id, total_len, payload))"

definition set_pending :: "(u32, PartialPacket) hash_map \<Rightarrow> Reassembler \<Rightarrow> Reassembler" where
  "set_pending m r = r\<lparr> ra_pending := m \<rparr>"

definition store_fragment :: "nat \<Rightarrow> nat \<Rightarrow> u32 \<Rightarrow> nat \<Rightarrow> bytes \<Rightarrow> PartialPacket \<Rightarrow> (u32, PartialPacket) hash_map \<Rightarrow>
    (FragmentError + bytes option) option \<times> (u32, PartialPacket) hash_map" where
  "store_fragment index count packet_id total_len payload packet pending =
     (if pp_total_len packet \<noteq> total_len \<or> length (pp_fragments packet) \<noteq> count
      then (Some (Inl MetadataChanged), hm_remove packet_id pending)
      else case pp_fragments packet ! index of
        Some existing \<Rightarrow>
          if existing \<noteq> payload then (Some (Inl PayloadChanged), hm_remove packet_id pending)
          else (Some (Inr None), hm_insert packet_id packet pending)
      | None \<Rightarrow>
          let packet' = packet\<lparr> pp_fragments := (pp_fragments packet)[index := Some payload],
                                pp_received := pp_received packet + 1 \<rparr> in
          if pp_received packet' \<noteq> count then (Some (Inr None), hm_insert packet_id packet' pending)
          else (map_option (\<lambda>fs. Inr (Some (concat fs))) (those (pp_fragments packet')), hm_remove packet_id pending))"

definition fresh_pending :: "nanos \<Rightarrow> Reassembler \<Rightarrow> (u32, PartialPacket) hash_map" where
  "fresh_pending now r = filter (\<lambda>(_, packet). now - pp_created_at packet < FRAGMENT_TTL) (ra_pending r)"

definition pending_bytes :: "(u32, PartialPacket) hash_map \<Rightarrow> nat" where
  "pending_bytes m = sum_list (map (\<lambda>(_, packet). pp_total_len packet) m)"

text \<open>\<open>entry(packet_id).or_insert_with(...)\<close>; the caller inserts the packet it gets.\<close>

definition packet_entry :: "nanos \<Rightarrow> nat \<Rightarrow> u32 \<Rightarrow> nat \<Rightarrow> (u32, PartialPacket) hash_map \<Rightarrow> PartialPacket" where
  "packet_entry now count packet_id total_len pending = (case hm_get pending packet_id of
     Some packet \<Rightarrow> packet
   | None \<Rightarrow> \<lparr> pp_total_len = total_len, pp_created_at = now, pp_fragments = replicate count None, pp_received = 0 \<rparr>)"

definition push :: "nanos \<Rightarrow> bytes \<Rightarrow> Reassembler \<Rightarrow> (FragmentError + bytes option) option \<times> Reassembler" where
  "push now bs r = (case parse_fragment bs r of
     Inl e \<Rightarrow> (Some (Inl e), r)
   | Inr (index, count, packet_id, total_len, payload) \<Rightarrow>
       let pending = fresh_pending now r in
       if \<not> hm_contains pending packet_id
          \<and> (MAX_PENDING_PACKETS \<le> length pending \<or> MAX_PENDING_BYTES < pending_bytes pending + total_len)
       then (Some (Inl (CapacityExceeded packet_id total_len count (length pending) (pending_bytes pending))),
             set_pending pending r)
       else let packet = packet_entry now count packet_id total_len pending in
         map_prod id (\<lambda>m. set_pending m r) (store_fragment index count packet_id total_len payload packet pending))"

section \<open>Well-formed receivers\<close>

text \<open>The length of fragment \<open>i\<close> of a packet of \<open>t\<close> bytes cut into pieces of \<open>p\<close> bytes.\<close>

definition fragment_len :: "nat \<Rightarrow> nat \<Rightarrow> nat \<Rightarrow> nat" where
  "fragment_len p t i = (if i + 1 = div_ceil t p then t - p * i else p)"

definition received_count :: "bytes option list \<Rightarrow> nat" where
  "received_count fs = length (filter (\<lambda>f. f \<noteq> None) fs)"

definition slots_fit :: "nat \<Rightarrow> nat \<Rightarrow> bytes option list \<Rightarrow> bool" where
  "slots_fit p t fs \<longleftrightarrow> length fs = div_ceil t p \<and>
     (\<forall>i < length fs. \<forall>x. fs ! i = Some x \<longrightarrow> length x = fragment_len p t i)"

definition packet_ok :: "nat \<Rightarrow> nat \<Rightarrow> PartialPacket \<Rightarrow> bool" where
  "packet_ok p mx pk \<longleftrightarrow> 0 < pp_total_len pk \<and> pp_total_len pk \<le> mx \<and> slots_fit p (pp_total_len pk) (pp_fragments pk)
     \<and> pp_received pk = received_count (pp_fragments pk) \<and> pp_received pk < length (pp_fragments pk)"

definition pending_ok :: "nat \<Rightarrow> nat \<Rightarrow> (u32, PartialPacket) hash_map \<Rightarrow> bool" where
  "pending_ok p mx m \<longleftrightarrow> hm_ok m \<and> (\<forall>(_, pk) \<in> set m. packet_ok p mx pk)
     \<and> length m \<le> MAX_PENDING_PACKETS \<and> pending_bytes m \<le> MAX_PENDING_BYTES"

definition reassembler_ok :: "Reassembler \<Rightarrow> bool" where
  "reassembler_ok r \<longleftrightarrow> 0 < ra_payload_bytes r \<and> pending_ok (ra_payload_bytes r) (ra_max_packet_bytes r) (ra_pending r)"

lemma sum_fragment_len:
  assumes "0 < p" and "0 < t"
  shows "sum_list (map (fragment_len p t) [0..<div_ceil t p]) = t"
proof -
  from assms div_ceil_step obtain k where k: "div_ceil t p = Suc k" by blast
  have "map (fragment_len p t) [0..<k] = map (\<lambda>_. p) [0..<k]" by (simp add: fragment_len_def k)
  then have "sum_list (map (fragment_len p t) [0..<Suc k]) = p * k + (t - p * k)"
    by (simp add: fragment_len_def k sum_list_triv mult.commute del: map_eq_conv)
  moreover from div_ceil_bounds(2) [OF assms] k have "p * k < t" by simp
  ultimately show ?thesis by (simp add: k)
qed

lemma those_Some_iff: "those xs = Some ys \<longleftrightarrow> xs = map Some ys"
  by (induction xs arbitrary: ys) (auto split: option.splits)

lemma those_None_iff: "those xs = None \<longleftrightarrow> None \<in> set xs"
  by (induction xs) (auto split: option.splits)

lemma received_all: "received_count fs = length fs \<Longrightarrow> None \<notin> set fs"
  by (metis (mono_tags, lifting) filter_empty_conv length_filter_less nat_less_le received_count_def)

lemma received_count_update:
  "i < length fs \<Longrightarrow> fs ! i = None \<Longrightarrow> received_count (fs[i := Some x]) = Suc (received_count fs)"
  unfolding received_count_def
  by (induction fs arbitrary: i) (auto split: nat.splits)

lemma received_count_le: "received_count fs \<le> length fs"
  by (simp add: received_count_def)

lemma slots_fit_update:
  "slots_fit p t fs \<Longrightarrow> length x = fragment_len p t i \<Longrightarrow> slots_fit p t (fs[i := Some x])"
  unfolding slots_fit_def by (metis length_list_update nth_list_update_eq nth_list_update_neq option.inject)

lemma slots_fit_total:
  assumes "slots_fit p t (map Some fs)" and "0 < p" and "0 < t"
  shows "length (concat fs) = t"
proof -
  from assms(1) have "map length fs = map (fragment_len p t) [0..<div_ceil t p]"
    by (auto simp: slots_fit_def intro!: nth_equalityI)
  with sum_fragment_len [OF assms(2,3)] show ?thesis by (simp add: length_concat)
qed

lemma pending_bytes_simps [simp]:
  "pending_bytes [] = 0" "pending_bytes ((k, pk) # m) = pp_total_len pk + pending_bytes m"
  by (simp_all add: pending_bytes_def)

lemma pending_bytes_filter: "pending_bytes (filter P m) \<le> pending_bytes m"
  by (induction m) (auto simp: pending_bytes_def)

lemma pending_bytes_insert:
  "pending_bytes (hm_insert k pk m) + (case hm_get m k of None \<Rightarrow> 0 | Some old \<Rightarrow> pp_total_len old)
     = pending_bytes m + pp_total_len pk"
  by (induction m) auto

lemma length_hm_insert: "length (hm_insert k v m) = (if hm_contains m k then length m else Suc (length m))"
  by (induction m) auto

lemma in_set_hm_insert: "x \<in> set (hm_insert k v m) \<Longrightarrow> x = (k, v) \<or> x \<in> set m"
  by (induction m) (auto split: if_splits)

lemma pending_ok_filter: "pending_ok p mx m \<Longrightarrow> pending_ok p mx (filter P m)"
  unfolding pending_ok_def using pending_bytes_filter [of P m] le_trans [OF length_filter_le [of P m]]
  by (auto simp: distinct_map_filter)

lemma pending_ok_remove: "pending_ok p mx m \<Longrightarrow> pending_ok p mx (hm_remove k m)"
  unfolding AList.delete_eq by (rule pending_ok_filter)

lemma pending_ok_insert:
  assumes "pending_ok p mx m" and "packet_ok p mx pk"
    and "case hm_get m k of Some old \<Rightarrow> pp_total_len pk = pp_total_len old
         | None \<Rightarrow> length m < MAX_PENDING_PACKETS \<and> pending_bytes m + pp_total_len pk \<le> MAX_PENDING_BYTES"
  shows "pending_ok p mx (hm_insert k pk m)"
  using assms pending_bytes_insert [of k pk m]
  by (cases "hm_get m k")
    (auto simp: pending_ok_def distinct_update length_hm_insert dest: in_set_hm_insert)

lemma pending_ok_get: "pending_ok p mx m \<Longrightarrow> hm_get m k = Some pk \<Longrightarrow> packet_ok p mx pk"
  unfolding pending_ok_def by (auto dest: map_of_SomeD)

lemma reassembler_ok_set_pending:
  "reassembler_ok r \<Longrightarrow> reassembler_ok (set_pending m r) \<longleftrightarrow> pending_ok (ra_payload_bytes r) (ra_max_packet_bytes r) m"
  by (simp add: reassembler_ok_def set_pending_def)

lemma reassembler_new_ok: "reassembler_ok (reassembler_new d mx)"
  by (simp add: reassembler_ok_def reassembler_new_def pending_ok_def)

lemma parse_fragment_Inr:
  assumes "parse_fragment bs r = Inr (index, count, packet_id, total_len, payload)"
  shows "0 < total_len" and "total_len \<le> ra_max_packet_bytes r" and "count = div_ceil total_len (ra_payload_bytes r)"
    and "index < count" and "length payload = fragment_len (ra_payload_bytes r) total_len index"
  using assms by (auto simp: parse_fragment_def fragment_len_def Let_def split: if_splits)

text \<open>What a fragment stored in a well-formed packet leaves behind.\<close>

lemma store_fragment_ok:
  assumes p: "0 < p" and m: "pending_ok p mx m"
    and pk: "packet_ok p mx pk" and idx: "index < count" and len: "length payload = fragment_len p total_len index"
    and room: "case hm_get m packet_id of Some old \<Rightarrow> old = pk
         | None \<Rightarrow> length m < MAX_PENDING_PACKETS \<and> pending_bytes m + pp_total_len pk \<le> MAX_PENDING_BYTES"
    and s: "store_fragment index count packet_id total_len payload pk m = (res, m')"
  shows "pending_ok p mx m' \<and> res \<noteq> None \<and> (\<forall>out. res = Some (Inr (Some out)) \<longrightarrow> length out = total_len \<and> 0 < total_len \<and> total_len \<le> mx)"
proof (cases "pp_total_len pk \<noteq> total_len \<or> length (pp_fragments pk) \<noteq> count \<or> pp_fragments pk ! index \<noteq> None")
  case True
  from room have "case hm_get m packet_id of Some old \<Rightarrow> pp_total_len pk = pp_total_len old
         | None \<Rightarrow> length m < MAX_PENDING_PACKETS \<and> pending_bytes m + pp_total_len pk \<le> MAX_PENDING_BYTES"
    by (auto split: option.splits)
  from pending_ok_insert [OF m pk this] pending_ok_remove [OF m] True s show ?thesis
    unfolding store_fragment_def by (auto split: if_splits)
next
  case False
  define fs where "fs = (pp_fragments pk)[index := Some payload]"
  define pk' where "pk' = pk\<lparr> pp_fragments := fs, pp_received := pp_received pk + 1 \<rparr>"
  from False have t: "pp_total_len pk = total_len" and l: "length (pp_fragments pk) = count"
    and n: "pp_fragments pk ! index = None" by auto
  have fit: "slots_fit p total_len fs" and rc: "received_count fs = Suc (pp_received pk)" and lf: "length fs = count"
    using pk t len l n idx by (simp_all add: fs_def packet_ok_def slots_fit_update received_count_update)
  show ?thesis
  proof (cases "pp_received pk + 1 = count")
    case True
    with rc lf received_all [of fs] have "None \<notin> set fs" by simp
    then obtain ys where ys: "those fs = Some ys" using those_None_iff [of fs] by auto
    with s t l n True have r: "res = Some (Inr (Some (concat ys)))" and m': "m' = hm_remove packet_id m"
      by (auto simp: store_fragment_def fs_def Let_def)
    have "length (concat ys) = total_len"
      using fit ys p pk t by (intro slots_fit_total) (auto simp: those_Some_iff packet_ok_def)
    with r m' pending_ok_remove [OF m] pk t show ?thesis by (simp add: packet_ok_def)
  next
    case False
    with s t l n have r: "res = Some (Inr None)" and m': "m' = hm_insert packet_id pk' m"
      by (auto simp: store_fragment_def fs_def pk'_def Let_def)
    have "packet_ok p mx pk'"
      using pk fit rc lf False t received_count_le [of fs] by (simp add: packet_ok_def pk'_def)
    from pending_ok_insert [OF m this] room r m' show ?thesis
      by (auto simp: pk'_def split: option.splits)
  qed
qed

lemma empty_packet_ok:
  assumes "0 < p" and "0 < t" and "t \<le> mx"
  shows "packet_ok p mx \<lparr> pp_total_len = t, pp_created_at = now, pp_fragments = replicate (div_ceil t p) None, pp_received = 0 \<rparr>"
proof -
  from assms div_ceil_step [of p t] have "0 < div_ceil t p" by simp
  with assms show ?thesis by (auto simp: packet_ok_def slots_fit_def received_count_def)
qed

lemma push_ok:
  assumes ok: "reassembler_ok r" and ps: "push now bs r = (res, r')"
  shows "reassembler_ok r' \<and> res \<noteq> None \<and> (\<forall>out. res = Some (Inr (Some out)) \<longrightarrow> 0 < length out \<and> length out \<le> ra_max_packet_bytes r)"
proof (cases "parse_fragment bs r")
  case (Inl e)
  with ok ps show ?thesis by (auto simp: push_def)
next
  case (Inr v)
  obtain index count packet_id total_len payload where v: "v = (index, count, packet_id, total_len, payload)"
    by (cases v)
  note parsed = parse_fragment_Inr [OF Inr [unfolded v]]
  let ?p = "ra_payload_bytes r" and ?mx = "ra_max_packet_bytes r"
  define m where "m = fresh_pending now r"
  define pk where "pk = packet_entry now count packet_id total_len m"
  from ok have p: "0 < ?p" and m: "pending_ok ?p ?mx m"
    by (simp_all add: reassembler_ok_def m_def fresh_pending_def pending_ok_filter)
  have pk: "packet_ok ?p ?mx pk"
    using m parsed p by (auto simp: pk_def packet_entry_def empty_packet_ok pending_ok_get split: option.splits)
  show ?thesis
  proof (cases "\<not> hm_contains m packet_id \<and> (MAX_PENDING_PACKETS \<le> length m \<or> MAX_PENDING_BYTES < pending_bytes m + total_len)")
    case True
    with Inr v ps m reassembler_ok_set_pending [OF ok, of m] show ?thesis by (auto simp: push_def m_def Let_def)
  next
    case False
    obtain res' m' where st: "store_fragment index count packet_id total_len payload pk m = (res', m')"
      by fastforce
    with False Inr v ps have "res = res'" and "r' = set_pending m' r"
      by (auto simp: push_def m_def [symmetric] pk_def [symmetric] Let_def)
    moreover from False have "case hm_get m packet_id of Some old \<Rightarrow> old = pk
         | None \<Rightarrow> length m < MAX_PENDING_PACKETS \<and> pending_bytes m + pp_total_len pk \<le> MAX_PENDING_BYTES"
      by (auto simp: pk_def packet_entry_def split: option.splits)
    note store_fragment_ok [OF p m pk parsed(4,5) this st]
    ultimately show ?thesis using reassembler_ok_set_pending [OF ok, of m'] by (auto simp del: length_concat)
  qed
qed

section \<open>The fragments of a packet\<close>

lemma split_Inr:
  assumes "split bs f = (Inr fs, f')"
  shows "bs \<noteq> []" and "length bs \<le> fg_max_packet_bytes f"
    and "div_ceil (length bs) (fg_payload_bytes f) \<le> MAX_FRAGMENTS"
    and "f' = f\<lparr> fg_next_id := fg_next_id f + 1 \<rparr>"
    and "fs = map (\<lambda>(index, payload). fragment_of (div_ceil (length bs) (fg_payload_bytes f)) (fg_next_id f) (length bs) index payload)
                (enumerate 0 (chunks (fg_payload_bytes f) bs))"
  using assms by (auto simp: split_def Let_def split: if_splits)

lemma split_nth:
  assumes "split bs f = (Inr fs, f')" and "0 < fg_payload_bytes f"
  shows "length fs = div_ceil (length bs) (fg_payload_bytes f)"
    and "i < length fs \<Longrightarrow> fs ! i = fragment_of (length fs) (fg_next_id f) (length bs) i (chunks (fg_payload_bytes f) bs ! i)"
proof -
  from split_Inr(5) [OF assms(1)] length_chunks [OF assms(2), of bs]
  show l: "length fs = div_ceil (length bs) (fg_payload_bytes f)" by simp
  from split_Inr(5) [OF assms(1)] length_chunks [OF assms(2), of bs]
  show "i < length fs \<Longrightarrow> fs ! i = fragment_of (length fs) (fg_next_id f) (length bs) i (chunks (fg_payload_bytes f) bs ! i)"
    unfolding l by (simp add: nth_enumerate_eq)
qed

lemma length_chunk:
  assumes "0 < p" and "xs \<noteq> []" and "i < div_ceil (length xs) p"
  shows "length (chunks p xs ! i) = fragment_len p (length xs) i"
proof -
  have n: "chunks p xs ! i = take p (drop (p * i) xs)"
    using assms by (intro nth_chunks) (simp_all add: length_chunks)
  show ?thesis
  proof (cases "i + 1 = div_ceil (length xs) p")
    case True
    have "length xs - p * i \<le> p" using div_ceil_bounds(1) [OF assms(1), of "length xs"] True [symmetric] by simp
    with True n show ?thesis by (simp add: fragment_len_def)
  next
    case False
    with assms(3) have "p * (i + 1) \<le> p * (div_ceil (length xs) p - 1)" by (intro mult_le_mono2) simp
    also have "\<dots> < length xs" using assms by (intro div_ceil_bounds(2)) simp_all
    finally show ?thesis using False n by (simp add: fragment_len_def)
  qed
qed

lemma parse_fragment_of:
  assumes "0 < t" and "t \<le> ra_max_packet_bytes r" and "t < 2 ^ 32"
    and c: "count = div_ceil t (ra_payload_bytes r)" and "count \<le> MAX_FRAGMENTS" and "i < count"
    and "length payload = fragment_len (ra_payload_bytes r) t i"
  shows "parse_fragment (fragment_of count packet_id t i payload) r = Inr (i, count, packet_id, t, payload)"
proof -
  let ?b = "fragment_of count packet_id t i payload"
  have h: "take 2 ?b = FRAGMENT_MAGIC" "?b ! 2 = FRAGMENT_VERSION" "?b ! 3 = 0" "16 \<le> length ?b" "drop 16 ?b = payload"
    "take 2 (drop 4 ?b) = to_le_bytes (of_nat i :: u16)" "take 2 (drop 6 ?b) = to_le_bytes (of_nat count :: u16)"
    "take 4 (drop 8 ?b) = to_le_bytes packet_id" "take 4 (drop 12 ?b) = to_le_bytes (of_nat t :: u32)"
    by (simp_all add: fragment_of_def nth_append)
  from assms h show ?thesis
    by (simp add: parse_fragment_def Let_def fragment_len_def)
qed

section \<open>Arrivals\<close>

text \<open>
  A receiver sees fragments of the packet in question (\<open>Own i\<close>), in any order and possibly more
  than once, between datagrams of other packets or none at all (\<open>Other b\<close>).
\<close>

datatype arrival = Own nat | Other bytes

fun push_all :: "(nanos \<times> bytes) list \<Rightarrow> Reassembler \<Rightarrow> (FragmentError + bytes option) option list \<times> Reassembler" where
  "push_all [] r = ([], r)"
| "push_all ((now, b) # es) r = (case push now b r of (x, r1) \<Rightarrow> case push_all es r1 of (xs, r2) \<Rightarrow> (x # xs, r2))"

lemma push_all_append:
  "push_all (es @ es') r = (case push_all es r of (xs, r1) \<Rightarrow> case push_all es' r1 of (ys, r2) \<Rightarrow> (xs @ ys, r2))"
  by (induction es arbitrary: r) (auto split: prod.splits)

lemma length_push_all: "length (fst (push_all es r)) = length es"
  by (induction es arbitrary: r) (auto simp: case_prod_unfold)

fun arrival_bytes :: "bytes list \<Rightarrow> nanos \<times> arrival \<Rightarrow> nanos \<times> bytes" where
  "arrival_bytes fs (t, Own i) = (t, fs ! i)"
| "arrival_bytes fs (t, Other b) = (t, b)"

definition own_indices :: "(nanos \<times> arrival) list \<Rightarrow> nat set" where
  "own_indices es = {i. \<exists>t. (t, Own i) \<in> set es}"

text \<open>A datagram without the packet's identifier in its header.\<close>

definition foreign :: "u32 \<Rightarrow> bytes \<Rightarrow> bool" where
  "foreign packet_id b \<longleftrightarrow> take 4 (drop 8 b) \<noteq> to_le_bytes packet_id"

lemma own_indices_simps [simp]:
  "own_indices [] = {}" "own_indices ((t, Own i) # es) = insert i (own_indices es)"
  "own_indices ((t, Other b) # es) = own_indices es" "own_indices (es @ es') = own_indices es \<union> own_indices es'"
  by (auto simp: own_indices_def)

definition partial_of :: "nat \<Rightarrow> bytes \<Rightarrow> nanos \<Rightarrow> nat set \<Rightarrow> PartialPacket" where
  "partial_of p bs t0 S = \<lparr> pp_total_len = length bs, pp_created_at = t0,
     pp_fragments = map (\<lambda>i. if i \<in> S then Some (chunks p bs ! i) else None) [0..<div_ceil (length bs) p],
     pp_received = card S \<rparr>"

definition sized_for :: "nat \<Rightarrow> nat \<Rightarrow> Reassembler \<Rightarrow> bool" where
  "sized_for p mx r \<longleftrightarrow> ra_payload_bytes r = p \<and> ra_max_packet_bytes r = mx"

lemma get_filter_Some: "hm_get m k = Some v \<Longrightarrow> P (k, v) \<Longrightarrow> hm_get (filter P m) k = Some v"
  by (induction m) auto

lemma get_filter_None: "hm_get m k = None \<Longrightarrow> hm_get (filter P m) k = None"
  by (auto simp: map_of_eq_None_iff)

lemma get_fresh:
  "hm_get (ra_pending r) k = Some pk \<Longrightarrow> now - pp_created_at pk < FRAGMENT_TTL \<Longrightarrow> hm_get (fresh_pending now r) k = Some pk"
  unfolding fresh_pending_def by (rule get_filter_Some) simp_all

lemma store_other:
  "packet_id \<noteq> k \<Longrightarrow> store_fragment index count packet_id t payload pk m = (x, m') \<Longrightarrow> hm_get m' k = hm_get m k"
  by (auto simp: store_fragment_def Let_def update_conv' delete_conv' split: option.splits if_splits)

lemma push_foreign:
  assumes "foreign k b" and "push now b r = (x, r')" and "hm_get (ra_pending r) k = Some pk"
    and "now - pp_created_at pk < FRAGMENT_TTL" and "sized_for p mx r"
  shows "hm_get (ra_pending r') k = Some pk \<and> sized_for p mx r'"
proof (cases "parse_fragment b r")
  case (Inl e)
  with assms show ?thesis by (simp add: push_def)
next
  case (Inr v)
  obtain index count packet_id total_len payload where v: "v = (index, count, packet_id, total_len, payload)"
    by (cases v)
  have "packet_id \<noteq> k"
  proof
    assume "packet_id = k"
    with Inr v have "k = from_le_bytes (take 4 (drop 8 b))" and "16 \<le> length b"
      by (auto simp: parse_fragment_def Let_def split: if_splits)
    then have "to_le_bytes k = take 4 (drop 8 b)" by (simp add: to_le_from_le)
    with assms(1) show False by (simp add: foreign_def)
  qed
  with get_fresh [OF assms(3,4)] Inr v assms(2,5) show ?thesis
    by (auto simp: push_def Let_def set_pending_def sized_for_def map_prod_def store_other split: if_splits prod.splits)
qed

text \<open>One more fragment of the packet.\<close>

lemma entry_partial:
  "hm_get m k = (if S = {} then None else Some (partial_of p bs t0 S)) \<Longrightarrow> S = {} \<longrightarrow> t0 = now \<Longrightarrow>
   packet_entry now (div_ceil (length bs) p) k (length bs) m = partial_of p bs t0 S"
  by (auto simp: packet_entry_def partial_of_def map_replicate_const split: option.splits if_splits)

lemma partial_insert:
  assumes "finite S" and "i \<notin> S" and "i < div_ceil (length bs) p"
  shows "(partial_of p bs t0 S)\<lparr> pp_fragments := (pp_fragments (partial_of p bs t0 S))[i := Some (chunks p bs ! i)],
           pp_received := pp_received (partial_of p bs t0 S) + 1 \<rparr> = partial_of p bs t0 (insert i S)"
  using assms by (auto simp: partial_of_def intro!: nth_equalityI simp: nth_list_update)

lemma partial_complete:
  assumes "0 < p"
  shows "those (pp_fragments (partial_of p bs t0 {..<div_ceil (length bs) p})) = Some (chunks p bs)"
  unfolding those_Some_iff using assms
  by (auto simp: partial_of_def length_chunks intro!: nth_equalityI)

lemma store_partial:
  assumes p: "0 < p" and S: "S \<subset> {..<div_ceil (length bs) p}" and i: "i < div_ceil (length bs) p"
  shows "store_fragment i (div_ceil (length bs) p) k (length bs) (chunks p bs ! i) (partial_of p bs t0 S) m =
    (if insert i S = {..<div_ceil (length bs) p} then (Some (Inr (Some bs)), hm_remove k m)
     else (Some (Inr None), hm_insert k (partial_of p bs t0 (insert i S)) m))"
proof -
  let ?c = "div_ceil (length bs) p" and ?pk = "partial_of p bs t0 S"
  have f: "finite S" using S by (meson finite_lessThan finite_subset psubset_imp_subset)
  have fields: "pp_total_len ?pk = length bs" "length (pp_fragments ?pk) = ?c" "pp_received ?pk = card S"
    "pp_fragments ?pk ! i = (if i \<in> S then Some (chunks p bs ! i) else None)"
    using i by (simp_all add: partial_of_def)
  show ?thesis
  proof (cases "i \<in> S")
    case True
    with S fields show ?thesis by (auto simp: store_fragment_def insert_absorb)
  next
    case False
    have "card (insert i S) = ?c \<longleftrightarrow> insert i S = {..<?c}"
      using S i f card_subset_eq [of "{..<?c}" "insert i S"] by auto
    with False f have c: "Suc (card S) = ?c \<longleftrightarrow> insert i S = {..<?c}" by simp
    have rc: "pp_received (partial_of p bs t0 (insert i S)) = Suc (card S)" using False f by (simp add: partial_of_def)
    have all: "insert i S = {..<?c} \<Longrightarrow> those (pp_fragments (partial_of p bs t0 (insert i S))) = Some (chunks p bs)"
      using partial_complete [OF p] by simp
    show ?thesis
      unfolding store_fragment_def Let_def partial_insert [OF f False i] rc c using False fields all
      by (simp add: concat_chunks [OF p])
  qed
qed

definition packet_fits :: "nat \<Rightarrow> nat \<Rightarrow> bytes \<Rightarrow> bool" where
  "packet_fits p mx bs \<longleftrightarrow> 0 < p \<and> bs \<noteq> [] \<and> length bs \<le> mx \<and> length bs < 2 ^ 32
     \<and> div_ceil (length bs) p \<le> MAX_FRAGMENTS"

abbreviation packet_fragment :: "nat \<Rightarrow> u32 \<Rightarrow> bytes \<Rightarrow> nat \<Rightarrow> bytes" where
  "packet_fragment p k bs i \<equiv> fragment_of (div_ceil (length bs) p) k (length bs) i (chunks p bs ! i)"

lemma push_own:
  assumes fits: "packet_fits p mx bs" and r: "sized_for p mx r"
    and S: "S \<subset> {..<div_ceil (length bs) p}" and i: "i < div_ceil (length bs) p"
    and get: "hm_get (fresh_pending now r) k = (if S = {} then None else Some (partial_of p bs t0 S))"
    and first: "S = {} \<longrightarrow> t0 = now \<and> length (fresh_pending now r) < MAX_PENDING_PACKETS
      \<and> pending_bytes (fresh_pending now r) + length bs \<le> MAX_PENDING_BYTES"
  shows "\<exists>r'. push now (packet_fragment p k bs i) r
      = (Some (Inr (if insert i S = {..<div_ceil (length bs) p} then Some bs else None)), r')
    \<and> sized_for p mx r'
    \<and> (insert i S \<noteq> {..<div_ceil (length bs) p} \<longrightarrow> hm_get (ra_pending r') k = Some (partial_of p bs t0 (insert i S)))"
proof -
  let ?c = "div_ceil (length bs) p" and ?m = "fresh_pending now r"
  have "length (chunks p bs ! i) = fragment_len p (length bs) i"
    using fits i by (intro length_chunk) (simp_all add: packet_fits_def)
  then have ps: "parse_fragment (packet_fragment p k bs i) r = Inr (i, ?c, k, length bs, chunks p bs ! i)"
    using fits r i by (intro parse_fragment_of) (auto simp: packet_fits_def sized_for_def)
  have en: "packet_entry now ?c k (length bs) ?m = partial_of p bs t0 S"
    using get first by (intro entry_partial) simp_all
  have cap: "\<not> (\<not> hm_contains ?m k \<and> (MAX_PENDING_PACKETS \<le> length ?m \<or> MAX_PENDING_BYTES < pending_bytes ?m + length bs))"
    using get first by (cases "S = {}") auto
  from fits have p: "0 < p" by (simp add: packet_fits_def)
  have "push now (packet_fragment p k bs i) r
     = (if insert i S = {..<?c} then (Some (Inr (Some bs)), set_pending (hm_remove k ?m) r)
        else (Some (Inr None), set_pending (hm_insert k (partial_of p bs t0 (insert i S)) ?m) r))"
    unfolding push_def ps using cap by (simp add: Let_def en store_partial [OF p S i])
  with r show ?thesis by (auto simp: set_pending_def sized_for_def update_conv')
qed

definition arrival_ok :: "nat \<Rightarrow> u32 \<Rightarrow> nanos \<Rightarrow> nanos \<times> arrival \<Rightarrow> bool" where
  "arrival_ok c k t0 e \<longleftrightarrow> fst e - t0 < FRAGMENT_TTL \<and> (case snd e of Own i \<Rightarrow> i < c | Other b \<Rightarrow> foreign k b)"

lemma arrival_ok_simps [simp]:
  "arrival_ok c k t0 (t, Own i) \<longleftrightarrow> t - t0 < FRAGMENT_TTL \<and> i < c"
  "arrival_ok c k t0 (t, Other b) \<longleftrightarrow> t - t0 < FRAGMENT_TTL \<and> foreign k b"
  by (simp_all add: arrival_ok_def)

lemma created_partial_of [simp]: "pp_created_at (partial_of p bs t0 S) = t0"
  by (simp add: partial_of_def)

lemma collect_run:
  assumes fits: "packet_fits p mx bs" and fs: "\<And>i. i < div_ceil (length bs) p \<Longrightarrow> fs ! i = packet_fragment p k bs i"
    and "sized_for p mx r" and "S \<noteq> {}" and "hm_get (ra_pending r) k = Some (partial_of p bs t0 S)"
    and "S \<union> own_indices es \<subset> {..<div_ceil (length bs) p}" and "\<forall>e \<in> set es. arrival_ok (div_ceil (length bs) p) k t0 e"
  shows "\<exists>xs r'. push_all (map (arrival_bytes fs) es) r = (xs, r') \<and> sized_for p mx r'
    \<and> hm_get (ra_pending r') k = Some (partial_of p bs t0 (S \<union> own_indices es))
    \<and> (\<forall>j < length es. \<forall>i. snd (es ! j) = Own i \<longrightarrow> xs ! j = Some (Inr None))"
  using assms(3-)
proof (induction es arbitrary: r S)
  case Nil
  then show ?case by simp
next
  case (Cons e es)
  obtain t a where e: "e = (t, a)" by (cases e)
  have fresh: "t - t0 < FRAGMENT_TTL" using Cons.prems(5) e by (simp add: arrival_ok_def)
  have get: "hm_get (fresh_pending t r) k = Some (partial_of p bs t0 S)"
    by (rule get_fresh [OF Cons.prems(3)]) (use fresh in simp)
  show ?case
  proof (cases a)
    case (Own i)
    with Cons.prems(4,5) e have i: "i < div_ceil (length bs) p" and S: "S \<subset> {..<div_ceil (length bs) p}"
      and nf: "insert i S \<noteq> {..<div_ceil (length bs) p}" by auto
    from push_own [OF fits Cons.prems(1) S i, of t k t0] nf get Cons.prems(2) obtain r1 where
      r1: "push t (packet_fragment p k bs i) r = (Some (Inr None), r1)" "sized_for p mx r1"
        "hm_get (ra_pending r1) k = Some (partial_of p bs t0 (insert i S))" by auto
    have "insert i S \<union> own_indices es \<subset> {..<div_ceil (length bs) p}" using Cons.prems(4) e Own by simp
    from Cons.IH [OF r1(2) insert_not_empty r1(3) this] Cons.prems(5) obtain xs r' where
      "push_all (map (arrival_bytes fs) es) r1 = (xs, r')" "sized_for p mx r'"
      "hm_get (ra_pending r') k = Some (partial_of p bs t0 (insert i S \<union> own_indices es))"
      "\<forall>j < length es. \<forall>i. snd (es ! j) = Own i \<longrightarrow> xs ! j = Some (Inr None)" by auto
    with r1 e Own show ?thesis by (auto simp: fs [OF i] nth_Cons split: nat.splits)
  next
    case (Other b)
    obtain x r1 where x: "push t b r = (x, r1)" by fastforce
    from Cons.prems(5) e Other have "foreign k b" by simp
    from push_foreign [OF this x Cons.prems(3) _ Cons.prems(1)] fresh
    have r1: "hm_get (ra_pending r1) k = Some (partial_of p bs t0 S)" "sized_for p mx r1" by auto
    have "S \<union> own_indices es \<subset> {..<div_ceil (length bs) p}" using Cons.prems(4) e Other by simp
    from Cons.IH [OF r1(2) Cons.prems(2) r1(1) this] Cons.prems(5) obtain xs r' where
      "push_all (map (arrival_bytes fs) es) r1 = (xs, r')" "sized_for p mx r'"
      "hm_get (ra_pending r') k = Some (partial_of p bs t0 (S \<union> own_indices es))"
      "\<forall>j < length es. \<forall>i. snd (es ! j) = Own i \<longrightarrow> xs ! j = Some (Inr None)" by auto
    with x e Other show ?thesis by (auto simp: nth_Cons split: nat.splits)
  qed
qed

lemma fresh_pending_room:
  assumes "hm_get (ra_pending r) k = None" and "length (ra_pending r) < n" and "pending_bytes (ra_pending r) + a \<le> b"
  shows "hm_get (fresh_pending now r) k = None" and "length (fresh_pending now r) < n"
    and "pending_bytes (fresh_pending now r) + a \<le> b"
  using get_filter_None [OF assms(1)] le_less_trans [OF length_filter_le assms(2)]
    order_trans [OF add_le_mono1 [OF pending_bytes_filter] assms(3)]
  by (simp_all add: fresh_pending_def)

section \<open>Properties\<close>

text \<open>
  C12. The receiver stays within its bounds whatever arrives: it never panics, never holds more
  than 32 packets or 2 MiB of announced packet bytes, counts the received fragments of each
  packet exactly, and what it delivers is a packet of at most the configured size.
\<close>

theorem reassembler_bounded:
  assumes "reassembler_ok r" and "push now bs r = (res, r')"
  shows "reassembler_ok r' \<and> res \<noteq> None
    \<and> (\<forall>out. res = Some (Inr (Some out)) \<longrightarrow> 0 < length out \<and> length out \<le> ra_max_packet_bytes r)"
  using assms by (rule push_ok)

theorem reassembler_bounded_witness:
  "\<exists>res r'. push 0 [0x52, 0x46] (reassembler_new 20 100) = (res, r') \<and> reassembler_ok r' \<and> res \<noteq> None"
proof -
  obtain res r' where p: "push 0 [0x52, 0x46] (reassembler_new 20 100) = (res, r')" by fastforce
  with reassembler_bounded [OF reassembler_new_ok p] show ?thesis by blast
qed

text \<open>
  C11. A packet survives reordering and duplication: when its fragments arrive within a second,
  in any order and any number of times, between datagrams of other packets, then nothing is
  delivered before the last missing fragment and that one delivers the packet. There must be
  room for the packet when its first fragment arrives.
\<close>

theorem reassembly_any_order:
  assumes sp: "split bs f = (Inr fs, f')" and p: "0 < fg_payload_bytes f" and len: "length bs < 2 ^ 32"
    and r: "ra_payload_bytes r = fg_payload_bytes f" "ra_max_packet_bytes r = fg_max_packet_bytes f"
    and new: "hm_get (ra_pending r) (fg_next_id f) = None"
    and room: "length (ra_pending r) < 32" "pending_bytes (ra_pending r) + length bs \<le> 2 * 1024 * 1024"
    and es: "\<exists>i0. hd (es @ [(t, Own i)]) = (t0, Own i0)"
      "\<forall>e \<in> set (es @ [(t, Own i)]). arrival_ok (length fs) (fg_next_id f) t0 e"
    and last: "own_indices es \<union> {i} = {..<length fs}" "i \<notin> own_indices es"
  shows "\<exists>xs. fst (push_all (map (arrival_bytes fs) (es @ [(t, Own i)])) r) = xs @ [Some (Inr (Some bs))]
    \<and> length xs = length es \<and> (\<forall>j < length es. \<forall>i. snd (es ! j) = Own i \<longrightarrow> xs ! j = Some (Inr None))"
proof -
  let ?p = "fg_payload_bytes f" and ?mx = "fg_max_packet_bytes f" and ?k = "fg_next_id f"
  have c: "length fs = div_ceil (length bs) ?p" by (rule split_nth(1) [OF sp p])
  have fs: "fs ! j = packet_fragment ?p ?k bs j" if "j < div_ceil (length bs) ?p" for j
    using split_nth(2) [OF sp p, of j] that by (simp add: c)
  have fits: "packet_fits ?p ?mx bs" using split_Inr [OF sp] p len by (simp add: packet_fits_def)
  have sz: "sized_for ?p ?mx r" using r by (simp add: sized_for_def)
  have i: "i < div_ceil (length bs) ?p" and t: "t - t0 < FRAGMENT_TTL" using es last c by auto
  have empty: "{} \<subset> {..<div_ceil (length bs) ?p}" using i by auto
  note fresh = fresh_pending_room [OF new room, of t0]
  show ?thesis
  proof (cases es)
    case Nil
    with es(1) last(1) c have "t0 = t" "insert i {} = {..<div_ceil (length bs) ?p}" by auto
    with push_own [OF fits sz empty i, of t ?k t] fresh obtain r1 where
      "push t (packet_fragment ?p ?k bs i) r = (Some (Inr (Some bs)), r1)" by auto
    with Nil show ?thesis by (simp add: fs [OF i])
  next
    case (Cons e es')
    with es(1) obtain i0 where e: "es = (t0, Own i0) # es'" by auto
    have i0: "i0 < div_ceil (length bs) ?p" and nf: "insert i0 {} \<noteq> {..<div_ceil (length bs) ?p}"
      using es(2) last(2) c i e by auto
    from push_own [OF fits sz empty i0, of t0 ?k t0] fresh nf obtain r1 where
      r1: "push t0 (packet_fragment ?p ?k bs i0) r = (Some (Inr None), r1)" "sized_for ?p ?mx r1"
        "hm_get (ra_pending r1) ?k = Some (partial_of ?p bs t0 {i0})" by auto
    have sub: "{i0} \<union> own_indices es' \<subset> {..<div_ceil (length bs) ?p}" using last e c by auto
    have "\<forall>e \<in> set es'. arrival_ok (div_ceil (length bs) ?p) ?k t0 e" using es(2) e c by auto
    from collect_run [OF fits fs r1(2) insert_not_empty r1(3) sub this] obtain xs r2 where
      r2: "push_all (map (arrival_bytes fs) es') r1 = (xs, r2)" "sized_for ?p ?mx r2"
        "hm_get (ra_pending r2) ?k = Some (partial_of ?p bs t0 ({i0} \<union> own_indices es'))"
        "\<forall>j < length es'. \<forall>i. snd (es' ! j) = Own i \<longrightarrow> xs ! j = Some (Inr None)" by blast
    have "insert i ({i0} \<union> own_indices es') = {..<div_ceil (length bs) ?p}" using last e c by auto
    with push_own [OF fits r2(2) sub i, of t ?k t0] get_fresh [OF r2(3), of t] t obtain r3 where
      r3: "push t (packet_fragment ?p ?k bs i) r2 = (Some (Inr (Some bs)), r3)" by auto
    have "length xs = length es'" using length_push_all [of "map (arrival_bytes fs) es'" r1] r2(1) by simp
    with r1 r2 r3 e show ?thesis
      by (intro exI [of _ "Some (Inr None) # xs"])
        (auto simp: push_all_append fs [OF i0] fs [OF i] nth_Cons split: nat.splits)
  qed
qed

definition sample_fragments :: "bytes list" where
  "sample_fragments = projr (fst (split [1, 2, 3, 4, 5] (fragmenter_new 18 100)))"

lemma sample_split:
  "split [1, 2, 3, 4, 5] (fragmenter_new 18 100)
     = (Inr sample_fragments, (fragmenter_new 18 100)\<lparr> fg_next_id := 1 \<rparr>)"
  "length sample_fragments = 3"
  by code_simp+

theorem reassembly_any_order_witness:
  "fst (push_all (map (arrival_bytes sample_fragments)
       [(5, Own 2), (6, Other []), (7, Own 0), (8, Own 2), (9, Own 1)]) (reassembler_new 18 100)) ! 4 = Some (Inr (Some [1, 2, 3, 4, 5]))"
proof -
  let ?es = "[(5, Own 2), (6, Other []), (7, Own 0), (8, Own 2)] :: (nanos \<times> arrival) list"
  have "foreign 0 []" by code_simp
  moreover have "{..<3} = {0, 1, 2 :: nat}" by auto
  ultimately have "\<exists>xs. fst (push_all (map (arrival_bytes sample_fragments) (?es @ [(9, Own 1)])) (reassembler_new 18 100))
      = xs @ [Some (Inr (Some [1, 2, 3, 4, 5]))] \<and> length xs = length ?es
      \<and> (\<forall>j < length ?es. \<forall>i. snd (?es ! j) = Own i \<longrightarrow> xs ! j = Some (Inr None))"
    by (intro reassembly_any_order [OF sample_split(1), where ?t0.0 = 5])
      (auto simp: sample_split(2) fragmenter_new_def reassembler_new_def)
  then show ?thesis by (auto simp: nth_append)
qed

end
