(* ===== verification/Wire_Format.thy ===== *)
theory Wire_Format
  imports Byte_Codec
begin

text \<open>
  The little-endian byte stream of the game transport: \<^verbatim>\<open>crates/net/src/transport/wire.rs\<close>.
  A writer is modelled by the bytes each \<open>put\<close> appends; the reader keeps the slice and its
  cursor. \<open>i8\<close> and \<open>i32\<close> are words read with \<open>sint\<close>, an \<open>f32\<close> is its bit pattern: the casts
  and \<open>to_bits\<close>/\<open>from_bits\<close> keep the bits. The reader satisfies the interface \<open>byte_reader\<close>.
\<close>

datatype WireError =
    WireTruncated nat nat
  | WireUnknownField nat
  | WireMalformed string

section \<open>Writing\<close>

definition put_u8 :: "u8 \<Rightarrow> bytes" where "put_u8 v = [v]"
definition put_u16 :: "u16 \<Rightarrow> bytes" where "put_u16 v = to_le_bytes v"
definition put_u32 :: "u32 \<Rightarrow> bytes" where "put_u32 v = to_le_bytes v"
definition put_u64 :: "u64 \<Rightarrow> bytes" where "put_u64 v = to_le_bytes v"
definition put_i32 :: "32 word \<Rightarrow> bytes" where "put_i32 v = to_le_bytes v"
definition put_i8 :: "8 word \<Rightarrow> bytes" where "put_i8 v = [v]"
definition put_f32 :: "u32 \<Rightarrow> bytes" where "put_f32 bits = put_u32 bits"
definition put_bytes :: "bytes \<Rightarrow> bytes" where "put_bytes v = v"

section \<open>Reading\<close>

record WireReader =
  wr_bytes :: bytes
  wr_cursor :: nat

definition wr_new :: "bytes \<Rightarrow> WireReader" where
  "wr_new bs = \<lparr> wr_bytes = bs, wr_cursor = 0 \<rparr>"

definition wr_remaining :: "WireReader \<Rightarrow> nat" where
  "wr_remaining r = length (wr_bytes r) - wr_cursor r"

definition wr_is_empty :: "WireReader \<Rightarrow> bool" where
  "wr_is_empty r \<longleftrightarrow> wr_remaining r = 0"

definition wr_take :: "nat \<Rightarrow> (WireReader, WireError, bytes) rd" where
  "wr_take count r =
     (if wr_remaining r < count then Inl (WireTruncated count (wr_remaining r))
      else Inr (take count (drop (wr_cursor r) (wr_bytes r)), r\<lparr> wr_cursor := wr_cursor r + count \<rparr>))"

definition get_u8 :: "(WireReader, WireError, u8) rd" where
  "get_u8 = rd_bind (wr_take 1) (\<lambda>bs. rd_return (bs ! 0))"

definition get_i8 :: "(WireReader, WireError, 8 word) rd" where
  "get_i8 = rd_bind (wr_take 1) (\<lambda>bs. rd_return (bs ! 0))"

definition get_u16 :: "(WireReader, WireError, u16) rd" where
  "get_u16 = rd_bind (wr_take 2) (\<lambda>bs. rd_return (from_le_bytes bs))"

definition get_u32 :: "(WireReader, WireError, u32) rd" where
  "get_u32 = rd_bind (wr_take 4) (\<lambda>bs. rd_return (from_le_bytes bs))"

definition get_u64 :: "(WireReader, WireError, u64) rd" where
  "get_u64 = rd_bind (wr_take 8) (\<lambda>bs. rd_return (from_le_bytes bs))"

definition get_i32 :: "(WireReader, WireError, 32 word) rd" where
  "get_i32 = get_u32"

definition get_f32 :: "(WireReader, WireError, u32) rd" where
  "get_f32 = get_u32"

definition get_bytes :: "nat \<Rightarrow> (WireReader, WireError, bytes) rd" where
  "get_bytes n = wr_take n"

section \<open>The reader interface\<close>

definition wr_pos :: "WireReader \<Rightarrow> bytes \<Rightarrow> bool" where
  "wr_pos r s \<longleftrightarrow> wr_cursor r \<le> length (wr_bytes r) \<and> drop (wr_cursor r) (wr_bytes r) = s"

lemma wr_pos_fun: "wr_pos r s \<Longrightarrow> wr_pos r t \<Longrightarrow> s = t"
  by (simp add: wr_pos_def)

lemma wr_pos_remaining: "wr_pos r s \<Longrightarrow> wr_remaining r = length s"
  by (auto simp: wr_pos_def wr_remaining_def)

lemma wr_is_empty_iff: "wr_pos r s \<Longrightarrow> wr_is_empty r \<longleftrightarrow> s = []"
  by (simp add: wr_is_empty_def wr_pos_remaining)

lemma wr_take_pos:
  assumes "wr_pos r s" and "count \<le> length s"
  shows "\<exists>r'. wr_take count r = Inr (take count s, r') \<and> wr_pos r' (drop count s)"
  using assms wr_pos_remaining [OF assms(1)]
  by (auto simp: wr_take_def wr_pos_def add.commute)

interpretation wrd: byte_reader wr_pos wr_new wr_take
proof unfold_locales
  show "wr_pos (wr_new s) s" for s by (simp add: wr_pos_def wr_new_def)
next
  show "reads wr_pos (wr_take n) w w" if "length w = n" for w n
    unfolding reads_def using wr_take_pos [of _ "w @ _" n] that by fastforce
next
  show "inverts wr_pos (wr_take n) (\<lambda>x w. w = x \<and> length x = n)" for n
    unfolding inverts_def
  proof (intro allI impI)
    fix r s x r'
    assume p: "wr_pos r s" and t: "wr_take n r = Inr (x, r')"
    then have n: "n \<le> length s" by (auto simp: wr_take_def wr_pos_remaining split: if_splits)
    from wr_take_pos [OF p n] t have "x = take n s" "wr_pos r' (drop n s)" by auto
    with n show "\<exists>w post. (w = x \<and> length x = n) \<and> s = w @ post \<and> wr_pos r' post"
      by (intro exI [of _ "take n s"] exI [of _ "drop n s"]) simp
  qed
next
  show "\<exists>e. wr_take n r = Inl e" if "wr_pos r s" "length s < n" for r s n
    using that by (auto simp: wr_take_def wr_pos_remaining)
qed

lemma get_reads [reads_rules]:
  "reads wr_pos get_u8 (put_u8 v8) v8" "reads wr_pos get_i8 (put_i8 v8) v8"
  "reads wr_pos get_u16 (put_u16 v16) v16" "reads wr_pos get_u32 (put_u32 v32) v32"
  "reads wr_pos get_i32 (put_i32 v32) v32" "reads wr_pos get_f32 (put_f32 v32) v32"
  "reads wr_pos get_u64 (put_u64 v64) v64" "reads wr_pos (get_bytes (length bs)) (put_bytes bs) bs"
  unfolding get_u8_def get_i8_def get_u16_def get_u32_def get_i32_def get_f32_def get_u64_def get_bytes_def
    put_u8_def put_i8_def put_u16_def put_u32_def put_i32_def put_f32_def put_u64_def put_bytes_def
  by (rule wrd.take_map_reads wrd.take_reads; simp)+

lemma put_lengths [simp]:
  "length (put_u8 v8) = 1" "length (put_i8 v8) = 1" "length (put_u16 v16) = 2" "length (put_u32 v32) = 4"
  "length (put_i32 v32) = 4" "length (put_f32 v32) = 4" "length (put_u64 v64) = 8"
  by (simp_all add: put_u8_def put_i8_def put_u16_def put_u32_def put_i32_def put_f32_def put_u64_def)

lemma get_inverts:
  "inverts wr_pos get_u8 (\<lambda>x w. w = put_u8 x)" "inverts wr_pos get_u16 (\<lambda>x w. w = put_u16 x)"
  "inverts wr_pos get_u32 (\<lambda>x w. w = put_u32 x)" "inverts wr_pos get_u64 (\<lambda>x w. w = put_u64 x)"
  "inverts wr_pos (get_bytes n) (\<lambda>x w. w = put_bytes x \<and> length x = n)"
proof -
  have one: "[bs ! 0] = bs" if "length bs = 1" for bs :: bytes using that by (cases bs) auto
  show "inverts wr_pos get_u8 (\<lambda>x w. w = put_u8 x)"
    unfolding get_u8_def put_u8_def by (rule inverts_mono [OF wrd.take_map_inverts [where g = "\<lambda>v. [v]", OF one]]) auto
  show "inverts wr_pos get_u16 (\<lambda>x w. w = put_u16 x)"
    unfolding get_u16_def put_u16_def by (rule inverts_mono [OF wrd.take_map_inverts [where g = to_le_bytes]]) (auto simp: to_le_from_le)
  show "inverts wr_pos get_u32 (\<lambda>x w. w = put_u32 x)"
    unfolding get_u32_def put_u32_def by (rule inverts_mono [OF wrd.take_map_inverts [where g = to_le_bytes]]) (auto simp: to_le_from_le)
  show "inverts wr_pos get_u64 (\<lambda>x w. w = put_u64 x)"
    unfolding get_u64_def put_u64_def by (rule inverts_mono [OF wrd.take_map_inverts [where g = to_le_bytes]]) (auto simp: to_le_from_le)
  show "inverts wr_pos (get_bytes n) (\<lambda>x w. w = put_bytes x \<and> length x = n)"
    unfolding get_bytes_def put_bytes_def by (rule wrd.take_inverts)
qed

lemma reads_list:
  assumes "\<And>x. x \<in> set xs \<Longrightarrow> reads wr_pos dec (enc x) x"
  shows "reads wr_pos (rd_repeat (length xs) dec) (concat (map enc xs)) xs"
  using assms
proof (induction xs)
  case Nil
  then show ?case by (simp add: reads_def)
next
  case (Cons x xs)
  show ?case
    unfolding list.size list.map concat.simps rd_repeat.simps add_Suc_right add_0_right
    by (rule reads_bind [OF Cons.prems [of x]], simp, rule reads_bind_last [OF Cons.IH], use Cons.prems in simp)
      (rule reads_return)
qed

end
