(* ===== verification/Game_Protocol.thy ===== *)
theory Game_Protocol
  imports Wire_Format
begin

text \<open>
  The session layer of the game transport, \<^verbatim>\<open>crates/net/src/transport/protocol.rs\<close>: what the
  two ends say of their content and limits, when a server admits a client, packet headers and
  rejections on the wire, and the table that gives each connection its client number.
\<close>

unbundle bit_operations_syntax

section \<open>Fields in sequence\<close>

lemma reads_Cons:
  "reads wr_pos m w x \<Longrightarrow> reads wr_pos (f x) (concat ws) y \<Longrightarrow> reads wr_pos (rd_bind m f) (concat (w # ws)) y"
  by (simp add: reads_bind)

lemma reads_Nil: "reads wr_pos (rd_return y) (concat []) y"
  by (simp add: reads_def)

lemmas fields = reads_Cons reads_Nil

lemma reads_eqI: "reads pos m w x \<Longrightarrow> x = y \<Longrightarrow> reads pos m w y"
  by simp

section \<open>Content and limits\<close>

record ContentFingerprint =
  cf_gameplay :: u64
  cf_map :: u64
  cf_models :: u64
  cf_weapons :: u64
  cf_classes :: u64

record MatchDescriptor =
  md_map :: u64
  md_weapons :: u64
  md_classes :: u64

definition from_fingerprint :: "ContentFingerprint \<Rightarrow> MatchDescriptor option" where
  "from_fingerprint content = (if cf_map content = 0 then None
     else Some \<lparr> md_map = cf_map content, md_weapons = cf_weapons content, md_classes = cf_classes content \<rparr>)"

abbreviation (input) MAX_PACKET_BYTES :: u32 where "MAX_PACKET_BYTES \<equiv> 0x40000"

record ProtocolLimits =
  authority_hz :: u32
  max_cmds_per_tick :: u16
  max_actions_per_tick :: u16
  max_packet_bytes :: u32

record HandshakeHello =
  hh_protocol_version :: u32
  hh_content :: ContentFingerprint
  hh_limits :: ProtocolLimits

datatype HandshakeReject =
    RejProtocolVersion u32 u32
  | RejMapContent u64 u64
  | RejWeaponRegistry u64 u64
  | RejClassRegistry u64 u64
  | RejTickRate u32 u32
  | RejLimits

definition evaluate_handshake :: "HandshakeHello \<Rightarrow> HandshakeHello \<Rightarrow> HandshakeReject + unit" where
  "evaluate_handshake server client =
     (if hh_protocol_version server \<noteq> hh_protocol_version client
      then Inl (RejProtocolVersion (hh_protocol_version server) (hh_protocol_version client))
      else if cf_map (hh_content server) = 0 \<or> cf_map (hh_content client) = 0
        \<or> cf_map (hh_content server) \<noteq> cf_map (hh_content client)
      then Inl (RejMapContent (cf_map (hh_content server)) (cf_map (hh_content client)))
      else if cf_weapons (hh_content server) \<noteq> cf_weapons (hh_content client)
      then Inl (RejWeaponRegistry (cf_weapons (hh_content server)) (cf_weapons (hh_content client)))
      else if cf_classes (hh_content server) \<noteq> cf_classes (hh_content client)
      then Inl (RejClassRegistry (cf_classes (hh_content server)) (cf_classes (hh_content client)))
      else if authority_hz (hh_limits server) \<noteq> authority_hz (hh_limits client)
      then Inl (RejTickRate (authority_hz (hh_limits server)) (authority_hz (hh_limits client)))
      else if hh_limits server \<noteq> hh_limits client then Inl RejLimits
      else Inr ())"

section \<open>Headers on the wire\<close>

datatype ConnectionId = ConnectionId (conn_raw: u64)

record PacketHeader =
  ph_connection :: ConnectionId
  ph_sequence :: u32
  ph_ack :: u32
  ph_epoch :: u32

definition applies_to_epoch :: "PacketHeader \<Rightarrow> u32 \<Rightarrow> bool" where
  "applies_to_epoch h live \<longleftrightarrow> ph_epoch h = live"

text \<open>
  This file has a \<open>u64\<close> of its own, high half first. \<open>hi_part\<close>, \<open>lo_part\<close> and \<open>join_halves\<close> are the
  casts and shifts the source writes out.
\<close>

definition hi_part :: "u64 \<Rightarrow> u32" where "hi_part v = ucast (drop_bit 32 v)"
definition lo_part :: "u64 \<Rightarrow> u32" where "lo_part v = ucast v"

definition join_halves :: "u32 \<Rightarrow> u32 \<Rightarrow> u64" where
  "join_halves hi lo = push_bit 32 (ucast hi) OR ucast lo"

definition put_split_u64 :: "u64 \<Rightarrow> bytes" where
  "put_split_u64 v = concat [put_u32 (hi_part v), put_u32 (lo_part v)]"

definition get_split_u64 :: "(WireReader, WireError, u64) rd" where
  "get_split_u64 = rd_bind get_u32 (\<lambda>hi. rd_bind get_u32 (\<lambda>lo. rd_return (join_halves hi lo)))"

lemma join_split [simp]: "join_halves (hi_part v) (lo_part v) = v"
  unfolding join_halves_def hi_part_def lo_part_def by (rule bit_word_eqI) (auto simp: bit_simps)

lemma split_join [simp]: "hi_part (join_halves hi lo) = hi" "lo_part (join_halves hi lo) = lo"
  unfolding join_halves_def hi_part_def lo_part_def
  by (rule bit_word_eqI; auto simp: bit_simps dest: bit_imp_le_length)+

definition put_hello :: "HandshakeHello \<Rightarrow> bytes" where
  "put_hello hello = concat [put_u32 (hh_protocol_version hello), put_split_u64 (cf_gameplay (hh_content hello)),
     put_split_u64 (cf_map (hh_content hello)), put_split_u64 (cf_models (hh_content hello)),
     put_split_u64 (cf_weapons (hh_content hello)), put_split_u64 (cf_classes (hh_content hello)),
     put_u32 (authority_hz (hh_limits hello)), put_u16 (max_cmds_per_tick (hh_limits hello)),
     put_u16 (max_actions_per_tick (hh_limits hello)), put_u32 (max_packet_bytes (hh_limits hello))]"

definition get_hello :: "(WireReader, WireError, HandshakeHello) rd" where
  "get_hello = rd_bind get_u32 (\<lambda>version. rd_bind get_split_u64 (\<lambda>gameplay. rd_bind get_split_u64 (\<lambda>mp.
     rd_bind get_split_u64 (\<lambda>models. rd_bind get_split_u64 (\<lambda>weapons. rd_bind get_split_u64 (\<lambda>classes.
     rd_bind get_u32 (\<lambda>hz. rd_bind get_u16 (\<lambda>cmds. rd_bind get_u16 (\<lambda>actions. rd_bind get_u32 (\<lambda>packet.
     rd_return \<lparr> hh_protocol_version = version,
       hh_content = \<lparr> cf_gameplay = gameplay, cf_map = mp, cf_models = models, cf_weapons = weapons, cf_classes = classes \<rparr>,
       hh_limits = \<lparr> authority_hz = hz, max_cmds_per_tick = cmds, max_actions_per_tick = actions,
                     max_packet_bytes = packet \<rparr> \<rparr>))))))))))"

definition put_header :: "PacketHeader \<Rightarrow> bytes" where
  "put_header h = concat [put_u32 (hi_part (conn_raw (ph_connection h))), put_u32 (lo_part (conn_raw (ph_connection h))),
     put_u32 (ph_sequence h), put_u32 (ph_ack h), put_u32 (ph_epoch h)]"

definition get_header :: "(WireReader, WireError, PacketHeader) rd" where
  "get_header = rd_bind get_u32 (\<lambda>hi. rd_bind get_u32 (\<lambda>lo. rd_bind get_u32 (\<lambda>sequence. rd_bind get_u32 (\<lambda>ack.
     rd_bind get_u32 (\<lambda>epoch. rd_return \<lparr> ph_connection = ConnectionId (join_halves hi lo), ph_sequence = sequence,
       ph_ack = ack, ph_epoch = epoch \<rparr>)))))"

fun put_reject :: "HandshakeReject \<Rightarrow> bytes" where
  "put_reject (RejProtocolVersion ours theirs) = concat [put_u8 1, put_u32 ours, put_u32 theirs]"
| "put_reject (RejMapContent ours theirs) = concat [put_u8 2, put_split_u64 ours, put_split_u64 theirs]"
| "put_reject (RejWeaponRegistry ours theirs) = concat [put_u8 3, put_split_u64 ours, put_split_u64 theirs]"
| "put_reject (RejClassRegistry ours theirs) = concat [put_u8 4, put_split_u64 ours, put_split_u64 theirs]"
| "put_reject (RejTickRate ours theirs) = concat [put_u8 5, put_u32 ours, put_u32 theirs]"
| "put_reject RejLimits = concat [put_u8 6]"

definition get_reject :: "(WireReader, WireError, HandshakeReject) rd" where
  "get_reject = rd_bind get_u8 (\<lambda>tag.
     if tag = 1 then rd_bind get_u32 (\<lambda>ours. rd_bind get_u32 (\<lambda>theirs. rd_return (RejProtocolVersion ours theirs)))
     else if tag = 2 then rd_bind get_split_u64 (\<lambda>ours. rd_bind get_split_u64 (\<lambda>theirs. rd_return (RejMapContent ours theirs)))
     else if tag = 3 then rd_bind get_split_u64 (\<lambda>ours. rd_bind get_split_u64 (\<lambda>theirs. rd_return (RejWeaponRegistry ours theirs)))
     else if tag = 4 then rd_bind get_split_u64 (\<lambda>ours. rd_bind get_split_u64 (\<lambda>theirs. rd_return (RejClassRegistry ours theirs)))
     else if tag = 5 then rd_bind get_u32 (\<lambda>ours. rd_bind get_u32 (\<lambda>theirs. rd_return (RejTickRate ours theirs)))
     else if tag = 6 then rd_return RejLimits
     else rd_lift (Inl (WireMalformed ''unknown HandshakeReject tag'')))"

lemma split_u64_reads [reads_rules]: "reads wr_pos get_split_u64 (put_split_u64 v) v"
  unfolding get_split_u64_def put_split_u64_def by (rule reads_eqI, (rule fields reads_rules)+) simp

lemma hello_reads [reads_rules]: "reads wr_pos get_hello (put_hello h) h"
  unfolding get_hello_def put_hello_def
  by (rule reads_eqI, (rule fields reads_rules)+)
    (cases h, cases "hh_content h", cases "hh_limits h", simp)

lemma header_reads [reads_rules]: "reads wr_pos get_header (put_header h) h"
  unfolding get_header_def put_header_def by (rule reads_eqI, (rule fields reads_rules)+) (cases h, simp)

lemma reject_reads [reads_rules]: "reads wr_pos get_reject (put_reject r) r"
  unfolding get_reject_def
  by (cases r; simp only: put_reject.simps; rule reads_Cons, rule get_reads, simp del: concat.simps, ((rule fields reads_rules)+)?)

section \<open>Connections\<close>

record ConnectionTable =
  next_conn :: u64
  next_client :: u32
  assigned :: "(ConnectionId, u32) hash_map"

definition starting_at :: "u32 \<Rightarrow> ConnectionTable" where
  "starting_at first_client = \<lparr> next_conn = 0, next_client = first_client, assigned = [] \<rparr>"

text \<open>The loop of \<open>accept_new\<close>: it does not end when every number is occupied.\<close>

partial_function (option) skip_occupied :: "u32 list \<Rightarrow> u32 \<Rightarrow> u32 option" where
  "skip_occupied occupied c = (if c \<in> set occupied then skip_occupied occupied (c + 1) else Some c)"

declare skip_occupied.simps [code]

definition accept_new :: "u32 list \<Rightarrow> ConnectionTable \<Rightarrow> ((ConnectionId \<times> u32) \<times> ConnectionTable) option" where
  "accept_new occupied t = map_option (\<lambda>client.
     let conn = ConnectionId (next_conn t + 1) in
     ((conn, client), t\<lparr> next_conn := next_conn t + 1, next_client := client + 1,
        assigned := hm_insert conn client (assigned t) \<rparr>)) (skip_occupied occupied (next_client t))"

datatype IdentityError = UnknownConnection

definition resolve :: "ConnectionId \<Rightarrow> u32 \<Rightarrow> ConnectionTable \<Rightarrow> IdentityError + u32" where
  "resolve conn claimed t = ok_or UnknownConnection (hm_get (assigned t) conn)"

definition retire :: "ConnectionId \<Rightarrow> ConnectionTable \<Rightarrow> u32 option \<times> ConnectionTable" where
  "retire conn t = (hm_get (assigned t) conn, t\<lparr> assigned := hm_remove conn (assigned t) \<rparr>)"

definition client_of :: "ConnectionId \<Rightarrow> ConnectionTable \<Rightarrow> u32 option" where
  "client_of conn t = hm_get (assigned t) conn"

definition clients :: "ConnectionTable \<Rightarrow> u32 list" where
  "clients t = map snd (assigned t)"

lemma skip_occupied_step:
  "c + of_nat k \<notin> set occupied \<Longrightarrow> \<exists>c'. skip_occupied occupied c = Some c' \<and> c' \<notin> set occupied"
proof (induction k arbitrary: c)
  case 0
  then show ?case by (subst skip_occupied.simps) simp
next
  case (Suc k)
  then have "c + 1 + of_nat k \<notin> set occupied" by (simp add: add.assoc)
  from Suc.IH [OF this] show ?case by (subst skip_occupied.simps) auto
qed

lemma skip_occupied_free: "skip_occupied occupied c = Some c' \<Longrightarrow> c' \<notin> set occupied"
  by (rule skip_occupied.raw_induct [of "\<lambda>oc _ c'. c' \<notin> set oc"]) (auto split: if_splits)

lemma free_number:
  assumes "length occupied < 2 ^ 32"
  shows "\<exists>k. (c :: u32) + of_nat k \<notin> set occupied"
proof -
  have "card (set occupied) < card (UNIV :: u32 set)"
    using assms card_length [of occupied] by (simp add: card_word)
  then obtain x where "x \<notin> set occupied" by (metis UNIV_eq_I less_irrefl)
  moreover have "x = c + of_nat (unat (x - c))" by simp
  ultimately show ?thesis by metis
qed

lemma accept_new_Some:
  assumes "accept_new occupied t = Some ((conn, client), t')"
  shows "conn = ConnectionId (next_conn t + 1)" and "client \<notin> set occupied"
    and "assigned t' = hm_insert conn client (assigned t)" and "next_conn t' = next_conn t + 1"
  using assms skip_occupied_free by (auto simp: accept_new_def Let_def)

text \<open>A table in use: connections come and go.\<close>

datatype table_op = Accept "u32 list" | Retire ConnectionId

fun run_table :: "table_op list \<Rightarrow> ConnectionTable \<Rightarrow> (ConnectionId list \<times> ConnectionTable) option" where
  "run_table [] t = Some ([], t)"
| "run_table (Accept occupied # ops) t = (case accept_new occupied t of None \<Rightarrow> None
     | Some ((conn, client), t1) \<Rightarrow> map_option (\<lambda>(cs, t2). (conn # cs, t2)) (run_table ops t1))"
| "run_table (Retire conn # ops) t = run_table ops (snd (retire conn t))"

lemma run_table_issued:
  "run_table ops t = Some (cs, t') \<Longrightarrow> length cs \<le> length ops
     \<and> cs = map (\<lambda>i. ConnectionId (next_conn t + of_nat (Suc i))) [0..<length cs]
     \<and> set (hm_keys (assigned t')) \<subseteq> set (hm_keys (assigned t)) \<union> set cs"
proof (induction ops t arbitrary: cs t' rule: run_table.induct)
  case (2 occupied ops t)
  from "2.prems" obtain conn client t1 cs' where
    a: "accept_new occupied t = Some ((conn, client), t1)" and r: "run_table ops t1 = Some (cs', t')" and cs: "cs = conn # cs'"
    by (auto split: option.splits prod.splits)
  note n = accept_new_Some [OF a]
  from "2.IH" [OF a refl refl r] have IH: "length cs' \<le> length ops"
    "cs' = map (\<lambda>i. ConnectionId (next_conn t1 + of_nat (Suc i))) [0..<length cs']"
    "set (hm_keys (assigned t')) \<subseteq> set (hm_keys (assigned t1)) \<union> set cs'" by auto
  have "cs = map (\<lambda>i. ConnectionId (next_conn t + of_nat (Suc i))) [0..<length cs]"
    unfolding cs list.size by (subst IH(2)) (simp add: n(1,4) upt_conv_Cons map_Suc_upt [symmetric] add.assoc del: upt_Suc)
  moreover have "set (hm_keys (assigned t1)) = insert conn (set (hm_keys (assigned t)))"
    unfolding n(3) by (rule hm.keys_insert)
  with IH(3) cs have "set (hm_keys (assigned t')) \<subseteq> set (hm_keys (assigned t)) \<union> set cs" by auto
  moreover have "length cs \<le> length (Accept occupied # ops)" using IH(1) cs by simp
  ultimately show ?case by blast
next
  case (3 conn ops t)
  have k: "set (hm_keys (hm_remove conn (assigned t))) \<subseteq> set (hm_keys (assigned t))"
    by (subst hm.keys_remove) blast
  have f: "next_conn (snd (retire conn t)) = next_conn t" "assigned (snd (retire conn t)) = hm_remove conn (assigned t)"
    by (simp_all add: retire_def)
  note IH = "3.IH" [OF "3.prems" [unfolded run_table.simps], unfolded f]
  show ?case
  proof (intro conjI)
    show "length cs \<le> length (Retire conn # ops)" using IH by simp
    show "cs = map (\<lambda>i. ConnectionId (next_conn t + of_nat (Suc i))) [0..<length cs]" using IH by blast
    show "set (hm_keys (assigned t')) \<subseteq> set (hm_keys (assigned t)) \<union> set cs"
      using IH k by blast
  qed
qed simp

section \<open>Properties\<close>

text \<open>
  A client is admitted exactly when the two ends agree: same protocol version, same map
  (which must be known), weapons and classes, same limits. The test is the same from either end,
  and a rejection arrives as it was sent.
\<close>

lemma handshake_agreement:
  "(evaluate_handshake a b = Inr () \<longleftrightarrow> hh_protocol_version a = hh_protocol_version b \<and> hh_limits a = hh_limits b
      \<and> from_fingerprint (hh_content a) \<noteq> None \<and> from_fingerprint (hh_content a) = from_fingerprint (hh_content b))
   \<and> (evaluate_handshake a b = Inr () \<longleftrightarrow> evaluate_handshake b a = Inr ())
   \<and> reads wr_pos get_reject (put_reject r) r"
  by (auto simp: evaluate_handshake_def from_fingerprint_def reject_reads)

text \<open>
  Accepting a connection ends whenever fewer than all client numbers are occupied; it gives a
  number that is not occupied, and the connection resolves to that number whatever number the
  client claims.
\<close>

lemma accept_new_terminates:
  assumes "length occupied < 2 ^ 32"
  shows "\<exists>conn client t'. accept_new occupied t = Some ((conn, client), t') \<and> client \<notin> set occupied
    \<and> (\<forall>claimed. resolve conn claimed t' = Inr client)"
proof -
  from free_number [OF assms] skip_occupied_step obtain client where
    "skip_occupied occupied (next_client t) = Some client" "client \<notin> set occupied" by blast
  then show ?thesis by (auto simp: accept_new_def Let_def resolve_def update_conv')
qed

text \<open>
  Connection identifiers are not reused: however connections are accepted and retired, fewer
  than \<open>2 ^ 64\<close> operations issue pairwise different identifiers, and only issued identifiers resolve.
\<close>

lemma connections_distinct:
  assumes "run_table ops (starting_at first) = Some (cs, t)" and "length ops < 2 ^ 64"
  shows "distinct cs \<and> (\<forall>conn claimed client. resolve conn claimed t = Inr client \<longrightarrow> conn \<in> set cs)"
proof -
  note r = run_table_issued [OF assms(1)]
  have "inj_on (\<lambda>i. ConnectionId (next_conn (starting_at first) + of_nat (Suc i))) {0..<length cs}"
  proof (rule inj_onI)
    fix i j
    assume "i \<in> {0..<length cs}" "j \<in> {0..<length cs}"
      "ConnectionId (next_conn (starting_at first) + of_nat (Suc i)) = ConnectionId (next_conn (starting_at first) + of_nat (Suc j))"
    moreover from this r assms(2) have "i < 2 ^ 64" "j < 2 ^ 64" by auto
    ultimately show "i = j" by (simp add: word_of_nat_eq_iff take_bit_nat_eq_self)
  qed
  then have "distinct (map (\<lambda>i. ConnectionId (next_conn (starting_at first) + of_nat (Suc i))) [0..<length cs])"
    by (simp add: distinct_map del: of_nat_Suc)
  with r have "distinct cs" by metis
  moreover have "set (hm_keys (assigned t)) \<subseteq> set cs" using r by (simp add: starting_at_def)
  ultimately show ?thesis by (force simp: resolve_def dest: map_of_SomeD)
qed

end
