(* ===== verification/Float32.thy ===== *)
theory Float32
  imports Prelude
begin

text \<open>
  Rust's \<open>f32\<close>: IEEE 754 binary32 numbers as their bit patterns, with the operations the modelled
  sources use of them, computed exactly over the integers and rounded to nearest, ties to even.
  A finite number is \<open>m * 2 ^ e\<close> with a sign bit. A result that is not a number is the one
  quiet \<open>NaN\<close>; which of the \<open>NaN\<close>s an operation returns is never observed by the sources.
\<close>

unbundle bit_operations_syntax

type_synonym f32 = u32
type_synonym vec3 = "f32 \<times> f32 \<times> f32"

section \<open>Classes and order\<close>

text \<open>\<open>f32::is_finite\<close>: the exponent is not all ones.\<close>

definition is_finite :: "f32 \<Rightarrow> bool" where
  "is_finite b \<longleftrightarrow> take_bit 8 (drop_bit 23 b) \<noteq> 0xff"

definition f32_is_nan :: "f32 \<Rightarrow> bool" where
  "f32_is_nan b \<longleftrightarrow> 0x7f800000 < b AND 0x7fffffff"

definition f32_is_inf :: "f32 \<Rightarrow> bool" where
  "f32_is_inf b \<longleftrightarrow> b AND 0x7fffffff = 0x7f800000"

definition f32_is_zero :: "f32 \<Rightarrow> bool" where
  "f32_is_zero b \<longleftrightarrow> b AND 0x7fffffff = 0"

definition f32_neg :: "f32 \<Rightarrow> bool" where
  "f32_neg b \<longleftrightarrow> bit b 31"

text \<open>The derived \<open>PartialEq\<close> and \<open>PartialOrd\<close>: a \<open>NaN\<close> is unordered, the two zeros are equal.\<close>

definition f32_eq :: "f32 \<Rightarrow> f32 \<Rightarrow> bool" where
  "f32_eq a b \<longleftrightarrow> \<not> f32_is_nan a \<and> \<not> f32_is_nan b \<and> (a = b \<or> (a AND 0x7fffffff = 0 \<and> b AND 0x7fffffff = 0))"

fun vec3_eq :: "vec3 \<Rightarrow> vec3 \<Rightarrow> bool" where
  "vec3_eq (a, b, c) (x, y, z) \<longleftrightarrow> f32_eq a x \<and> f32_eq b y \<and> f32_eq c z"

definition f32_key :: "f32 \<Rightarrow> int" where
  "f32_key b = (if f32_neg b then - uint (b AND 0x7fffffff) else uint (b AND 0x7fffffff))"

definition f32_lt :: "f32 \<Rightarrow> f32 \<Rightarrow> bool" where
  "f32_lt a b \<longleftrightarrow> \<not> f32_is_nan a \<and> \<not> f32_is_nan b \<and> f32_key a < f32_key b"

definition f32_le :: "f32 \<Rightarrow> f32 \<Rightarrow> bool" where
  "f32_le a b \<longleftrightarrow> \<not> f32_is_nan a \<and> \<not> f32_is_nan b \<and> f32_key a \<le> f32_key b"

text \<open>\<open>f32::max\<close> ignores a \<open>NaN\<close> operand.\<close>

definition f32_max :: "f32 \<Rightarrow> f32 \<Rightarrow> f32" where
  "f32_max a b = (if f32_is_nan a then b else if f32_is_nan b then a else if f32_lt a b then b else a)"

abbreviation (input) F32_ZERO :: f32 where "F32_ZERO \<equiv> 0"
abbreviation (input) F32_HALF :: f32 where "F32_HALF \<equiv> 0x3f000000"
abbreviation (input) F32_ONE :: f32 where "F32_ONE \<equiv> 0x3f800000"
abbreviation (input) F32_NAN :: f32 where "F32_NAN \<equiv> 0x7fc00000"

section \<open>Rounding\<close>

text \<open>The quotient of two naturals, to the nearest natural, ties to even.\<close>

definition round_half_even :: "nat \<Rightarrow> nat \<Rightarrow> nat" where
  "round_half_even n d = (let q = n div d; r = n mod d in
     if 2 * r < d \<or> (2 * r = d \<and> even q) then q else q + 1)"

fun bit_len :: "nat \<Rightarrow> nat" where
  "bit_len n = (if n = 0 then 0 else Suc (bit_len (n div 2)))"

declare bit_len.simps [simp del]

text \<open>The exponent of the leading binary digit of \<open>p / q * 2 ^ e\<close>.\<close>

definition lead_exp :: "nat \<Rightarrow> nat \<Rightarrow> int \<Rightarrow> int" where
  "lead_exp p q e = (let k = int (bit_len p) - int (bit_len q) in
     (if q * 2 ^ nat k \<le> p * 2 ^ nat (- k) then k else k - 1) + e)"

text \<open>
  The magnitude bits of the number nearest to \<open>p / q * 2 ^ e\<close>: the digits from the one of weight
  \<open>2 ^ t\<close> on, with the exponent added in above them, so that a carry out of the digits is the next
  exponent and one out of the exponents is infinity.
\<close>

definition round_mag :: "nat \<Rightarrow> nat \<Rightarrow> int \<Rightarrow> nat" where
  "round_mag p q e = (let t = max (- 149) (lead_exp p q e - 23) in
     min 0x7f800000 (nat (t + 149) * 2 ^ 23 + round_half_even (p * 2 ^ nat (e - t)) (q * 2 ^ nat (t - e))))"

definition f32_pack :: "bool \<Rightarrow> nat \<Rightarrow> f32" where
  "f32_pack s mag = (if s then 0x80000000 OR of_nat mag else of_nat mag)"

text \<open>The digits and the exponent of a finite number.\<close>

definition f32_parts :: "f32 \<Rightarrow> nat \<times> int" where
  "f32_parts b = (let e = unat (take_bit 8 (drop_bit 23 b)); f = unat (take_bit 23 b) in
     if e = 0 then (f, - 149) else (0x800000 + f, int e - 150))"

section \<open>Arithmetic\<close>

definition f32_mul :: "f32 \<Rightarrow> f32 \<Rightarrow> f32" where
  "f32_mul a b = (let s = (f32_neg a \<noteq> f32_neg b) in
     if f32_is_nan a \<or> f32_is_nan b \<or> (f32_is_inf a \<and> f32_is_zero b) \<or> (f32_is_zero a \<and> f32_is_inf b) then F32_NAN
     else if f32_is_inf a \<or> f32_is_inf b then f32_pack s 0x7f800000
     else if f32_is_zero a \<or> f32_is_zero b then f32_pack s 0
     else case f32_parts a of (m, e) \<Rightarrow> case f32_parts b of (n, d) \<Rightarrow> f32_pack s (round_mag (m * n) 1 (e + d)))"

definition f32_div :: "f32 \<Rightarrow> f32 \<Rightarrow> f32" where
  "f32_div a b = (let s = (f32_neg a \<noteq> f32_neg b) in
     if f32_is_nan a \<or> f32_is_nan b \<or> (f32_is_inf a \<and> f32_is_inf b) \<or> (f32_is_zero a \<and> f32_is_zero b) then F32_NAN
     else if f32_is_inf a \<or> f32_is_zero b then f32_pack s 0x7f800000
     else if f32_is_zero a \<or> f32_is_inf b then f32_pack s 0
     else case f32_parts a of (m, e) \<Rightarrow> case f32_parts b of (n, d) \<Rightarrow> f32_pack s (round_mag m n (e - d)))"

definition f32_add :: "f32 \<Rightarrow> f32 \<Rightarrow> f32" where
  "f32_add a b =
     (if f32_is_nan a \<or> f32_is_nan b \<or> (f32_is_inf a \<and> f32_is_inf b \<and> f32_neg a \<noteq> f32_neg b) then F32_NAN
      else if f32_is_inf a then a else if f32_is_inf b then b
      else case f32_parts a of (m, e) \<Rightarrow> case f32_parts b of (n, d) \<Rightarrow>
        let l = min e d;
            v = (if f32_neg a then -1 else 1) * int (m * 2 ^ nat (e - l))
              + (if f32_neg b then -1 else 1) * int (n * 2 ^ nat (d - l))
        in if v = 0 then f32_pack (f32_neg a \<and> f32_neg b) 0 else f32_pack (v < 0) (round_mag (nat \<bar>v\<bar>) 1 l))"

definition f32_sub :: "f32 \<Rightarrow> f32 \<Rightarrow> f32" where
  "f32_sub a b = f32_add a (b XOR 0x80000000)"

section \<open>Conversions\<close>

text \<open>\<open>i32 as f32\<close> rounds; \<open>f32 as i32\<close> truncates and saturates, and maps a \<open>NaN\<close> to zero.\<close>

definition f32_of_i32 :: "int \<Rightarrow> f32" where
  "f32_of_i32 n = (if n = 0 then F32_ZERO else f32_pack (n < 0) (round_mag (nat \<bar>n\<bar>) 1 0))"

definition f32_trunc :: "f32 \<Rightarrow> int" where
  "f32_trunc b = (case f32_parts b of (m, e) \<Rightarrow>
     (if f32_neg b then -1 else 1) * int (m * 2 ^ nat e div 2 ^ nat (- e)))"

definition i32_of_f32 :: "f32 \<Rightarrow> int" where
  "i32_of_f32 b =
     (if f32_is_nan b then 0
      else if f32_is_inf b then (if f32_neg b then - (2 ^ 31) else 2 ^ 31 - 1)
      else max (- (2 ^ 31)) (min (2 ^ 31 - 1) (f32_trunc b)))"

end
