(* ===== verification/Client_Actions.thy ===== *)
theory Client_Actions
  imports Game_Protocol Float32
begin

text \<open>
  What a client asks of the server, on the wire: user commands
  (\<^verbatim>\<open>crates/net/src/transport/delta.rs\<close>), actions (\<^verbatim>\<open>meta_wire.rs\<close>, with the types of
  \<^verbatim>\<open>crates/sim/src/input.rs\<close>) and shot samples (\<^verbatim>\<open>protocol.rs\<close>). An \<open>f32\<close> is its bit pattern;
  small arrays are tuples, the text arrays are byte lists whose length \<open>action_ok\<close> fixes.
\<close>

section \<open>Types\<close>


datatype ClassId = ClassId (class_raw: u32)
datatype MatchPhase = Warmup | Playing | Intermission | PostGame
datatype SpawnPick = Seeded u64 | At vec3 f32

record PersonalClass =
  pc_weapons :: "u32 \<times> u32 \<times> u32 \<times> u32"
  pc_perks :: "u32 \<times> u32 \<times> u32"
  pc_deathstreak :: u8
  pc_camos :: "u8 \<times> u8"

record PlayerProfile =
  pr_title :: u32
  pr_emblem :: u32
  pr_killstreaks :: "u32 \<times> u32 \<times> u32"

abbreviation (input) MENU_RESPONSE_BYTES :: nat where "MENU_RESPONSE_BYTES \<equiv> 48"
abbreviation (input) CHAT_BYTES :: nat where "CHAT_BYTES \<equiv> 150"
abbreviation (input) NAME_BYTES :: nat where "NAME_BYTES \<equiv> 16"

datatype ClientAction =
    JoinMatch u32
  | LeaveMatch u32
  | SelectClass u32 ClassId u32 PersonalClass
  | GiveWeapon u32 u32 u8
  | ChangeWeaponCamo u32 u32 u8
  | ChangeWeaponConfiguration u32 u32 u32
  | ForceDeath u32
  | SpawnClient u32
  | ForceSpawn u32 SpawnPick
  | SpawnIntermission u32
  | SetMatchPhase u32 MatchPhase
  | Move u32 vec3 vec3
  | BeginScriptMoverRotateVelocity u32 f32
  | ToggleGod u32
  | DebugDamage u32 "32 word"
  | SetProfile u32 PlayerProfile
  | SetName u32 bytes
  | Chat u32 bool bytes
  | UseCopycat u32
  | ActionSlot u32 u8
  | ChooseDefaultClass u32 u8
  | MenuResponse u32 bytes bytes
  | ResupplyAmmo u32
  | GiveKillstreak u32 bytes

record UserCmd =
  uc_server_time :: "32 word"
  uc_buttons :: u32
  uc_angles :: "32 word \<times> 32 word \<times> 32 word"
  uc_gun_angle_offset :: "f32 \<times> f32"
  uc_weapon :: u16
  uc_weapon_mapped :: u16
  uc_off_hand_index :: u16
  uc_forwardmove :: "8 word"
  uc_rightmove :: "8 word"
  uc_melee_charge_yaw :: f32
  uc_melee_charge_dist :: u8
  uc_selected_location :: "u8 \<times> u8 \<times> u8"
  uc_remote_control :: "u8 \<times> u8"

datatype ShotSampleQuality = QNone | QExact | QInterpolated | QHeld | QStarved

record ShotSampleProvenance =
  ss_left :: u32
  ss_right :: u32
  ss_alpha :: f32
  ss_quality :: ShotSampleQuality

section \<open>Small vectors\<close>

definition put_vec3 :: "vec3 \<Rightarrow> bytes" where
  "put_vec3 v = (case v of (x, y, z) \<Rightarrow> concat [put_f32 x, put_f32 y, put_f32 z])"

definition get_vec3 :: "(WireReader, WireError, vec3) rd" where
  "get_vec3 = rd_bind get_f32 (\<lambda>x. rd_bind get_f32 (\<lambda>y. rd_bind get_f32 (\<lambda>z. rd_return (x, y, z))))"

definition put_three :: "u32 \<times> u32 \<times> u32 \<Rightarrow> bytes" where
  "put_three v = (case v of (x, y, z) \<Rightarrow> concat [put_u32 x, put_u32 y, put_u32 z])"

definition get_three :: "(WireReader, WireError, u32 \<times> u32 \<times> u32) rd" where
  "get_three = rd_bind get_u32 (\<lambda>x. rd_bind get_u32 (\<lambda>y. rd_bind get_u32 (\<lambda>z. rd_return (x, y, z))))"

definition put_pair8 :: "u8 \<times> u8 \<Rightarrow> bytes" where
  "put_pair8 v = (case v of (x, y) \<Rightarrow> concat [put_u8 x, put_u8 y])"

definition get_pair8 :: "(WireReader, WireError, u8 \<times> u8) rd" where
  "get_pair8 = rd_bind get_u8 (\<lambda>x. rd_bind get_u8 (\<lambda>y. rd_return (x, y)))"

lemma vector_reads [reads_rules]:
  "reads wr_pos get_vec3 (put_vec3 v) v" "reads wr_pos get_three (put_three u) u" "reads wr_pos get_pair8 (put_pair8 p) p"
  unfolding get_vec3_def put_vec3_def get_three_def put_three_def get_pair8_def put_pair8_def
  by (cases v; cases u; cases p; simp only: prod.case; (rule fields reads_rules)+)+

section \<open>Actions\<close>

fun phase_tag :: "MatchPhase \<Rightarrow> u8" where
  "phase_tag Warmup = 0" | "phase_tag Playing = 1" | "phase_tag Intermission = 2" | "phase_tag PostGame = 3"

definition phase_from_tag :: "u8 \<Rightarrow> WireError + MatchPhase" where
  "phase_from_tag tag = (if tag = 0 then Inr Warmup else if tag = 1 then Inr Playing
     else if tag = 2 then Inr Intermission else if tag = 3 then Inr PostGame
     else Inl (WireMalformed ''unknown MatchPhase tag''))"

fun put_pick :: "SpawnPick \<Rightarrow> bytes" where
  "put_pick (Seeded seed) = concat [put_u8 0, put_u32 (lo_part seed), put_u32 (hi_part seed)]"
| "put_pick (At origin yaw) = concat [put_u8 1, put_vec3 origin, put_f32 yaw]"

definition get_pick :: "(WireReader, WireError, SpawnPick) rd" where
  "get_pick = rd_bind get_u8 (\<lambda>tag.
     if tag = 0 then rd_bind get_u32 (\<lambda>lo. rd_bind get_u32 (\<lambda>hi. rd_return (Seeded (join_halves hi lo))))
     else if tag = 1 then rd_bind get_vec3 (\<lambda>origin. rd_bind get_f32 (\<lambda>yaw. rd_return (At origin yaw)))
     else rd_lift (Inl (WireMalformed ''unknown SpawnPick tag'')))"

definition put_class :: "PersonalClass \<Rightarrow> bytes" where
  "put_class c = (case pc_weapons c of (w0, w) \<Rightarrow>
     concat [put_u32 w0, put_three w, put_three (pc_perks c), put_u8 (pc_deathstreak c), put_pair8 (pc_camos c)])"

definition get_class :: "(WireReader, WireError, PersonalClass) rd" where
  "get_class = rd_bind get_u32 (\<lambda>w0. rd_bind get_three (\<lambda>w. rd_bind get_three (\<lambda>perks. rd_bind get_u8 (\<lambda>deathstreak.
     rd_bind get_pair8 (\<lambda>camos. rd_return \<lparr> pc_weapons = (w0, w), pc_perks = perks, pc_deathstreak = deathstreak,
       pc_camos = camos \<rparr>)))))"

definition put_profile :: "PlayerProfile \<Rightarrow> bytes" where
  "put_profile p = concat [put_u32 (pr_title p), put_u32 (pr_emblem p), put_three (pr_killstreaks p)]"

definition get_profile :: "(WireReader, WireError, PlayerProfile) rd" where
  "get_profile = rd_bind get_u32 (\<lambda>title. rd_bind get_u32 (\<lambda>emblem. rd_bind get_three (\<lambda>rows.
     rd_return \<lparr> pr_title = title, pr_emblem = emblem, pr_killstreaks = rows \<rparr>)))"

fun encode_action :: "ClientAction \<Rightarrow> bytes" where
  "encode_action (JoinMatch r) = concat [put_u8 2, put_u32 r]"
| "encode_action (LeaveMatch r) = concat [put_u8 3, put_u32 r]"
| "encode_action (SelectClass r c revision loadout) =
     concat [put_u8 1, put_u32 r, put_u32 (class_raw c), put_u32 revision, put_class loadout]"
| "encode_action (GiveWeapon r weapon model) = concat [put_u8 6, put_u32 r, put_u32 weapon, put_u8 model]"
| "encode_action (ChangeWeaponCamo r weapon model) = concat [put_u8 23, put_u32 r, put_u32 weapon, put_u8 model]"
| "encode_action (ChangeWeaponConfiguration r from_w to_w) = concat [put_u8 15, put_u32 r, put_u32 from_w, put_u32 to_w]"
| "encode_action (Move r origin angles) = concat [put_u8 7, put_u32 r, put_vec3 origin, put_vec3 angles]"
| "encode_action (BeginScriptMoverRotateVelocity r speed) = concat [put_u8 9, put_u32 r, put_f32 speed]"
| "encode_action (ToggleGod r) = concat [put_u8 22, put_u32 r]"
| "encode_action (DebugDamage r amount) = concat [put_u8 10, put_u32 r, put_i32 amount]"
| "encode_action (ForceDeath r) = concat [put_u8 4, put_u32 r]"
| "encode_action (SpawnClient r) = concat [put_u8 8, put_u32 r]"
| "encode_action (ForceSpawn r pick) = concat [put_u8 14, put_u32 r, put_pick pick]"
| "encode_action (SpawnIntermission r) = concat [put_u8 12, put_u32 r]"
| "encode_action (SetMatchPhase r phase) = concat [put_u8 5, put_u32 r, put_u8 (phase_tag phase)]"
| "encode_action (SetProfile r profile) = concat [put_u8 21, put_u32 r, put_profile profile]"
| "encode_action (SetName r name) = concat [put_u8 11, put_u32 r, put_bytes name]"
| "encode_action (Chat r team_only txt) = concat [put_u8 24, put_u32 r, put_u8 (of_bool team_only), put_bytes txt]"
| "encode_action (UseCopycat r) = concat [put_u8 13, put_u32 r]"
| "encode_action (ActionSlot r slot) = concat [put_u8 19, put_u32 r, put_u8 slot]"
| "encode_action (ChooseDefaultClass r index) = concat [put_u8 16, put_u32 r, put_u8 index]"
| "encode_action (MenuResponse r menu response) = concat [put_u8 17, put_u32 r, put_bytes menu, put_bytes response]"
| "encode_action (ResupplyAmmo r) = concat [put_u8 20, put_u32 r]"
| "encode_action (GiveKillstreak r name) = concat [put_u8 18, put_u32 r, put_bytes name]"

definition chat_audience :: "u8 \<Rightarrow> WireError + bool" where
  "chat_audience b = (if b = 0 then Inr False else if b = 1 then Inr True
     else Inl (WireMalformed ''invalid chat audience''))"

text \<open>Every action carries its request identifier right after the tag.\<close>

definition decode_action_tagged :: "u8 \<Rightarrow> u32 \<Rightarrow> (WireReader, WireError, ClientAction) rd" where
  "decode_action_tagged tag r =
     (if tag = 1 then rd_bind get_u32 (\<lambda>c. rd_bind get_u32 (\<lambda>revision. rd_bind get_class (\<lambda>loadout.
        rd_return (SelectClass r (ClassId c) revision loadout))))
      else if tag = 2 then rd_return (JoinMatch r)
      else if tag = 3 then rd_return (LeaveMatch r)
      else if tag = 4 then rd_return (ForceDeath r)
      else if tag = 8 then rd_return (SpawnClient r)
      else if tag = 12 then rd_return (SpawnIntermission r)
      else if tag = 5 then rd_bind get_u8 (\<lambda>p. rd_bind (rd_lift (phase_from_tag p)) (\<lambda>phase. rd_return (SetMatchPhase r phase)))
      else if tag = 6 then rd_bind get_u32 (\<lambda>weapon. rd_bind get_u8 (\<lambda>model. rd_return (GiveWeapon r weapon model)))
      else if tag = 23 then rd_bind get_u32 (\<lambda>weapon. rd_bind get_u8 (\<lambda>model. rd_return (ChangeWeaponCamo r weapon model)))
      else if tag = 15 then rd_bind get_u32 (\<lambda>from_w. rd_bind get_u32 (\<lambda>to_w. rd_return (ChangeWeaponConfiguration r from_w to_w)))
      else if tag = 7 then rd_bind get_vec3 (\<lambda>origin. rd_bind get_vec3 (\<lambda>angles. rd_return (Move r origin angles)))
      else if tag = 9 then rd_bind get_f32 (\<lambda>speed. rd_return (BeginScriptMoverRotateVelocity r speed))
      else if tag = 10 then rd_bind get_i32 (\<lambda>amount. rd_return (DebugDamage r amount))
      else if tag = 11 then rd_bind (get_bytes NAME_BYTES) (\<lambda>name. rd_return (SetName r name))
      else if tag = 21 then rd_bind get_profile (\<lambda>profile. rd_return (SetProfile r profile))
      else if tag = 24 then rd_bind get_u8 (\<lambda>b. rd_bind (rd_lift (chat_audience b)) (\<lambda>team_only.
        rd_bind (get_bytes CHAT_BYTES) (\<lambda>txt. rd_return (Chat r team_only txt))))
      else if tag = 13 then rd_return (UseCopycat r)
      else if tag = 19 then rd_bind get_u8 (\<lambda>slot. rd_return (ActionSlot r slot))
      else if tag = 16 then rd_bind get_u8 (\<lambda>index. rd_return (ChooseDefaultClass r index))
      else if tag = 17 then rd_bind (get_bytes MENU_RESPONSE_BYTES) (\<lambda>menu.
        rd_bind (get_bytes MENU_RESPONSE_BYTES) (\<lambda>response. rd_return (MenuResponse r menu response)))
      else if tag = 22 then rd_return (ToggleGod r)
      else if tag = 20 then rd_return (ResupplyAmmo r)
      else if tag = 18 then rd_bind (get_bytes MENU_RESPONSE_BYTES) (\<lambda>name. rd_return (GiveKillstreak r name))
      else if tag = 14 then rd_bind get_pick (\<lambda>pick. rd_return (ForceSpawn r pick))
      else rd_lift (Inl (WireMalformed ''unknown ClientAction tag'')))"

definition known_action_tag :: "u8 \<Rightarrow> bool" where
  "known_action_tag tag \<longleftrightarrow> 1 \<le> tag \<and> tag \<le> 24"

definition decode_action :: "(WireReader, WireError, ClientAction) rd" where
  "decode_action = rd_bind get_u8 (\<lambda>tag.
     if known_action_tag tag then rd_bind get_u32 (decode_action_tagged tag)
     else rd_lift (Inl (WireMalformed ''unknown ClientAction tag'')))"

fun action_request_id :: "ClientAction \<Rightarrow> u32" where
  "action_request_id (JoinMatch r) = r"
| "action_request_id (LeaveMatch r) = r"
| "action_request_id (SelectClass r _ _ _) = r"
| "action_request_id (GiveWeapon r _ _) = r"
| "action_request_id (ChangeWeaponCamo r _ _) = r"
| "action_request_id (ChangeWeaponConfiguration r _ _) = r"
| "action_request_id (ForceDeath r) = r"
| "action_request_id (SpawnClient r) = r"
| "action_request_id (ForceSpawn r _) = r"
| "action_request_id (SpawnIntermission r) = r"
| "action_request_id (SetMatchPhase r _) = r"
| "action_request_id (Move r _ _) = r"
| "action_request_id (BeginScriptMoverRotateVelocity r _) = r"
| "action_request_id (ToggleGod r) = r"
| "action_request_id (DebugDamage r _) = r"
| "action_request_id (SetProfile r _) = r"
| "action_request_id (SetName r _) = r"
| "action_request_id (Chat r _ _) = r"
| "action_request_id (UseCopycat r) = r"
| "action_request_id (ActionSlot r _) = r"
| "action_request_id (ChooseDefaultClass r _) = r"
| "action_request_id (MenuResponse r _ _) = r"
| "action_request_id (ResupplyAmmo r) = r"
| "action_request_id (GiveKillstreak r _) = r"

section \<open>User commands and shot samples\<close>

definition encode_usercmd :: "UserCmd \<Rightarrow> bytes" where
  "encode_usercmd c = (case uc_gun_angle_offset c of (g0, g1) \<Rightarrow> case uc_angles c of (a0, a1, a2) \<Rightarrow>
     case uc_selected_location c of (s0, s) \<Rightarrow>
     concat [put_i32 (uc_server_time c), put_u32 (uc_buttons c), put_i32 a0, put_i32 a1, put_i32 a2,
       put_u16 (uc_weapon c), put_u16 (uc_weapon_mapped c), put_u16 (uc_off_hand_index c),
       put_i8 (uc_forwardmove c), put_i8 (uc_rightmove c), put_f32 (uc_melee_charge_yaw c), put_u8 (uc_melee_charge_dist c),
       put_u8 s0, put_pair8 s, put_pair8 (uc_remote_control c), put_f32 g0, put_f32 g1])"

definition get_aim :: "(WireReader, WireError, f32) rd" where
  "get_aim = rd_bind get_f32 (\<lambda>angle.
     if \<not> is_finite angle then rd_lift (Inl (WireMalformed ''non-finite gun aim'')) else rd_return angle)"

definition decode_usercmd :: "(WireReader, WireError, UserCmd) rd" where
  "decode_usercmd = rd_bind get_i32 (\<lambda>server_time. rd_bind get_u32 (\<lambda>buttons.
     rd_bind get_i32 (\<lambda>a0. rd_bind get_i32 (\<lambda>a1. rd_bind get_i32 (\<lambda>a2.
     rd_bind get_u16 (\<lambda>weapon. rd_bind get_u16 (\<lambda>weapon_mapped. rd_bind get_u16 (\<lambda>off_hand.
     rd_bind get_i8 (\<lambda>fwd. rd_bind get_i8 (\<lambda>right. rd_bind get_f32 (\<lambda>yaw. rd_bind get_u8 (\<lambda>dist.
     rd_bind get_u8 (\<lambda>s0. rd_bind get_pair8 (\<lambda>s. rd_bind get_pair8 (\<lambda>remote.
     rd_bind get_aim (\<lambda>g0. rd_bind get_aim (\<lambda>g1.
     rd_return \<lparr> uc_server_time = server_time, uc_buttons = buttons, uc_angles = (a0, a1, a2),
       uc_gun_angle_offset = (g0, g1), uc_weapon = weapon, uc_weapon_mapped = weapon_mapped, uc_off_hand_index = off_hand,
       uc_forwardmove = fwd, uc_rightmove = right, uc_melee_charge_yaw = yaw, uc_melee_charge_dist = dist,
       uc_selected_location = (s0, s), uc_remote_control = remote \<rparr>)))))))))))))))))"

fun shot_sample_quality_tag :: "ShotSampleQuality \<Rightarrow> u8" where
  "shot_sample_quality_tag QNone = 0" | "shot_sample_quality_tag QExact = 1" | "shot_sample_quality_tag QInterpolated = 2"
| "shot_sample_quality_tag QHeld = 3" | "shot_sample_quality_tag QStarved = 4"

definition shot_sample_quality_from_tag :: "u8 \<Rightarrow> ShotSampleQuality option" where
  "shot_sample_quality_from_tag tag = (if tag = 0 then Some QNone else if tag = 1 then Some QExact
     else if tag = 2 then Some QInterpolated else if tag = 3 then Some QHeld else if tag = 4 then Some QStarved else None)"

definition encode_shot_sample :: "ShotSampleProvenance \<Rightarrow> bytes" where
  "encode_shot_sample s = concat [put_u32 (ss_left s), put_u32 (ss_right s), put_u32 (ss_alpha s),
     put_u8 (shot_sample_quality_tag (ss_quality s))]"

definition decode_shot_sample :: "(WireReader, WireError, ShotSampleProvenance) rd" where
  "decode_shot_sample = rd_bind get_u32 (\<lambda>left. rd_bind get_u32 (\<lambda>right. rd_bind get_u32 (\<lambda>alpha. rd_bind get_u8 (\<lambda>tag.
     rd_bind (rd_lift (ok_or (WireMalformed ''unknown ShotSampleQuality tag'') (shot_sample_quality_from_tag tag))) (\<lambda>quality.
     rd_return \<lparr> ss_left = left, ss_right = right, ss_alpha = alpha, ss_quality = quality \<rparr>)))))"

section \<open>Reading back\<close>

fun action_ok :: "ClientAction \<Rightarrow> bool" where
  "action_ok (SetName _ name) = (length name = NAME_BYTES)"
| "action_ok (Chat _ _ txt) = (length txt = CHAT_BYTES)"
| "action_ok (MenuResponse _ menu response) = (length menu = MENU_RESPONSE_BYTES \<and> length response = MENU_RESPONSE_BYTES)"
| "action_ok (GiveKillstreak _ name) = (length name = MENU_RESPONSE_BYTES)"
| "action_ok _ = True"

definition usercmd_ok :: "UserCmd \<Rightarrow> bool" where
  "usercmd_ok c \<longleftrightarrow> is_finite (fst (uc_gun_angle_offset c)) \<and> is_finite (snd (uc_gun_angle_offset c))"

lemma phase_from_tag_iff: "phase_from_tag t = Inr p \<longleftrightarrow> t = phase_tag p"
  by (cases p) (auto simp: phase_from_tag_def)

lemma quality_from_tag_iff: "shot_sample_quality_from_tag t = Some q \<longleftrightarrow> t = shot_sample_quality_tag q"
  by (cases q) (auto simp: shot_sample_quality_from_tag_def)

lemma chat_audience_iff: "chat_audience t = Inr b \<longleftrightarrow> t = of_bool b"
  by (cases b) (auto simp: chat_audience_def)

lemma reads_bind_lift:
  "v = Inr x \<Longrightarrow> reads pos (f x) w y \<Longrightarrow> reads pos (rd_bind (rd_lift v) f) w y"
  by (simp add: reads_bind_none)

lemma pick_reads [reads_rules]: "reads wr_pos get_pick (put_pick p) p"
  unfolding get_pick_def
  by (cases p; simp only: put_pick.simps; rule reads_eqI, rule reads_Cons, rule get_reads,
      simp del: concat.simps, (rule fields reads_rules)+, simp)

lemma class_reads [reads_rules]: "reads wr_pos get_class (put_class c) c"
proof -
  obtain w0 w where w: "pc_weapons c = (w0, w)" by (metis surj_pair)
  show ?thesis
    unfolding get_class_def put_class_def w prod.case
    by (rule reads_eqI, (rule fields reads_rules)+) (use w in \<open>cases c, simp\<close>)
qed

lemma profile_reads [reads_rules]: "reads wr_pos get_profile (put_profile p) p"
  unfolding get_profile_def put_profile_def by (rule reads_eqI, (rule fields reads_rules)+) (cases p, simp)

lemma bytes_reads: "length bs = n \<Longrightarrow> reads wr_pos (get_bytes n) (put_bytes bs) bs"
  using get_reads(8) [of bs] by simp

lemmas lifted_reads = reads_bind_lift [OF iffD2 [OF phase_from_tag_iff refl]]
  reads_bind_lift [OF iffD2 [OF chat_audience_iff refl]]

lemma action_reads:
  assumes "action_ok a"
  shows "reads wr_pos decode_action (encode_action a) a"
  using assms unfolding decode_action_def
  by (cases a; simp_all only: encode_action.simps)
    (rule reads_eqI, rule reads_Cons, rule get_reads, simp add: known_action_tag_def del: concat.simps split del: split_of_bool,
      rule reads_Cons, rule get_reads, simp add: decode_action_tagged_def del: concat.simps split del: split_of_bool,
      (rule fields reads_rules bytes_reads lifted_reads | simp only: action_ok.simps)+, simp?; fail)+

lemma aim_reads: "is_finite a \<Longrightarrow> reads wr_pos get_aim (put_f32 a) a"
  unfolding get_aim_def by (rule reads_bind_last [OF get_reads(6)]) (simp add: reads_return)

lemma usercmd_reads:
  assumes "usercmd_ok c"
  shows "reads wr_pos decode_usercmd (encode_usercmd c) c"
proof -
  obtain g0 g1 where g: "uc_gun_angle_offset c = (g0, g1)" by fastforce
  obtain a0 a1 a2 where a: "uc_angles c = (a0, a1, a2)" by (cases "uc_angles c")
  obtain s0 s where s: "uc_selected_location c = (s0, s)" by (metis surj_pair)
  have f: "is_finite g0" "is_finite g1" using assms g by (simp_all add: usercmd_ok_def)
  show ?thesis
    unfolding decode_usercmd_def encode_usercmd_def g a s prod.case
    by (rule reads_eqI, (rule fields reads_rules aim_reads [OF f(1)] aim_reads [OF f(2)])+)
      (use g a s in \<open>cases c, simp\<close>)
qed

lemma shot_sample_reads [reads_rules]: "reads wr_pos decode_shot_sample (encode_shot_sample s) s"
  unfolding decode_shot_sample_def encode_shot_sample_def
  by (rule reads_eqI, (rule fields reads_rules reads_bind_lift [OF iffD2 [OF ok_or_Inr_iff iffD2 [OF quality_from_tag_iff refl]]])+)
    (cases s, simp)

end
