(* ===== verification/Client_Packets.thy ===== *)
theory Client_Packets
  imports Client_Actions
begin

text \<open>
  Client packets of \<^verbatim>\<open>crates/net/src/transport/protocol.rs\<close>: connection requests, command
  packets with their redundant commands, samples and actions, and snapshot acknowledgements.
  \<open>decode_client_packet\<close> is the server's entry point for datagrams of a client.
\<close>

section \<open>Packets\<close>

abbreviation (input) TAG_CLIENT_CONNECT :: u8 where "TAG_CLIENT_CONNECT \<equiv> 1"
abbreviation (input) TAG_CLIENT_COMMANDS :: u8 where "TAG_CLIENT_COMMANDS \<equiv> 2"
abbreviation (input) TAG_CLIENT_SNAP_ACK :: u8 where "TAG_CLIENT_SNAP_ACK \<equiv> 3"

datatype ClientPacket =
    Connect HandshakeHello
  | Commands PacketHeader u32 "(u32 \<times> UserCmd) list" "(u32 \<times> ShotSampleProvenance) list" "ClientAction list" u16
  | SnapshotAck PacketHeader u32

definition put_cmd :: "u32 \<times> UserCmd \<Rightarrow> bytes" where
  "put_cmd p = concat [put_u32 (fst p), encode_usercmd (snd p)]"

definition get_cmd :: "(WireReader, WireError, u32 \<times> UserCmd) rd" where
  "get_cmd = rd_bind get_u32 (\<lambda>seq. rd_bind decode_usercmd (\<lambda>cmd. rd_return (seq, cmd)))"

definition put_sample :: "u32 \<times> ShotSampleProvenance \<Rightarrow> bytes" where
  "put_sample p = concat [put_u32 (fst p), encode_shot_sample (snd p)]"

definition get_sample :: "(WireReader, WireError, u32 \<times> ShotSampleProvenance) rd" where
  "get_sample = rd_bind get_u32 (\<lambda>seq. rd_bind decode_shot_sample (\<lambda>sample. rd_return (seq, sample)))"

text \<open>A list is written after its length, cast to sixteen bits.\<close>

fun client_packet_encode :: "ClientPacket \<Rightarrow> bytes" where
  "client_packet_encode (Connect hello) = concat [put_u8 TAG_CLIENT_CONNECT, put_hello hello]"
| "client_packet_encode (Commands header claimed cmds samples actions ack) =
     concat [put_u8 TAG_CLIENT_COMMANDS, put_header header, put_u32 claimed, put_u16 ack,
       put_u16 (of_nat (length cmds)), concat (map put_cmd cmds),
       put_u16 (of_nat (length samples)), concat (map put_sample samples),
       put_u16 (of_nat (length actions)), concat (map encode_action actions)]"
| "client_packet_encode (SnapshotAck header seq) = concat [put_u8 TAG_CLIENT_SNAP_ACK, put_header header, put_u32 seq]"

definition decode_commands :: "(WireReader, WireError, ClientPacket) rd" where
  "decode_commands = rd_bind get_header (\<lambda>header. rd_bind get_u32 (\<lambda>claimed. rd_bind get_u16 (\<lambda>ack.
     rd_bind get_u16 (\<lambda>cmd_count. rd_bind (rd_repeat (unat cmd_count) get_cmd) (\<lambda>cmds.
     rd_bind get_u16 (\<lambda>sample_count. rd_bind (rd_repeat (unat sample_count) get_sample) (\<lambda>samples.
     rd_bind get_u16 (\<lambda>action_count. rd_bind (rd_repeat (unat action_count) decode_action) (\<lambda>actions.
     rd_return (Commands header claimed cmds samples actions ack))))))))))"

definition client_packet_decode :: "(WireReader, WireError, ClientPacket) rd" where
  "client_packet_decode = rd_bind get_u8 (\<lambda>tag.
     if tag = TAG_CLIENT_CONNECT then rd_bind get_hello (\<lambda>hello. rd_return (Connect hello))
     else if tag = TAG_CLIENT_COMMANDS then decode_commands
     else if tag = TAG_CLIENT_SNAP_ACK then rd_bind get_header (\<lambda>header. rd_bind get_u32 (\<lambda>seq. rd_return (SnapshotAck header seq)))
     else rd_lift (Inl (WireMalformed ''unknown ClientPacket tag'')))"

definition within_limits :: "ProtocolLimits \<Rightarrow> ClientPacket \<Rightarrow> WireError + unit" where
  "within_limits limits packet = (case packet of
     Commands header claimed cmds samples actions ack \<Rightarrow>
       if max_cmds_per_tick limits < of_nat (length cmds) then Inl (WireMalformed ''cmd_count exceeds limit'')
       else if max_actions_per_tick limits < of_nat (length actions) then Inl (WireMalformed ''action_count exceeds limit'')
       else Inr ()
   | _ \<Rightarrow> Inr ())"

definition decode_client_packet :: "bytes \<Rightarrow> ProtocolLimits \<Rightarrow> WireError + ClientPacket" where
  "decode_client_packet bs limits =
     (if max_packet_bytes limits < of_nat (length bs) then Inl (WireMalformed ''datagram exceeds max_packet_bytes'')
      else res_bind (client_packet_decode (wr_new bs)) (\<lambda>(packet, input).
        if \<not> wr_is_empty input then Inl (WireMalformed ''trailing bytes after ClientPacket'')
        else res_bind (within_limits limits packet) (\<lambda>_. Inr packet)))"

section \<open>Reading back\<close>

fun client_packet_ok :: "ClientPacket \<Rightarrow> bool" where
  "client_packet_ok (Commands header claimed cmds samples actions ack) \<longleftrightarrow>
     length cmds < 2 ^ 16 \<and> length samples < 2 ^ 16 \<and> length actions < 2 ^ 16
     \<and> (\<forall>c \<in> set cmds. usercmd_ok (snd c)) \<and> (\<forall>a \<in> set actions. action_ok a)"
| "client_packet_ok _ \<longleftrightarrow> True"

lemma cmd_reads: "usercmd_ok (snd p) \<Longrightarrow> reads wr_pos get_cmd (put_cmd p) p"
  unfolding get_cmd_def put_cmd_def
  by (rule reads_eqI, (rule fields reads_rules usercmd_reads | assumption)+) simp

lemma sample_reads: "reads wr_pos get_sample (put_sample p) p"
  unfolding get_sample_def put_sample_def by (rule reads_eqI, (rule fields reads_rules)+) simp

lemma counted_reads:
  assumes "length xs < 2 ^ 16" and "\<And>x. x \<in> set xs \<Longrightarrow> reads wr_pos dec (enc x) x"
  shows "reads wr_pos (rd_repeat (unat (of_nat (length xs) :: u16)) dec) (concat (map enc xs)) xs"
  using reads_list [OF assms(2)] assms(1) by simp

lemma client_packet_reads:
  assumes "client_packet_ok p"
  shows "reads wr_pos client_packet_decode (client_packet_encode p) p"
proof (cases p)
  case (Commands header claimed cmds samples actions ack)
  with assms have ok: "length cmds < 2 ^ 16" "length samples < 2 ^ 16" "length actions < 2 ^ 16"
    "\<And>c. c \<in> set cmds \<Longrightarrow> usercmd_ok (snd c)" "\<And>a. a \<in> set actions \<Longrightarrow> action_ok a" by auto
  show ?thesis
    unfolding Commands client_packet_encode.simps client_packet_decode_def
    by (rule reads_Cons, rule get_reads, simp add: decode_commands_def del: concat.simps,
        (rule fields reads_rules counted_reads ok cmd_reads sample_reads action_reads | assumption)+)
next
  case (Connect hello)
  show ?thesis
    unfolding Connect client_packet_encode.simps client_packet_decode_def
    by (rule reads_Cons, rule get_reads, simp del: concat.simps, (rule fields reads_rules)+)
next
  case (SnapshotAck header seq)
  show ?thesis
    unfolding SnapshotAck client_packet_encode.simps client_packet_decode_def
    by (rule reads_Cons, rule get_reads, simp del: concat.simps, (rule fields reads_rules)+)
qed

section \<open>Reading nothing else\<close>

lemma get_signed_inverts:
  "inverts wr_pos get_i32 (\<lambda>x w. w = put_i32 x)" "inverts wr_pos get_f32 (\<lambda>x w. w = put_f32 x)"
  "inverts wr_pos get_i8 (\<lambda>x w. w = put_i8 x)"
  using get_inverts(1,3) by (simp_all add: get_i32_def put_i32_def get_f32_def put_f32_def get_i8_def put_i8_def get_u8_def put_u8_def put_u32_def)

lemmas wire_inverts = get_inverts get_signed_inverts inverts_return inverts_lift inverts_bind

lemma split_u64_inverts: "inverts wr_pos get_split_u64 (\<lambda>x w. w = put_split_u64 x)"
  unfolding get_split_u64_def put_split_u64_def by (rule inverts_mono, (rule wire_inverts)+) auto

lemma hello_inverts: "inverts wr_pos get_hello (\<lambda>x w. w = put_hello x)"
  unfolding get_hello_def put_hello_def by (rule inverts_mono, (rule split_u64_inverts wire_inverts)+) auto

lemma header_inverts: "inverts wr_pos get_header (\<lambda>x w. w = put_header x)"
  unfolding get_header_def put_header_def by (rule inverts_mono, (rule wire_inverts)+) auto

lemma vector_inverts:
  "inverts wr_pos get_vec3 (\<lambda>x w. w = put_vec3 x)" "inverts wr_pos get_three (\<lambda>x w. w = put_three x)"
  "inverts wr_pos get_pair8 (\<lambda>x w. w = put_pair8 x)"
  unfolding get_vec3_def put_vec3_def get_three_def put_three_def get_pair8_def put_pair8_def
  by (rule inverts_mono, (rule wire_inverts)+, auto)+

lemma pick_inverts: "inverts wr_pos get_pick (\<lambda>x w. w = put_pick x)"
  unfolding get_pick_def
  by (rule inverts_mono, rule inverts_bind, rule get_inverts,
      (rule inverts_if inverts_error vector_inverts wire_inverts)+) auto

lemma class_inverts: "inverts wr_pos get_class (\<lambda>x w. w = put_class x)"
  unfolding get_class_def put_class_def by (rule inverts_mono, (rule vector_inverts wire_inverts)+) auto

lemma profile_inverts: "inverts wr_pos get_profile (\<lambda>x w. w = put_profile x)"
  unfolding get_profile_def put_profile_def by (rule inverts_mono, (rule vector_inverts wire_inverts)+) auto

lemma action_tagged_inverts:
  "inverts wr_pos (decode_action_tagged tag r) (\<lambda>x w. encode_action x = put_u8 tag @ put_u32 r @ w \<and> action_ok x)"
  unfolding decode_action_tagged_def
  by (intro inverts_ifI inverts_error)
    (hypsubst, rule inverts_mono, (rule vector_inverts pick_inverts class_inverts profile_inverts wire_inverts)+,
     auto simp: phase_from_tag_iff chat_audience_iff simp del: of_bool_eq split del: split_of_bool; fail)+

lemma action_inverts: "inverts wr_pos decode_action (\<lambda>x w. w = encode_action x \<and> action_ok x)"
  unfolding decode_action_def
  by (rule inverts_mono, rule inverts_bind, rule get_inverts, rule inverts_if, rule inverts_bind,
      rule get_inverts, rule action_tagged_inverts, rule inverts_error [of _ _ "\<lambda>_ _. False"]) auto

lemma aim_inverts: "inverts wr_pos get_aim (\<lambda>x w. w = put_f32 x \<and> is_finite x)"
  unfolding get_aim_def
  by (rule inverts_mono, rule inverts_bind, rule get_signed_inverts, rule inverts_if,
      rule inverts_error [of _ _ "\<lambda>_ _. False"], rule inverts_return) auto

lemma usercmd_inverts: "inverts wr_pos decode_usercmd (\<lambda>x w. w = encode_usercmd x \<and> usercmd_ok x)"
  unfolding decode_usercmd_def encode_usercmd_def usercmd_ok_def
  by (rule inverts_mono, (rule aim_inverts vector_inverts wire_inverts)+) auto

lemma shot_sample_inverts: "inverts wr_pos decode_shot_sample (\<lambda>x w. w = encode_shot_sample x)"
  unfolding decode_shot_sample_def encode_shot_sample_def
  by (rule inverts_mono, (rule wire_inverts)+) (auto simp: quality_from_tag_iff)

lemma cmd_inverts: "inverts wr_pos get_cmd (\<lambda>x w. w = put_cmd x \<and> usercmd_ok (snd x))"
  unfolding get_cmd_def put_cmd_def by (rule inverts_mono, (rule usercmd_inverts wire_inverts)+) auto

lemma sample_inverts: "inverts wr_pos get_sample (\<lambda>x w. w = put_sample x)"
  unfolding get_sample_def put_sample_def by (rule inverts_mono, (rule shot_sample_inverts wire_inverts)+) auto

lemma repeat_inverts:
  assumes "inverts wr_pos m (\<lambda>x w. w = enc x \<and> P x)"
  shows "inverts wr_pos (rd_repeat n m) (\<lambda>xs w. w = concat (map enc xs) \<and> length xs = n \<and> (\<forall>x \<in> set xs. P x))"
proof (induction n)
  case 0
  show ?case unfolding rd_repeat.simps by (rule inverts_mono [OF inverts_return]) simp
next
  case (Suc n)
  show ?case
    unfolding rd_repeat.simps
    by (rule inverts_mono [OF inverts_bind [OF assms inverts_bind [OF Suc inverts_return]]]) auto
qed

lemma commands_inverts:
  "inverts wr_pos decode_commands (\<lambda>x w. client_packet_encode x = put_u8 TAG_CLIENT_COMMANDS @ w \<and> client_packet_ok x)"
proof -
  note counted = repeat_inverts [OF cmd_inverts] repeat_inverts [OF action_inverts]
    repeat_inverts [of get_sample put_sample "\<lambda>_. True", simplified, OF sample_inverts]
  have "unat n < 65536" for n :: u16 using unsigned_less [of n] by simp
  then show ?thesis
    unfolding decode_commands_def
    by (intro inverts_mono [OF inverts_bind [OF header_inverts inverts_bind [OF get_inverts(3) inverts_bind [OF get_inverts(2)
      inverts_bind [OF get_inverts(2) inverts_bind [OF counted(1) inverts_bind [OF get_inverts(2) inverts_bind [OF counted(3)
      inverts_bind [OF get_inverts(2) inverts_bind [OF counted(2) inverts_return]]]]]]]]]]) auto
qed

lemma client_packet_inverts:
  "inverts wr_pos client_packet_decode (\<lambda>x w. w = client_packet_encode x \<and> client_packet_ok x)"
  unfolding client_packet_decode_def
  by (rule inverts_mono, rule inverts_bind, rule get_inverts,
      (rule inverts_if inverts_error [of _ _ "\<lambda>_ _. False"] commands_inverts hello_inverts header_inverts wire_inverts)+) auto

section \<open>Properties\<close>

text \<open>
  C33. The server accepts a client datagram exactly when it is the encoding of a packet within the
  limits: nothing else is read as that packet, and every such packet comes back unchanged.
\<close>

theorem client_packet_canonical:
  "decode_client_packet bs limits = Inr p \<longleftrightarrow>
     bs = client_packet_encode p \<and> client_packet_ok p \<and> within_limits limits p = Inr ()
     \<and> of_nat (length bs) \<le> max_packet_bytes limits"
  (is "?d \<longleftrightarrow> ?e")
proof
  assume ?d
  then obtain input where d: "client_packet_decode (wr_new bs) = Inr (p, input)" and em: "wr_is_empty input"
    and lim: "within_limits limits p = Inr ()" "of_nat (length bs) \<le> max_packet_bytes limits"
    by (auto simp: decode_client_packet_def split: if_splits)
  from invertsD [OF client_packet_inverts wrd.pos_new d] obtain w post where
    w: "w = client_packet_encode p" "client_packet_ok p" and s: "bs = w @ post" "wr_pos input post" by blast
  from em wr_is_empty_iff [OF s(2)] have "post = []" by simp
  with w s lim show ?e by simp
next
  assume e: ?e
  then have "wr_pos (wr_new bs) (client_packet_encode p @ [])" using wrd.pos_new [of bs] by simp
  from readsD [OF client_packet_reads this] e obtain input where
    "client_packet_decode (wr_new bs) = Inr (p, input)" "wr_pos input []" by blast
  with e wr_is_empty_iff show ?d by (auto simp: decode_client_packet_def)
qed

text \<open>
  A command packet that is accepted holds at most the agreed number of commands and actions,
  its aim offsets are finite and its text fields have their fixed size.
\<close>

lemma client_commands_bounded:
  assumes "decode_client_packet bs limits = Inr (Commands header claimed cmds samples actions ack)"
  shows "length cmds \<le> unat (max_cmds_per_tick limits) \<and> length actions \<le> unat (max_actions_per_tick limits)
    \<and> (\<forall>c \<in> set cmds. usercmd_ok (snd c)) \<and> (\<forall>a \<in> set actions. action_ok a)"
proof -
  have n: "of_nat k \<le> (m :: u16) \<Longrightarrow> k < 2 ^ 16 \<Longrightarrow> k \<le> unat m" for k m
    by (simp add: word_le_nat_alt)
  from assms obtain input where "client_packet_decode (wr_new bs) = Inr (Commands header claimed cmds samples actions ack, input)"
    and "within_limits limits (Commands header claimed cmds samples actions ack) = Inr ()"
    by (auto simp: decode_client_packet_def split: if_splits)
  moreover from invertsD [OF client_packet_inverts wrd.pos_new this(1)]
  have "client_packet_ok (Commands header claimed cmds samples actions ack)" by blast
  ultimately show ?thesis by (auto simp: within_limits_def not_less intro: n split: if_splits)
qed

end
