(* ===== verification/Transport_Budget.thy ===== *)
theory Transport_Budget
  imports Rust_Std
begin

text \<open>
  The transport limits: \<^verbatim>\<open>crates/master_protocol/src/budget.rs\<close> and
  \<^verbatim>\<open>crates/iw4l-master/src/limits.rs\<close>. Settings are read from the environment, an argument
  of the model; whatever they say, the limits in force stay inside fixed ranges.
\<close>

section \<open>Unsigned integers in decimal\<close>

text \<open>\<open>str::parse::<u64>\<close>: an optional \<open>+\<close> and at least one digit, with a value below \<open>2 ^ 64\<close>.\<close>

definition is_digit :: "u8 \<Rightarrow> bool" where
  "is_digit c \<longleftrightarrow> 0x30 \<le> c \<and> c \<le> 0x39"

definition digits_value :: "bytes \<Rightarrow> nat" where
  "digits_value ds = foldl (\<lambda>n c. 10 * n + (unat c - 0x30)) 0 ds"

definition parse_u64 :: "str \<Rightarrow> nat option" where
  "parse_u64 s = (let ds = (case str_bytes s of [] \<Rightarrow> [] | c # cs \<Rightarrow> if c = 0x2B then cs else c # cs) in
     if ds \<noteq> [] \<and> list_all is_digit ds \<and> digits_value ds < 2 ^ 64 then Some (digits_value ds) else None)"

section \<open>Budgets\<close>

record TransportBudget =
  response :: nanos
  progress :: nanos
  transfer :: nanos
  queue_age :: nanos
  connect :: nanos
  shutdown :: nanos
  loading :: nanos
  silence :: nanos
  admission :: nanos
  queue_items :: nat
  queue_bytes :: nat

definition default_budget :: TransportBudget where
  "default_budget = \<lparr> response = from_secs 20, progress = from_secs 5, transfer = from_secs 90,
     queue_age = from_secs 20, connect = from_secs 60, shutdown = from_millis 500,
     loading = from_secs 120, silence = from_secs 60, admission = from_secs 60,
     queue_items = 32, queue_bytes = 8 * 1024 * 1024 \<rparr>"

definition SETTINGS :: "str list" where
  "SETTINGS = map lit [''IW4L_NET_RESPONSE_MS'', ''IW4L_NET_PROGRESS_MS'', ''IW4L_NET_TRANSFER_MS'',
     ''IW4L_NET_QUEUE_AGE_MS'', ''IW4L_NET_CONNECT_MS'', ''IW4L_NET_SHUTDOWN_MS'', ''IW4L_NET_LOADING_MS'',
     ''IW4L_NET_SILENCE_MS'', ''IW4L_NET_ADMISSION_MS'', ''IW4L_NET_QUEUE_ITEMS'', ''IW4L_NET_QUEUE_BYTES'']"

datatype BudgetError =
    NotPositiveInteger str
  | InvalidSetting str str
  | ProgressExceedsTransfer

definition duration_settings :: "str list" where
  "duration_settings = map lit [''IW4L_NET_RESPONSE_MS'', ''IW4L_NET_PROGRESS_MS'', ''IW4L_NET_TRANSFER_MS'',
     ''IW4L_NET_QUEUE_AGE_MS'', ''IW4L_NET_CONNECT_MS'', ''IW4L_NET_SHUTDOWN_MS'', ''IW4L_NET_LOADING_MS'',
     ''IW4L_NET_SILENCE_MS'', ''IW4L_NET_ADMISSION_MS'']"

definition set_duration :: "str \<Rightarrow> nanos \<Rightarrow> TransportBudget \<Rightarrow> TransportBudget" where
  "set_duration name d b =
     (if name = lit ''IW4L_NET_RESPONSE_MS'' then b\<lparr> response := d \<rparr>
      else if name = lit ''IW4L_NET_PROGRESS_MS'' then b\<lparr> progress := d \<rparr>
      else if name = lit ''IW4L_NET_TRANSFER_MS'' then b\<lparr> transfer := d \<rparr>
      else if name = lit ''IW4L_NET_CONNECT_MS'' then b\<lparr> connect := d \<rparr>
      else if name = lit ''IW4L_NET_SHUTDOWN_MS'' then b\<lparr> shutdown := d \<rparr>
      else if name = lit ''IW4L_NET_LOADING_MS'' then b\<lparr> loading := d \<rparr>
      else if name = lit ''IW4L_NET_SILENCE_MS'' then b\<lparr> silence := d \<rparr>
      else if name = lit ''IW4L_NET_ADMISSION_MS'' then b\<lparr> admission := d \<rparr>
      else b\<lparr> queue_age := d \<rparr>)"

definition apply_setting :: "str \<times> str \<Rightarrow> TransportBudget \<Rightarrow> BudgetError + TransportBudget" where
  "apply_setting setting b = (case setting of (name, txt) \<Rightarrow>
     (case parse_u64 txt of None \<Rightarrow> Inl (NotPositiveInteger name)
      | Some n \<Rightarrow>
        if name = lit ''IW4L_NET_QUEUE_ITEMS'' \<and> 1 \<le> n \<and> n \<le> 1024 then Inr (b\<lparr> queue_items := n \<rparr>)
        else if name = lit ''IW4L_NET_QUEUE_BYTES'' \<and> 256 * 1024 \<le> n \<and> n \<le> 64 * 1024 * 1024
          then Inr (b\<lparr> queue_bytes := n \<rparr>)
        else if name \<in> set duration_settings \<and> 1 \<le> n \<and> n \<le> 600000
          then Inr (set_duration name (from_millis n) b)
        else Inl (InvalidSetting name txt)))"

fun apply_settings :: "(str \<times> str) list \<Rightarrow> TransportBudget \<Rightarrow> BudgetError + TransportBudget" where
  "apply_settings [] b = Inr b"
| "apply_settings (s # ss) b = res_bind (apply_setting s b) (apply_settings ss)"

definition from_settings :: "(str \<times> str) list \<Rightarrow> BudgetError + TransportBudget" where
  "from_settings settings = res_bind (apply_settings settings default_budget) (\<lambda>b.
     if transfer b < progress b then Inl ProgressExceedsTransfer else Inr b)"

section \<open>Limits of the service\<close>

definition limits_configured :: "(str \<Rightarrow> str option) \<Rightarrow> BudgetError + TransportBudget" where
  "limits_configured env = from_settings
     (List.map_filter (\<lambda>name. map_option (\<lambda>value. (name, value)) (env name)) SETTINGS)"

definition limits_values :: "(str \<Rightarrow> str option) \<Rightarrow> TransportBudget" where
  "limits_values env = (case limits_configured env of Inl _ \<Rightarrow> default_budget | Inr b \<Rightarrow> b)"

section \<open>Bounds\<close>

definition duration_ok :: "nanos \<Rightarrow> bool" where
  "duration_ok d \<longleftrightarrow> from_millis 1 \<le> d \<and> d \<le> from_millis 600000"

definition budget_ok :: "TransportBudget \<Rightarrow> bool" where
  "budget_ok b \<longleftrightarrow> duration_ok (response b) \<and> duration_ok (progress b) \<and> duration_ok (transfer b)
     \<and> duration_ok (queue_age b) \<and> duration_ok (connect b) \<and> duration_ok (shutdown b) \<and> duration_ok (loading b)
     \<and> duration_ok (silence b) \<and> duration_ok (admission b)
     \<and> 1 \<le> queue_items b \<and> queue_items b \<le> 1024
     \<and> 256 * 1024 \<le> queue_bytes b \<and> queue_bytes b \<le> 64 * 1024 * 1024"

lemma default_budget_ok: "budget_ok default_budget \<and> progress default_budget \<le> transfer default_budget"
  by (simp add: budget_ok_def duration_ok_def default_budget_def)

lemma set_duration_ok: "budget_ok b \<Longrightarrow> duration_ok d \<Longrightarrow> budget_ok (set_duration name d b)"
  by (simp add: budget_ok_def set_duration_def)

lemma apply_setting_ok: "budget_ok b \<Longrightarrow> apply_setting s b = Inr b' \<Longrightarrow> budget_ok b'"
  by (auto simp: apply_setting_def duration_ok_def set_duration_ok split: prod.splits option.splits if_splits)
    (auto simp: budget_ok_def)

lemma apply_settings_ok: "budget_ok b \<Longrightarrow> apply_settings ss b = Inr b' \<Longrightarrow> budget_ok b'"
  by (induction ss arbitrary: b) (auto dest: apply_setting_ok)

lemma from_settings_ok: "from_settings ss = Inr b \<Longrightarrow> budget_ok b \<and> progress b \<le> transfer b"
  using default_budget_ok by (auto simp: from_settings_def split: if_splits dest: apply_settings_ok)

lemma limits_values_ok: "budget_ok (limits_values env) \<and> progress (limits_values env) \<le> transfer (limits_values env)"
  using default_budget_ok from_settings_ok
  by (auto simp: limits_values_def limits_configured_def split: sum.splits)

end
