(* ===== verification/Bootstrap_Lane.thy ===== *)
theory Bootstrap_Lane
  imports Game_Protocol Transport_Budget Protocol_Codec
begin

text \<open>
  Getting a late joiner into a running match: \<^verbatim>\<open>crates/net/src/transport/bootstrap.rs\<close>. The
  host offers a world snapshot (\<open>Offer\<close>), the joiner reports it \<open>Applied\<close>; a lane of bounded
  queues connects the game and the network worker. Each method of the lane is one step of the
  model (the source takes one lock after another inside a method); the limits in force and the
  clock are arguments.
\<close>

section \<open>Messages\<close>

datatype BootstrapMessage =
    Offer u32 u32 u32 u32 ConnectionId bytes
  | Applied u32 u32 u32 u32 ConnectionId

abbreviation (input) BOOTSTRAP_MAGIC :: bytes where "BOOTSTRAP_MAGIC \<equiv> [0x42, 0x53]"
abbreviation (input) BOOTSTRAP_VERSION :: u8 where "BOOTSTRAP_VERSION \<equiv> 1"
abbreviation (input) BOOTSTRAP_OFFER :: u8 where "BOOTSTRAP_OFFER \<equiv> 1"
abbreviation (input) BOOTSTRAP_APPLIED :: u8 where "BOOTSTRAP_APPLIED \<equiv> 2"
abbreviation (input) MAX_BOOTSTRAP_PENDING :: nat where "MAX_BOOTSTRAP_PENDING \<equiv> 8"
abbreviation (input) MAX_PENDING_ADMISSION_ACKS :: nat where "MAX_PENDING_ADMISSION_ACKS \<equiv> 18"

definition epoch_applies :: "u32 \<Rightarrow> u32 \<Rightarrow> bool" where
  "epoch_applies message_epoch live_epoch \<longleftrightarrow> message_epoch \<noteq> 0 \<and> message_epoch = live_epoch"

definition put_ids :: "u32 \<Rightarrow> u32 \<Rightarrow> u32 \<Rightarrow> u32 \<Rightarrow> ConnectionId \<Rightarrow> bytes" where
  "put_ids ep bid tick_b seq conn = concat [put_u32 ep, put_u32 bid, put_u32 tick_b, put_u32 seq,
     put_u32 (hi_part (conn_raw conn)), put_u32 (lo_part (conn_raw conn))]"

definition get_ids :: "(WireReader, WireError, u32 \<times> u32 \<times> u32 \<times> u32 \<times> ConnectionId) rd" where
  "get_ids = rd_bind get_u32 (\<lambda>ep. rd_bind get_u32 (\<lambda>bid. rd_bind get_u32 (\<lambda>tick_b. rd_bind get_u32 (\<lambda>seq.
     rd_bind get_u32 (\<lambda>hi. rd_bind get_u32 (\<lambda>lo. rd_return (ep, bid, tick_b, seq, ConnectionId (join_halves hi lo))))))))"

fun encode_bootstrap :: "BootstrapMessage \<Rightarrow> WireError + bytes" where
  "encode_bootstrap (Offer ep bid tick_b seq conn packet) =
     (if MAX_PACKET_BYTES < of_nat (length packet) then Inl (WireMalformed ''bootstrap packet exceeds max_packet_bytes'')
      else Inr (concat [put_u8 (BOOTSTRAP_MAGIC ! 0), put_u8 (BOOTSTRAP_MAGIC ! 1), put_u8 BOOTSTRAP_VERSION, put_u8 BOOTSTRAP_OFFER,
        put_ids ep bid tick_b seq conn, put_u32 (of_nat (length packet)), put_bytes packet]))"
| "encode_bootstrap (Applied ep bid tick_b seq conn) =
     Inr (concat [put_u8 (BOOTSTRAP_MAGIC ! 0), put_u8 (BOOTSTRAP_MAGIC ! 1), put_u8 BOOTSTRAP_VERSION, put_u8 BOOTSTRAP_APPLIED,
       put_ids ep bid tick_b seq conn])"

definition decode_offer :: "(WireReader, WireError, BootstrapMessage) rd" where
  "decode_offer = rd_bind get_ids (\<lambda>(ep, bid, tick_b, seq, conn). rd_bind get_u32 (\<lambda>len.
     if MAX_PACKET_BYTES < len then rd_lift (Inl (WireMalformed ''bootstrap packet exceeds max_packet_bytes''))
     else rd_bind (get_bytes (unat len)) (\<lambda>packet. rd_return (Offer ep bid tick_b seq conn packet))))"

definition decode_applied :: "(WireReader, WireError, BootstrapMessage) rd" where
  "decode_applied = rd_bind get_ids (\<lambda>(ep, bid, tick_b, seq, conn). rd_return (Applied ep bid tick_b seq conn))"

definition decode_bootstrap_tagged :: "u8 \<Rightarrow> (WireReader, WireError, BootstrapMessage) rd" where
  "decode_bootstrap_tagged tag = (if tag = BOOTSTRAP_OFFER then decode_offer
     else if tag = BOOTSTRAP_APPLIED then decode_applied
     else rd_lift (Inl (WireMalformed ''unknown bootstrap tag'')))"

definition decode_bootstrap_message :: "(WireReader, WireError, BootstrapMessage) rd" where
  "decode_bootstrap_message = rd_bind get_u8 (\<lambda>_. rd_bind get_u8 (\<lambda>_. rd_bind get_u8 (\<lambda>version.
     if version \<noteq> BOOTSTRAP_VERSION then rd_lift (Inl (WireMalformed ''unknown bootstrap version''))
     else rd_bind get_u8 decode_bootstrap_tagged)))"

definition decode_bootstrap :: "bytes \<Rightarrow> WireError + BootstrapMessage option" where
  "decode_bootstrap bs =
     (if take 2 bs \<noteq> BOOTSTRAP_MAGIC then Inr None
      else res_bind (decode_bootstrap_message (wr_new bs)) (\<lambda>(message, input).
        if \<not> wr_is_empty input then Inl (WireMalformed ''trailing bootstrap bytes'') else Inr (Some message)))"

section \<open>The lane\<close>

record BootstrapTransaction =
  bt_epoch :: u32
  bt_bootstrap_id :: u32
  bt_tick_b :: u32
  bt_snapshot_seq :: u32
  bt_connection :: ConnectionId
  bt_offer_bytes :: bytes

record QueuedBootstrap =
  qb_epoch :: u32
  qb_bootstrap_id :: u32
  qb_tick_b :: u32
  qb_snapshot_seq :: u32
  qb_connection :: ConnectionId

record BootstrapIngress =
  bi_member_id :: "MemberId option"
  bi_bytes :: bytes

record BootstrapAck =
  ba_member_id :: MemberId
  ba_epoch :: u32
  ba_bootstrap_id :: u32
  ba_snapshot_seq :: u32
  ba_connection :: ConnectionId

record BootstrapLane =
  host_map_ready :: "MemberId set"
  to_worker :: "(MemberId option \<times> bytes \<times> nanos) list"
  from_worker :: "(BootstrapIngress \<times> nanos) list"
  fault :: "string option"
  acks :: "BootstrapAck list"
  lane_epoch :: u32
  entered_bootstrap :: u32
  entered_client :: u32

definition lane_new :: BootstrapLane where
  "lane_new = \<lparr> host_map_ready = {}, to_worker = [], from_worker = [], fault = None, acks = [], lane_epoch = 0,
     entered_bootstrap = 0, entered_client = 0 \<rparr>"

definition set_epoch :: "u32 \<Rightarrow> BootstrapLane \<Rightarrow> BootstrapLane" where
  "set_epoch ep l = (if lane_epoch l \<noteq> ep
     then l\<lparr> lane_epoch := ep, fault := None, host_map_ready := {}, entered_bootstrap := 0, entered_client := 0,
             to_worker := [], from_worker := [], acks := [] \<rparr>
     else l)"

definition note_entered :: "u32 \<Rightarrow> u32 \<Rightarrow> BootstrapLane \<Rightarrow> BootstrapLane" where
  "note_entered bid client l = l\<lparr> entered_client := client, entered_bootstrap := bid \<rparr>"

definition push_to_worker :: "TransportBudget \<Rightarrow> nanos \<Rightarrow> MemberId option \<Rightarrow> bytes \<Rightarrow> BootstrapLane \<Rightarrow> (string + unit) \<times> BootstrapLane" where
  "push_to_worker b now peer bs l =
     (if min MAX_BOOTSTRAP_PENDING (queue_items b) \<le> length (to_worker l)
        \<or> MAX_BOOTSTRAP_STREAM_BYTES < length bs
        \<or> queue_bytes b < sum_list (map (\<lambda>(_, bs, _). length bs) (to_worker l)) + length bs
      then (Inl ''bootstrap to-worker queue is full'', l)
      else (Inr (), l\<lparr> to_worker := to_worker l @ [(peer, bs, now + queue_age b)] \<rparr>))"

definition take_to_worker :: "nanos \<Rightarrow> BootstrapLane \<Rightarrow> (MemberId option \<times> bytes) list \<times> BootstrapLane" where
  "take_to_worker now l = (let entries = to_worker l; l' = l\<lparr> to_worker := [] \<rparr> in
     if \<exists>(_, _, deadline) \<in> set entries. deadline \<le> now then ([], l'\<lparr> fault := Some ''bootstrap queue deadline'' \<rparr>)
     else (map (\<lambda>(peer, bs, _). (peer, bs)) entries, l'))"

definition push_from_worker :: "TransportBudget \<Rightarrow> nanos \<Rightarrow> MemberId option \<Rightarrow> bytes \<Rightarrow> BootstrapLane \<Rightarrow> (string + unit) \<times> BootstrapLane" where
  "push_from_worker b now member bs l =
     (if min MAX_BOOTSTRAP_PENDING (queue_items b) \<le> length (from_worker l)
        \<or> MAX_BOOTSTRAP_STREAM_BYTES < length bs
        \<or> queue_bytes b < sum_list (map (\<lambda>(entry, _). length (bi_bytes entry)) (from_worker l)) + length bs
      then (Inl ''bootstrap from-worker queue is full'', l)
      else (Inr (), l\<lparr> from_worker := from_worker l @ [(\<lparr> bi_member_id = member, bi_bytes = bs \<rparr>, now + queue_age b)] \<rparr>))"

definition take_from_worker :: "nanos \<Rightarrow> BootstrapLane \<Rightarrow> BootstrapIngress list \<times> BootstrapLane" where
  "take_from_worker now l = (let entries = from_worker l; l' = l\<lparr> from_worker := [] \<rparr> in
     if \<exists>(_, deadline) \<in> set entries. deadline \<le> now then ([], l'\<lparr> fault := Some ''bootstrap ingress queue deadline'' \<rparr>)
     else (map fst entries, l'))"

definition check_deadline :: "nanos \<Rightarrow> BootstrapLane \<Rightarrow> (string + unit) \<times> BootstrapLane" where
  "check_deadline now l = (let l' = (if (\<exists>(_, _, deadline) \<in> set (to_worker l). deadline \<le> now)
       \<or> (\<exists>(_, deadline) \<in> set (from_worker l). deadline \<le> now)
       then l\<lparr> fault := Some ''bootstrap queue deadline'' \<rparr> else l) in
     ((case fault l' of Some f \<Rightarrow> Inl f | None \<Rightarrow> Inr ()), l'))"

fun replace_ack :: "BootstrapAck \<Rightarrow> BootstrapAck list \<Rightarrow> BootstrapAck list option" where
  "replace_ack ack [] = None"
| "replace_ack ack (a # as) = (if ba_member_id a = ba_member_id ack then Some (ack # as)
     else map_option ((#) a) (replace_ack ack as))"

definition push_ack :: "BootstrapAck \<Rightarrow> BootstrapLane \<Rightarrow> (string + unit) \<times> BootstrapLane" where
  "push_ack ack l = (case replace_ack ack (acks l) of
     Some q \<Rightarrow> (Inr (), l\<lparr> acks := q \<rparr>)
   | None \<Rightarrow> if MAX_PENDING_ADMISSION_ACKS \<le> length (acks l) then (Inl ''bootstrap ack queue is full'', l)
       else (Inr (), l\<lparr> acks := acks l @ [ack] \<rparr>))"

definition take_acks :: "BootstrapLane \<Rightarrow> BootstrapAck list \<times> BootstrapLane" where
  "take_acks l = (acks l, l\<lparr> acks := [] \<rparr>)"

definition enqueue :: "TransportBudget \<Rightarrow> nanos \<Rightarrow> BootstrapTransaction \<Rightarrow> MemberId \<Rightarrow> BootstrapLane \<Rightarrow>
    (string + QueuedBootstrap) \<times> BootstrapLane" where
  "enqueue b now t member l =
     (if \<not> epoch_applies (bt_epoch t) (lane_epoch l) then (Inl ''bootstrap epoch is no longer live'', l)
      else case push_to_worker b now (Some member) (bt_offer_bytes t) l of
        (Inl e, l') \<Rightarrow> (Inl e, l')
      | (Inr _, l') \<Rightarrow> (Inr \<lparr> qb_epoch = bt_epoch t, qb_bootstrap_id = bt_bootstrap_id t, qb_tick_b = bt_tick_b t,
          qb_snapshot_seq = bt_snapshot_seq t, qb_connection = bt_connection t \<rparr>, l'))"

definition from_snapshot :: "u32 \<Rightarrow> u32 \<Rightarrow> u32 \<Rightarrow> u32 \<Rightarrow> ConnectionId \<Rightarrow> bytes \<Rightarrow> WireError + BootstrapTransaction" where
  "from_snapshot ep bid tick_b seq conn packet =
     res_bind (encode_bootstrap (Offer ep bid tick_b seq conn packet)) (\<lambda>offer.
       Inr \<lparr> bt_epoch = ep, bt_bootstrap_id = bid, bt_tick_b = tick_b, bt_snapshot_seq = seq, bt_connection = conn,
             bt_offer_bytes = offer \<rparr>)"

section \<open>Codec facts\<close>

lemma ids_reads [reads_rules]: "reads wr_pos get_ids (put_ids ep bid tick_b seq conn) (ep, bid, tick_b, seq, conn)"
  unfolding get_ids_def put_ids_def by (rule reads_eqI, (rule fields reads_rules)+) simp

lemma ids_inverts: "inverts wr_pos get_ids (\<lambda>(ep, bid, tick_b, seq, conn) w. w = put_ids ep bid tick_b seq conn)"
  unfolding get_ids_def put_ids_def
  by (rule inverts_mono, (rule get_inverts(3) inverts_bind inverts_return)+) auto

fun offer_fits :: "BootstrapMessage \<Rightarrow> bool" where
  "offer_fits (Offer _ _ _ _ _ packet) \<longleftrightarrow> length packet < 2 ^ 32"
| "offer_fits (Applied _ _ _ _ _) \<longleftrightarrow> True"

lemma packet_reads:
  "length packet < 2 ^ 32 \<Longrightarrow> reads wr_pos (get_bytes (unat (of_nat (length packet) :: u32))) (put_bytes packet) packet"
  using get_reads(8) [of packet] by simp

lemma preamble_reads:
  "reads wr_pos (decode_bootstrap_tagged tag) (concat ws) y \<Longrightarrow>
   reads wr_pos decode_bootstrap_message (concat (put_u8 a # put_u8 b # put_u8 BOOTSTRAP_VERSION # put_u8 tag # ws)) y"
  unfolding decode_bootstrap_message_def
  by (rule reads_Cons, rule get_reads, rule reads_Cons, rule get_reads, rule reads_Cons, rule get_reads,
      simp del: concat.simps, rule reads_Cons, rule get_reads)

lemma bootstrap_reads:
  assumes "encode_bootstrap m = Inr bs" and "offer_fits m"
  shows "reads wr_pos decode_bootstrap_message bs m"
proof (cases m)
  case (Offer ep bid tick_b seq conn packet)
  with assms have bs: "bs = concat [put_u8 (BOOTSTRAP_MAGIC ! 0), put_u8 (BOOTSTRAP_MAGIC ! 1), put_u8 BOOTSTRAP_VERSION, put_u8 BOOTSTRAP_OFFER,
        put_ids ep bid tick_b seq conn, put_u32 (of_nat (length packet)), put_bytes packet]"
    and le: "\<not> MAX_PACKET_BYTES < of_nat (length packet)" and len: "length packet < 2 ^ 32"
    by (auto split: if_splits)
  have "reads wr_pos decode_offer (concat [put_ids ep bid tick_b seq conn, put_u32 (of_nat (length packet)), put_bytes packet]) m"
    unfolding Offer decode_offer_def
    by (rule reads_Cons, rule ids_reads, simp only: prod.case, rule reads_Cons, rule get_reads, simp only: le if_False,
        (rule fields packet_reads len)+)
  then show ?thesis unfolding bs by (intro preamble_reads) (simp add: decode_bootstrap_tagged_def)
next
  case (Applied ep bid tick_b seq conn)
  with assms have bs: "bs = concat [put_u8 (BOOTSTRAP_MAGIC ! 0), put_u8 (BOOTSTRAP_MAGIC ! 1), put_u8 BOOTSTRAP_VERSION, put_u8 BOOTSTRAP_APPLIED,
        put_ids ep bid tick_b seq conn]" by auto
  have "reads wr_pos decode_applied (concat [put_ids ep bid tick_b seq conn]) m"
    unfolding Applied decode_applied_def by (rule reads_Cons, rule ids_reads, simp only: prod.case, rule fields)
  then show ?thesis unfolding bs by (intro preamble_reads) (simp add: decode_bootstrap_tagged_def)
qed

lemma tagged_inverts:
  "inverts wr_pos (decode_bootstrap_tagged tag) (\<lambda>m w.
     encode_bootstrap m = Inr (BOOTSTRAP_MAGIC @ put_u8 BOOTSTRAP_VERSION @ put_u8 tag @ w) \<and> offer_fits m)"
proof -
  have u: "unat n < 4294967296" for n :: u32 using unsigned_less [of n] by simp
  have offer: "inverts wr_pos decode_offer (\<lambda>m w.
     encode_bootstrap m = Inr (BOOTSTRAP_MAGIC @ put_u8 BOOTSTRAP_VERSION @ put_u8 BOOTSTRAP_OFFER @ w) \<and> offer_fits m)"
    unfolding decode_offer_def
  proof (rule inverts_mono [OF inverts_bind [OF ids_inverts]])
    fix v
    show "inverts wr_pos (case v of (ep, bid, tick_b, seq, conn) \<Rightarrow> rd_bind get_u32 (\<lambda>len.
       if MAX_PACKET_BYTES < len then rd_lift (Inl (WireMalformed ''bootstrap packet exceeds max_packet_bytes''))
       else rd_bind (get_bytes (unat len)) (\<lambda>packet. rd_return (Offer ep bid tick_b seq conn packet))))
      ((\<lambda>(ep, bid, tick_b, seq, conn) m w. \<exists>packet. m = Offer ep bid tick_b seq conn packet \<and> length packet < 4294967296
         \<and> \<not> MAX_PACKET_BYTES < of_nat (length packet) \<and> w = put_u32 (of_nat (length packet)) @ packet) v)"
      by (cases v; simp only: prod.case; rule inverts_mono [OF inverts_bind [OF get_inverts(3) inverts_if [OF
        inverts_error [of _ _ "\<lambda>_ _. False"] inverts_bind [OF get_inverts(5) inverts_return]]]])
        (auto simp: put_bytes_def u)
  next
    fix m w
    assume "\<exists>x a b. (case x of (ep, bid, tick_b, seq, conn) \<Rightarrow> \<lambda>w. w = put_ids ep bid tick_b seq conn) a
      \<and> (\<lambda>(ep, bid, tick_b, seq, conn) m w. \<exists>packet. m = Offer ep bid tick_b seq conn packet \<and> length packet < 4294967296
         \<and> \<not> MAX_PACKET_BYTES < of_nat (length packet) \<and> w = put_u32 (of_nat (length packet)) @ packet) x m b \<and> w = a @ b"
    then show "encode_bootstrap m = Inr (BOOTSTRAP_MAGIC @ put_u8 BOOTSTRAP_VERSION @ put_u8 BOOTSTRAP_OFFER @ w) \<and> offer_fits m"
      by (auto simp: put_u8_def put_bytes_def)
  qed
  have applied: "inverts wr_pos decode_applied (\<lambda>m w.
     encode_bootstrap m = Inr (BOOTSTRAP_MAGIC @ put_u8 BOOTSTRAP_VERSION @ put_u8 BOOTSTRAP_APPLIED @ w) \<and> offer_fits m)"
    unfolding decode_applied_def
  proof (rule inverts_mono [OF inverts_bind [OF ids_inverts]])
    show "inverts wr_pos (case v of (ep, bid, tick_b, seq, conn) \<Rightarrow> rd_return (Applied ep bid tick_b seq conn))
      ((\<lambda>(ep, bid, tick_b, seq, conn) m w. m = Applied ep bid tick_b seq conn \<and> w = []) v)" for v
      by (cases v) (simp add: inverts_return)
  qed (auto simp: put_u8_def)
  from offer applied show ?thesis
    unfolding decode_bootstrap_tagged_def by (intro inverts_ifI inverts_error) auto
qed

section \<open>The two worker queues\<close>

type_synonym worker_entry = "MemberId option \<times> bytes \<times> nanos"

definition entries_bytes :: "worker_entry list \<Rightarrow> nat" where
  "entries_bytes q = sum_list (map (\<lambda>(_, bs, _). length bs) q)"

definition has_room :: "TransportBudget \<Rightarrow> bytes \<Rightarrow> worker_entry list \<Rightarrow> bool" where
  "has_room b bs q \<longleftrightarrow> length q < min MAX_BOOTSTRAP_PENDING (queue_items b) \<and> length bs \<le> MAX_BOOTSTRAP_STREAM_BYTES
     \<and> entries_bytes q + length bs \<le> queue_bytes b"

definition queue_ok :: "TransportBudget \<Rightarrow> worker_entry list \<Rightarrow> bool" where
  "queue_ok b q \<longleftrightarrow> length q \<le> min MAX_BOOTSTRAP_PENDING (queue_items b)
     \<and> (\<forall>(_, bs, _) \<in> set q. length bs \<le> MAX_BOOTSTRAP_STREAM_BYTES) \<and> entries_bytes q \<le> queue_bytes b"

definition all_fresh :: "nanos \<Rightarrow> worker_entry list \<Rightarrow> bool" where
  "all_fresh now q \<longleftrightarrow> (\<forall>(_, _, deadline) \<in> set q. now < deadline)"

fun push_seq :: "(TransportBudget \<Rightarrow> nanos \<Rightarrow> MemberId option \<Rightarrow> bytes \<Rightarrow> BootstrapLane \<Rightarrow> (string + unit) \<times> BootstrapLane) \<Rightarrow>
    TransportBudget \<Rightarrow> nanos \<Rightarrow> (MemberId option \<times> bytes) list \<Rightarrow> BootstrapLane \<Rightarrow> BootstrapLane option" where
  "push_seq push b now [] l = Some l"
| "push_seq push b now ((m, bs) # ms) l = (case push b now m bs l of (Inl _, _) \<Rightarrow> None
     | (Inr _, l') \<Rightarrow> push_seq push b now ms l')"

lemma entries_bytes_append [simp]: "entries_bytes (q @ [(m, bs, d)]) = entries_bytes q + length bs"
  by (simp add: entries_bytes_def)

lemma queue_ok_push: "queue_ok b q \<Longrightarrow> has_room b bs q \<Longrightarrow> queue_ok b (q @ [(m, bs, d)])"
  by (auto simp: queue_ok_def has_room_def)

locale worker_queue =
  fixes push :: "TransportBudget \<Rightarrow> nanos \<Rightarrow> MemberId option \<Rightarrow> bytes \<Rightarrow> BootstrapLane \<Rightarrow> (string + unit) \<times> BootstrapLane"
    and take_all :: "nanos \<Rightarrow> BootstrapLane \<Rightarrow> 'r list \<times> BootstrapLane"
    and view :: "BootstrapLane \<Rightarrow> worker_entry list"
    and out :: "MemberId option \<times> bytes \<Rightarrow> 'r"
  assumes push_full: "\<not> has_room b bs (view l) \<Longrightarrow> \<exists>e. push b now m bs l = (Inl e, l)"
    and push_room: "has_room b bs (view l) \<Longrightarrow>
      \<exists>l'. push b now m bs l = (Inr (), l') \<and> view l' = view l @ [(m, bs, now + queue_age b)]"
    and take_fresh: "all_fresh now (view l) \<Longrightarrow>
      \<exists>l'. take_all now l = (map (\<lambda>(m, bs, _). out (m, bs)) (view l), l') \<and> view l' = [] \<and> fault l' = fault l"
    and take_late: "\<not> all_fresh now (view l) \<Longrightarrow> \<exists>l'. take_all now l = ([], l') \<and> view l' = [] \<and> fault l' \<noteq> None"
begin

lemma push_keeps_ok: "queue_ok b (view l) \<Longrightarrow> queue_ok b (view (snd (push b now m bs l)))"
  using push_full [of b bs l now m] push_room [of b bs l now m] queue_ok_push
  by (cases "has_room b bs (view l)") fastforce+

lemma take_empties: "view (snd (take_all now l)) = []"
  using take_fresh [of now l] take_late [of now l] by (cases "all_fresh now (view l)") auto

lemma push_seq_view:
  "push_seq push b now ms l = Some l' \<Longrightarrow> view l' = view l @ map (\<lambda>(m, bs). (m, bs, now + queue_age b)) ms"
proof (induction ms arbitrary: l)
  case (Cons e ms)
  obtain m bs where e: "e = (m, bs)" by (cases e)
  with Cons.prems have room: "has_room b bs (view l)"
    using push_full [of b bs l now m] by (cases "has_room b bs (view l)") auto
  from push_room [OF room, of now m] obtain l1 where
    l1: "push b now m bs l = (Inr (), l1)" "view l1 = view l @ [(m, bs, now + queue_age b)]" by blast
  with Cons.prems e have "push_seq push b now ms l1 = Some l'" by simp
  from Cons.IH [OF this] l1(2) e show ?case by simp
qed simp

lemma fifo:
  assumes "view l = []" and "push_seq push b now ms l = Some l'" and "now' < now + queue_age b"
  shows "fst (take_all now' l') = map out ms"
proof -
  have v: "view l' = map (\<lambda>(m, bs). (m, bs, now + queue_age b)) ms" using push_seq_view [OF assms(2)] assms(1) by simp
  then have "all_fresh now' (view l')" using assms(3) by (auto simp: all_fresh_def)
  from take_fresh [OF this] v show ?thesis by (auto simp: comp_def case_prod_beta)
qed

end

definition ingress_view :: "BootstrapLane \<Rightarrow> worker_entry list" where
  "ingress_view l = map (\<lambda>(entry, deadline). (bi_member_id entry, bi_bytes entry, deadline)) (from_worker l)"

definition to_ingress :: "MemberId option \<times> bytes \<Rightarrow> BootstrapIngress" where
  "to_ingress p = \<lparr> bi_member_id = fst p, bi_bytes = snd p \<rparr>"

interpretation egress: worker_queue push_to_worker take_to_worker to_worker "\<lambda>p. p"
  by unfold_locales
    (auto simp: push_to_worker_def take_to_worker_def has_room_def all_fresh_def entries_bytes_def Let_def not_le not_less)

lemma ingress_bytes: "sum_list (map (\<lambda>(entry, _). length (bi_bytes entry)) (from_worker l)) = entries_bytes (ingress_view l)"
  by (simp add: entries_bytes_def ingress_view_def comp_def case_prod_unfold)

interpretation ingress: worker_queue push_from_worker take_from_worker ingress_view to_ingress
proof unfold_locales
  fix b bs l now and m :: "MemberId option"
  show "\<not> has_room b bs (ingress_view l) \<Longrightarrow> \<exists>e. push_from_worker b now m bs l = (Inl e, l)"
    by (auto simp: push_from_worker_def has_room_def ingress_bytes not_less not_le) (auto simp: ingress_view_def)
  show "has_room b bs (ingress_view l) \<Longrightarrow> \<exists>l'. push_from_worker b now m bs l = (Inr (), l')
      \<and> ingress_view l' = ingress_view l @ [(m, bs, now + queue_age b)]"
    unfolding push_from_worker_def has_room_def ingress_bytes by (auto simp: ingress_view_def)
  show "all_fresh now (ingress_view l) \<Longrightarrow> \<exists>l'. take_from_worker now l = (map (\<lambda>(m, bs, _). to_ingress (m, bs)) (ingress_view l), l')
      \<and> ingress_view l' = [] \<and> fault l' = fault l"
    by (force simp: take_from_worker_def all_fresh_def ingress_view_def to_ingress_def Let_def comp_def case_prod_beta)
  show "\<not> all_fresh now (ingress_view l) \<Longrightarrow> \<exists>l'. take_from_worker now l = ([], l') \<and> ingress_view l' = [] \<and> fault l' \<noteq> None"
    by (force simp: take_from_worker_def all_fresh_def ingress_view_def Let_def not_less)
qed

section \<open>The lane in use\<close>

definition lane_ok :: "TransportBudget \<Rightarrow> BootstrapLane \<Rightarrow> bool" where
  "lane_ok b l \<longleftrightarrow> queue_ok b (to_worker l) \<and> queue_ok b (ingress_view l)
     \<and> length (acks l) \<le> MAX_PENDING_ADMISSION_ACKS \<and> distinct (map ba_member_id (acks l))"

inductive lane_step :: "TransportBudget \<Rightarrow> BootstrapLane \<Rightarrow> BootstrapLane \<Rightarrow> bool" for b where
  set_epoch: "lane_step b l (set_epoch ep l)"
| note_entered: "lane_step b l (note_entered bid client l)"
| push_to_worker: "lane_step b l (snd (push_to_worker b now m bs l))"
| enqueue: "lane_step b l (snd (enqueue b now t member l))"
| take_to_worker: "lane_step b l (snd (take_to_worker now l))"
| push_from_worker: "lane_step b l (snd (push_from_worker b now m bs l))"
| take_from_worker: "lane_step b l (snd (take_from_worker now l))"
| check_deadline: "lane_step b l (snd (check_deadline now l))"
| push_ack: "lane_step b l (snd (push_ack ack l))"
| take_acks: "lane_step b l (snd (take_acks l))"

lemma replace_ack_Some:
  "replace_ack ack q = Some q' \<Longrightarrow> map ba_member_id q' = map ba_member_id q"
  by (induction q arbitrary: q') (auto split: if_splits)

lemma replace_ack_None: "replace_ack ack q = None \<Longrightarrow> ba_member_id ack \<notin> set (map ba_member_id q)"
  by (induction q) (auto split: if_splits)

lemma queue_ok_Nil [simp]: "queue_ok b []"
  by (simp add: queue_ok_def entries_bytes_def)

lemma other_fields [simp]:
  "ingress_view (snd (push_to_worker b now m bs l)) = ingress_view l" "acks (snd (push_to_worker b now m bs l)) = acks l"
  "ingress_view (snd (take_to_worker now l)) = ingress_view l" "acks (snd (take_to_worker now l)) = acks l"
  "to_worker (snd (push_from_worker b now m bs l)) = to_worker l" "acks (snd (push_from_worker b now m bs l)) = acks l"
  "to_worker (snd (take_from_worker now l)) = to_worker l" "acks (snd (take_from_worker now l)) = acks l"
  by (simp_all add: push_to_worker_def take_to_worker_def push_from_worker_def take_from_worker_def ingress_view_def Let_def)

lemma ingress_view_update [simp]:
  "ingress_view (l\<lparr> acks := q \<rparr>) = ingress_view l"
  by (simp add: ingress_view_def)

lemma enqueue_state:
  "snd (enqueue b now t member l) = l \<or> snd (enqueue b now t member l) = snd (push_to_worker b now (Some member) (bt_offer_bytes t) l)"
  by (auto simp: enqueue_def split: sum.splits prod.splits)

lemma push_ack_ok: "lane_ok b l \<Longrightarrow> lane_ok b (snd (push_ack ack l))"
proof (cases "replace_ack ack (acks l)")
  case None
  then show "lane_ok b l \<Longrightarrow> ?thesis"
    using replace_ack_None [OF None] by (auto simp: push_ack_def lane_ok_def ingress_view_def)
next
  case (Some q)
  then show "lane_ok b l \<Longrightarrow> ?thesis"
    using replace_ack_Some [OF Some] map_eq_imp_length_eq [OF replace_ack_Some [OF Some]]
    by (simp add: push_ack_def lane_ok_def ingress_view_def)
qed

lemma lane_step_ok:
  assumes "lane_step b l l'" and "lane_ok b l"
  shows "lane_ok b l'"
  using assms(1)
proof cases
  case (enqueue now t member)
  with enqueue_state [of b now t member l] egress.push_keeps_ok assms(2) show ?thesis by (auto simp: lane_ok_def)
next
  case (push_ack ack)
  with push_ack_ok assms(2) show ?thesis by simp
next
  case (check_deadline now)
  with assms(2) show ?thesis by (simp add: check_deadline_def Let_def lane_ok_def ingress_view_def)
next
  case (set_epoch ep)
  with assms(2) show ?thesis by (simp add: lane_ok_def set_epoch_def ingress_view_def)
next
  case (note_entered bid client)
  with assms(2) show ?thesis by (simp add: lane_ok_def note_entered_def ingress_view_def)
qed (use assms(2) egress.push_keeps_ok ingress.push_keeps_ok egress.take_empties ingress.take_empties in
      \<open>auto simp: lane_ok_def take_acks_def\<close>)

inductive lane_reachable :: "TransportBudget \<Rightarrow> BootstrapLane \<Rightarrow> bool" for b where
  start: "lane_reachable b lane_new"
| step: "lane_reachable b l \<Longrightarrow> lane_step b l l' \<Longrightarrow> lane_reachable b l'"

lemma lane_new_ok: "lane_ok b lane_new"
  by (simp add: lane_ok_def lane_new_def ingress_view_def)

section \<open>Properties\<close>

lemma encode_bootstrap_magic: "encode_bootstrap m = Inr bs \<Longrightarrow> take 2 bs = BOOTSTRAP_MAGIC"
  by (cases m) (auto simp: put_u8_def split: if_splits)

lemma message_inverts:
  assumes "take 2 bs = BOOTSTRAP_MAGIC" and "decode_bootstrap_message (wr_new bs) = Inr (m, input)" and "wr_is_empty input"
  shows "encode_bootstrap m = Inr bs \<and> offer_fits m"
proof -
  have "inverts wr_pos decode_bootstrap_message (\<lambda>m w. \<exists>a b v. w = [a, b] @ v
      \<and> encode_bootstrap m = Inr (BOOTSTRAP_MAGIC @ v) \<and> offer_fits m)"
    unfolding decode_bootstrap_message_def
    by (rule inverts_mono [OF inverts_bind [OF get_inverts(1) inverts_bind [OF get_inverts(1) inverts_bind [OF get_inverts(1)
      inverts_if [OF inverts_error [of _ _ "\<lambda>_ _. False"] inverts_bind [OF get_inverts(1) tagged_inverts]]]]]])
      (auto simp: put_u8_def)
  from invertsD [OF this wrd.pos_new assms(2)] obtain a b v post where
    w: "bs = ([a, b] @ v) @ post" "encode_bootstrap m = Inr (BOOTSTRAP_MAGIC @ v)" "offer_fits m" "wr_pos input post" by blast
  moreover from wr_is_empty_iff [OF w(4)] assms(3) have "post = []" by simp
  ultimately show ?thesis using assms(1) by simp
qed

text \<open>
  A bootstrap message is read exactly from its own encoding: an offer and its packet, or an
  acknowledgement, come back unchanged, and no other bytes are taken for them.
\<close>

lemma bootstrap_canonical:
  "decode_bootstrap bs = Inr (Some m) \<longleftrightarrow> encode_bootstrap m = Inr bs \<and> offer_fits m"
proof
  assume "decode_bootstrap bs = Inr (Some m)"
  then show "encode_bootstrap m = Inr bs \<and> offer_fits m"
    by (auto simp: decode_bootstrap_def message_inverts split: if_splits)
next
  assume e: "encode_bootstrap m = Inr bs \<and> offer_fits m"
  have "wr_pos (wr_new bs) (bs @ [])" using wrd.pos_new [of bs] by simp
  from readsD [OF bootstrap_reads this] e obtain input where
    "decode_bootstrap_message (wr_new bs) = Inr (m, input)" "wr_pos input []" by blast
  with e wr_is_empty_iff encode_bootstrap_magic show "decode_bootstrap bs = Inr (Some m)"
    by (auto simp: decode_bootstrap_def)
qed

text \<open>
  C34. The lane stays within its bounds however the game and the worker use it: at most eight
  entries and the configured number of bytes in each direction, every entry short enough for a
  bootstrap stream, and at most one acknowledgement per member, eighteen in all.
\<close>

theorem lane_bounded:
  assumes "lane_reachable b l"
  shows "lane_ok b l"
  using assms by (induction rule: lane_reachable.induct) (auto intro: lane_new_ok lane_step_ok)

theorem lane_bounded_witness:
  "lane_ok default_budget (snd (push_to_worker default_budget 0 None [1] lane_new))
     \<and> length (to_worker (snd (push_to_worker default_budget 0 None [1] lane_new))) = 1"
proof -
  have "lane_reachable default_budget (snd (push_to_worker default_budget 0 None [1] lane_new))"
    by (rule lane_reachable.step [OF lane_reachable.start lane_step.push_to_worker])
  from lane_bounded [OF this] show ?thesis by (simp add: push_to_worker_def lane_new_def default_budget_def)
qed



lemma length_offer:
  "encode_bootstrap (Offer ep bid tick_b seq conn packet) = Inr bs \<Longrightarrow> length bs = 32 + length packet"
  by (auto simp: put_ids_def put_bytes_def split: if_splits)

text \<open>
  C38. The limits do not fit together: an offer whose packet is the largest that is allowed is
  encoded, but it cannot be relayed. From 262113 bytes of packet on, the offer with its 32 bytes of
  header exceeds what a relay stream carries.
\<close>

theorem large_offer_not_relayed:
  assumes "262112 < length packet" and "length packet \<le> 262144"
  shows "\<exists>bs. encode_bootstrap (Offer ep bid tick_b seq conn packet) = Inr bs
    \<and> encode_relay_stream (HostToMember member bs) = Inl (LengthExceeded (length bs))"
proof -
  have "\<not> MAX_PACKET_BYTES < (of_nat (length packet) :: u32)"
    using assms(2) by (simp add: word_less_nat_alt)
  then obtain bs where e: "encode_bootstrap (Offer ep bid tick_b seq conn packet) = Inr bs" by simp
  from length_offer [OF e] assms(1) have "encode_relay_stream (HostToMember member bs) = Inl (LengthExceeded (length bs))"
    by (simp add: encode_relay_stream_def encode_relay_bounded_def)
  with e show ?thesis by blast
qed

theorem large_offer_not_relayed_witness:
  "\<exists>bs. encode_bootstrap (Offer 1 1 1 1 (ConnectionId 1) (replicate 262144 0)) = Inr bs
    \<and> encode_relay_stream (HostToMember (MemberId (array_of (replicate 16 0))) bs) = Inl (LengthExceeded (length bs))"
  by (rule large_offer_not_relayed) simp_all

end
