(* ===== verification/Segment_Delta.thy ===== *)
theory Segment_Delta
  imports Rust_Std
begin

text \<open>
  Snapshots as differences: \<^verbatim>\<open>crates/net/src/transport/segment_delta.rs\<close>, with the frame parts of
  \<^verbatim>\<open>frame.rs\<close>. A frame has fourteen segments; each is sent as unchanged, as a list of changed
  runs, compressed against the old segment, or raw. The zstd library is an argument
  (\<open>z_compress\<close> with a prefix, \<open>z_decompress\<close>); \<open>zstd_ok\<close> says that it undoes itself. A frame's
  metadata is shared: a \<open>FrameParts\<close> holds the address of a \<open>WireMeta\<close> in a store, which stands
  for \<open>Arc::ptr_eq\<close>. \<open>usize\<close> values are below \<open>2 ^ 64\<close> and none of the sums below can reach it.
\<close>

unbundle bit_operations_syntax

section \<open>Variable-length integers\<close>

fun put_varint :: "nat \<Rightarrow> bytes" where
  "put_varint v = (if 0x80 \<le> v then ((of_nat v :: u8) OR 0x80) # put_varint (v div 2 ^ 7) else [of_nat v])"

declare put_varint.simps [simp del]

fun get_varint_at :: "nat list \<Rightarrow> nat \<Rightarrow> bytes \<Rightarrow> (nat \<times> bytes) option" where
  "get_varint_at [] v input = None"
| "get_varint_at (shift # shifts) v [] = None"
| "get_varint_at (shift # shifts) v (b # rest) =
     (let v' = v OR push_bit shift (unat (b AND 0x7f)) in
      if b AND 0x80 = 0 then Some (v', rest) else get_varint_at shifts v' rest)"

definition get_varint :: "bytes \<Rightarrow> (nat \<times> bytes) option" where
  "get_varint input = get_varint_at [0, 7, 14, 21, 28] 0 input"

definition take_bytes :: "bytes \<Rightarrow> nat \<Rightarrow> (bytes \<times> bytes) option" where
  "take_bytes input len = (if length input < len then None else Some (take len input, drop len input))"

lemma or_high: "v < 2 ^ k \<Longrightarrow> v OR push_bit k w = v + w * 2 ^ k" for v w :: nat
proof -
  assume a: "v < 2 ^ k"
  have "\<not> bit v n \<or> \<not> bit (push_bit k w) n" for n
  proof (cases "n < k")
    case False
    with a have "take_bit k v = v" by (simp add: take_bit_nat_eq_self)
    with False show ?thesis by (metis bit_take_bit_iff)
  qed (simp add: bit_push_bit_iff)
  from disjunctive_add [of v "push_bit k w", OF this] show ?thesis by (simp add: push_bit_eq_mult)
qed

lemma byte_bits: "128 \<le> v \<Longrightarrow> unat (((of_nat v :: 8 word) OR 0x80) AND 0x7f) = v mod 128"
proof -
  have e: "((of_nat v :: 8 word) OR 0x80) AND 0x7f = take_bit 7 (of_nat v)"
    by (rule bit_word_eqI) (auto simp: bit_simps numeral_eq_Suc less_Suc_eq)
  show ?thesis unfolding e by (simp only: unsigned_take_bit_eq unat_of_nat) (simp add: take_bit_eq_mod mod_mod_cancel)
qed

lemma byte_high: "((of_nat v :: 8 word) OR 0x80) AND 0x80 \<noteq> 0"
proof -
  have "bit (((of_nat v :: 8 word) OR 0x80) AND 0x80) 7" by (simp add: bit_simps)
  then show ?thesis by auto
qed

lemma byte_low: "v < 128 \<Longrightarrow> (of_nat v :: 8 word) AND 0x80 = 0 \<and> unat ((of_nat v :: 8 word) AND 0x7f) = v"
proof -
  assume a: "v < 128"
  have m: "(0x7f :: 8 word) = mask 7" by (simp add: mask_eq_exp_minus_1)
  have t: "take_bit 7 (of_nat v :: 8 word) = of_nat v"
    unfolding word_unat_eq_iff unsigned_take_bit_eq unat_of_nat using a by (simp add: take_bit_eq_mod)
  have "(of_nat v :: 8 word) AND 0x80 = take_bit 7 (of_nat v) AND 0x80" using t by simp
  also have "\<dots> = 0" by (rule bit_word_eqI) (auto simp: bit_simps numeral_eq_Suc less_Suc_eq)
  finally show ?thesis using a t by (simp add: m unat_of_nat flip: take_bit_eq_mask)
qed

lemma varint_at_reads:
  assumes "acc < 2 ^ (7 * k)" and "v < 2 ^ (7 * n)" and "0 < n"
  shows "get_varint_at (map ((*) 7) [k..<k + n]) acc (put_varint v @ rest) = Some (acc + v * 2 ^ (7 * k), rest)"
  using assms
proof (induction v arbitrary: acc k n rule: put_varint.induct)
  case (1 v)
  have c: "[k..<k + n] = k # [Suc k..<k + n]" using "1.prems"(3) by (simp add: upt_conv_Cons)
  show ?case
  proof (cases "0x80 \<le> v")
    case False
    with "1.prems" or_high [of acc "7 * k" v] byte_low [of v] show ?thesis
      by (subst put_varint.simps) (simp add: c Let_def)
  next
    case True
    let ?a = "acc + v mod 128 * 2 ^ (7 * k)"
    from "1.prems" have "n \<noteq> 1" using True by auto
    with "1.prems"(3) obtain m where m: "n = Suc m" "0 < m" by (cases n) auto
    have "v mod 128 * 2 ^ (7 * k) \<le> 127 * 2 ^ (7 * k)" by (intro mult_le_mono1) simp
    moreover have "(2 :: nat) ^ (7 * Suc k) = 128 * 2 ^ (7 * k)" by (simp add: power_add)
    ultimately have a: "?a < 2 ^ (7 * Suc k)" using "1.prems"(1) by linarith
    have d: "v div 2 ^ 7 < 2 ^ (7 * m)" using "1.prems"(2) m by (simp add: power_add less_mult_imp_div_less)
    have e: "?a + v div 2 ^ 7 * 2 ^ (7 * Suc k) = acc + v * 2 ^ (7 * k)"
    proof -
      define q m P where "q = v div 128" and "m = v mod 128" and "P = (2 :: nat) ^ (7 * k)"
      have "v = 128 * q + m" by (simp add: q_def m_def)
      then have "m * P + q * (128 * P) = v * P" by (simp add: algebra_simps)
      then show ?thesis by (simp add: q_def m_def P_def power_add)
    qed
    have c': "map ((*) 7) [k..<k + n] = 7 * k # map ((*) 7) [Suc k..<Suc k + m]"
      using m by (simp add: upt_conv_Cons del: upt_Suc)
    have p: "put_varint v = ((of_nat v :: u8) OR 0x80) # put_varint (v div 2 ^ 7)"
      using True by (subst put_varint.simps) simp
    have "get_varint_at (map ((*) 7) [Suc k..<Suc k + m]) ?a (put_varint (v div 2 ^ 7) @ rest) = Some (acc + v * 2 ^ (7 * k), rest)"
      using "1.IH" [OF True a d m(2)] unfolding e .
    then show ?thesis
      unfolding c' p append_Cons get_varint_at.simps Let_def byte_bits [OF True] or_high [OF "1.prems"(1)]
      using byte_high [of v] by simp
  qed
qed

lemma varint_reads: "v < 2 ^ 35 \<Longrightarrow> get_varint (put_varint v @ rest) = Some (v, rest)"
  using varint_at_reads [of 0 0 v 5 rest] by (simp add: get_varint_def upt_rec)

section \<open>Differences of two segments\<close>

abbreviation (input) SAME :: u8 where "SAME \<equiv> 0"
abbreviation (input) PATCH :: u8 where "PATCH \<equiv> 1"
abbreviation (input) RAW :: u8 where "RAW \<equiv> 2"
abbreviation (input) PREFIXED :: u8 where "PREFIXED \<equiv> 3"
abbreviation (input) RUN_MERGE_GAP :: nat where "RUN_MERGE_GAP \<equiv> 8"
abbreviation (input) PREFIX_MIN_BYTES :: nat where "PREFIX_MIN_BYTES \<equiv> 4096"
abbreviation (input) MAX_RECONSTRUCTED_FRAME_BYTES :: nat where "MAX_RECONSTRUCTED_FRAME_BYTES \<equiv> 262144"
abbreviation (input) MAX_DELTA_INSTRUCTION_BYTES :: nat where "MAX_DELTA_INSTRUCTION_BYTES \<equiv> 262144"

text \<open>
  \<open>put_patch\<close> and the functions it calls are used on segments of equal length only, so the slices of
  the old segment exist. Words are compared by value, which does not depend on the byte order.
\<close>

definition window :: "bytes \<Rightarrow> nat \<Rightarrow> u64" where
  "window bs at = from_le_bytes (take 8 (drop at bs))"

function skip_windows :: "bytes \<Rightarrow> bytes \<Rightarrow> nat \<Rightarrow> nat" where
  "skip_windows new old at = (if at + 8 \<le> length new \<and> window new at = window old at then skip_windows new old (at + 8) else at)"
  by pat_completeness auto
termination by (relation "measure (\<lambda>(new, _, at). length new - at)") auto

declare skip_windows.simps [simp del]

definition first_difference :: "bytes \<Rightarrow> bytes \<Rightarrow> nat \<Rightarrow> nat option" where
  "first_difference new old from_at = find (\<lambda>i. new ! i \<noteq> old ! i) [skip_windows new old from_at..<length new]"

lemma window_eq:
  assumes "length new = length old" and "at + 8 \<le> length new" and "window new at = window old at" and "at \<le> i" and "i < at + 8"
  shows "new ! i = old ! i"
proof -
  have "to_le_bytes (window new at) = take 8 (drop at new)" "to_le_bytes (window old at) = take 8 (drop at old)"
    using assms(1,2) by (simp_all add: window_def to_le_from_le)
  with assms(3) have "take 8 (drop at new) ! (i - at) = take 8 (drop at old) ! (i - at)" by simp
  with assms show ?thesis by simp
qed

lemma skip_windows_equal:
  "length new = length old \<Longrightarrow> at \<le> skip_windows new old at \<and> (\<forall>i. at \<le> i \<longrightarrow> i < skip_windows new old at \<longrightarrow> new ! i = old ! i)
     \<and> (at \<le> length new \<longrightarrow> skip_windows new old at \<le> length new)"
proof (induction new old at rule: skip_windows.induct)
  case (1 new old at)
  show ?case
  proof (cases "at + 8 \<le> length new \<and> window new at = window old at")
    case True
    note IH = "1.IH" [OF True "1.prems"]
    have s: "skip_windows new old at = skip_windows new old (at + 8)" using True by (subst skip_windows.simps) simp
    have "new ! i = old ! i" if "at \<le> i" "i < skip_windows new old (at + 8)" for i
      using IH that window_eq [OF "1.prems", of at i] True by (cases "i < at + 8") auto
    with IH True show ?thesis unfolding s by auto
  qed (subst skip_windows.simps; auto)+
qed

lemma find_none: "(\<And>x. x \<in> set xs \<Longrightarrow> \<not> P x) \<Longrightarrow> find P xs = None"
  by (simp add: find_None_iff)

text \<open>The search by words finds what a search byte by byte finds.\<close>

lemma first_difference_find:
  assumes "length new = length old"
  shows "first_difference new old at = find (\<lambda>i. new ! i \<noteq> old ! i) [at..<length new]"
proof (cases "at \<le> length new")
  case True
  let ?s = "skip_windows new old at"
  from skip_windows_equal [OF assms, of at] True have s: "at \<le> ?s" "?s \<le> length new"
    and eq: "\<And>i. at \<le> i \<Longrightarrow> i < ?s \<Longrightarrow> new ! i = old ! i" by auto
  have "[at..<length new] = [at..<?s] @ [?s..<length new]"
    using s upt_add_eq_append [of at ?s "length new - ?s"] by simp
  moreover have "find (\<lambda>i. new ! i \<noteq> old ! i) [at..<?s] = None" using eq by (intro find_none) simp
  ultimately show ?thesis by (simp add: first_difference_def find_append)
next
  case False
  then have "skip_windows new old at = at" by (subst skip_windows.simps) simp
  with False show ?thesis by (simp add: first_difference_def)
qed

lemma find_upt_SomeD:
  assumes "find P [a..<n] = Some i"
  shows "a \<le> i" and "i < n" and "P i" and "\<And>j. a \<le> j \<Longrightarrow> j < i \<Longrightarrow> \<not> P j"
proof -
  from assms obtain k where k: "k < n - a" "P (a + k)" "i = a + k" "\<And>j. j < k \<Longrightarrow> \<not> P (a + j)"
    by (auto simp: find_Some_iff)
  then show "a \<le> i" "i < n" "P i" by simp_all
  show "\<not> P j" if "a \<le> j" "j < i" for j using k(3) k(4) [of "j - a"] that by simp
qed

lemma first_difference_SomeD:
  assumes "length new = length old" and "first_difference new old at = Some i"
  shows "at \<le> i" and "i < length new" and "new ! i \<noteq> old ! i" and "\<And>j. at \<le> j \<Longrightarrow> j < i \<Longrightarrow> new ! j = old ! j"
  using find_upt_SomeD [OF assms(2) [unfolded first_difference_find [OF assms(1)]]] by auto

lemma first_difference_NoneD:
  "length new = length old \<Longrightarrow> first_difference new old at = None \<Longrightarrow> at \<le> j \<Longrightarrow> j < length new \<Longrightarrow> new ! j = old ! j"
  by (auto simp: first_difference_find find_None_iff)

section \<open>Runs\<close>

function scan_run :: "bytes \<Rightarrow> bytes \<Rightarrow> nat \<Rightarrow> nat \<Rightarrow> nat" where
  "scan_run new old at_last scan =
     (if scan < length new \<and> scan - at_last \<le> RUN_MERGE_GAP
      then scan_run new old (if new ! scan \<noteq> old ! scan then scan else at_last) (scan + 1) else at_last)"
  by pat_completeness auto
termination by (relation "measure (\<lambda>(new, _, _, scan). length new - scan)") auto

declare scan_run.simps [simp del]

definition merge_run :: "nat \<Rightarrow> nat \<Rightarrow> (nat \<times> nat) list \<Rightarrow> (nat \<times> nat) list" where
  "merge_run first stop runs =
     (if runs \<noteq> [] \<and> first - snd (last runs) \<le> RUN_MERGE_GAP
      then butlast runs @ [(fst (last runs), stop)] else runs @ [(first, stop)])"

lemma scan_run_bounds:
  "at_last \<le> scan \<Longrightarrow> at_last < length new \<Longrightarrow> at_last \<le> scan_run new old at_last scan \<and> scan_run new old at_last scan < length new"
proof (induction new old at_last scan rule: scan_run.induct)
  case (1 new old at_last scan)
  then show ?case by (subst scan_run.simps, subst (2) scan_run.simps) (auto simp: le_SucI)
qed

text \<open>
  The loop of \<open>put_patch\<close>. It ends because every run reaches beyond the place it was looked for;
  for segments of different length, where the source would panic, the model stops.
\<close>

function find_runs :: "bytes \<Rightarrow> bytes \<Rightarrow> nat \<Rightarrow> (nat \<times> nat) list \<Rightarrow> (nat \<times> nat) list" where
  "find_runs new old at runs = (if length new \<noteq> length old then runs else case first_difference new old at of
     None \<Rightarrow> runs
   | Some first \<Rightarrow> let at_last = scan_run new old first first in
       find_runs new old (at_last + 1) (merge_run first (at_last + 1) runs))"
  by pat_completeness auto
termination
proof (relation "measure (\<lambda>(new, _, at, _). length new - at)", goal_cases)
  case (2 new old at runs first at_last)
  then have "length new = length old" by simp
  from first_difference_SomeD [OF this 2(2)] have "at \<le> first" "first < length new" by simp_all
  with scan_run_bounds [of first first new old] 2(3) show ?case by auto
qed simp

declare find_runs.simps [simp del]

fun emit_runs :: "bytes \<Rightarrow> nat \<Rightarrow> (nat \<times> nat) list \<Rightarrow> bytes" where
  "emit_runs new at [] = []"
| "emit_runs new at ((start, stop) # runs) =
     put_varint (start - at) @ put_varint (stop - start) @ take (stop - start) (drop start new) @ emit_runs new stop runs"

definition put_patch :: "bytes \<Rightarrow> bytes \<Rightarrow> bytes" where
  "put_patch new old = (let runs = find_runs new old 0 [] in put_varint (length runs) @ emit_runs new 0 runs)"

fun apply_runs :: "nat \<Rightarrow> nat \<Rightarrow> bytes \<Rightarrow> bytes \<Rightarrow> (bytes \<times> bytes) option" where
  "apply_runs 0 at seg input = Some (seg, input)"
| "apply_runs (Suc n) at seg input =
     Option.bind (get_varint input) (\<lambda>(gap, i1). Option.bind (get_varint i1) (\<lambda>(len, i2).
       Option.bind (take_bytes i2 len) (\<lambda>(bs, i3).
         let start = at + gap; stop = start + len in
         if stop \<le> length seg then apply_runs n stop (take start seg @ bs @ drop stop seg) i3 else None)))"

text \<open>Runs are ascending and disjoint between two positions, and cover every difference.\<close>

fun runs_ok :: "nat \<Rightarrow> (nat \<times> nat) list \<Rightarrow> nat \<Rightarrow> bool" where
  "runs_ok lo [] hi \<longleftrightarrow> lo \<le> hi"
| "runs_ok lo ((start, stop) # runs) hi \<longleftrightarrow> lo \<le> start \<and> start < stop \<and> runs_ok stop runs hi"

definition in_runs :: "nat \<Rightarrow> (nat \<times> nat) list \<Rightarrow> bool" where
  "in_runs i runs \<longleftrightarrow> (\<exists>(start, stop) \<in> set runs. start \<le> i \<and> i < stop)"

lemma in_runs_simps [simp]:
  "\<not> in_runs i []" "in_runs i (r # runs) \<longleftrightarrow> fst r \<le> i \<and> i < snd r \<or> in_runs i runs"
  "in_runs i (runs @ runs') \<longleftrightarrow> in_runs i runs \<or> in_runs i runs'"
  by (auto simp: in_runs_def)

lemma runs_ok_append: "runs_ok lo (runs @ [(start, stop)]) hi \<longleftrightarrow> runs_ok lo runs start \<and> start < stop \<and> stop \<le> hi"
  by (induction runs arbitrary: lo) auto

lemma runs_ok_mono: "runs_ok lo runs hi \<Longrightarrow> hi \<le> hi' \<Longrightarrow> runs_ok lo runs hi'"
  by (induction runs arbitrary: lo) auto

lemma runs_ok_le: "runs_ok lo runs hi \<Longrightarrow> lo \<le> hi"
proof (induction runs arbitrary: lo)
  case (Cons r runs)
  then show ?case by (cases r) fastforce
qed simp

lemma merge_run_ok:
  assumes "runs_ok 0 runs at" and "at \<le> first" and "first < stop"
  shows "runs_ok 0 (merge_run first stop runs) stop" and "\<And>i. in_runs i runs \<Longrightarrow> in_runs i (merge_run first stop runs)"
    and "\<And>i. first \<le> i \<Longrightarrow> i < stop \<Longrightarrow> in_runs i (merge_run first stop runs)"
proof -
  have "runs_ok 0 (merge_run first stop runs) stop \<and> (\<forall>i. in_runs i runs \<or> (first \<le> i \<and> i < stop) \<longrightarrow> in_runs i (merge_run first stop runs))"
  proof (cases "runs \<noteq> [] \<and> first - snd (last runs) \<le> RUN_MERGE_GAP")
    case True
    obtain s e where l: "last runs = (s, e)" by fastforce
    with True have r: "runs = butlast runs @ [(s, e)]" by (metis append_butlast_last_id)
    from assms(1) have "runs_ok 0 (butlast runs) s" "s < e" "e \<le> at" by (subst (asm) r, simp add: runs_ok_append)+
    moreover have "in_runs i runs \<longleftrightarrow> in_runs i (butlast runs) \<or> s \<le> i \<and> i < e" for i by (subst r) simp
    ultimately show ?thesis using True l assms(2,3) by (auto simp: merge_run_def runs_ok_append)
  next
    case False
    then show ?thesis using assms by (auto simp: merge_run_def runs_ok_append runs_ok_mono)
  qed
  then show "runs_ok 0 (merge_run first stop runs) stop" "\<And>i. in_runs i runs \<Longrightarrow> in_runs i (merge_run first stop runs)"
    "\<And>i. first \<le> i \<Longrightarrow> i < stop \<Longrightarrow> in_runs i (merge_run first stop runs)" by blast+
qed

lemma find_runs_cover:
  assumes "length new = length old" and "runs_ok 0 runs at" and "at \<le> length new"
    and "\<forall>i < at. \<not> in_runs i runs \<longrightarrow> new ! i = old ! i"
  shows "runs_ok 0 (find_runs new old at runs) (length new)
    \<and> (\<forall>i < length new. \<not> in_runs i (find_runs new old at runs) \<longrightarrow> new ! i = old ! i)"
  using assms
proof (induction new old at runs rule: find_runs.induct)
  case (1 new old at runs)
  show ?case
  proof (cases "first_difference new old at")
    case None
    then have f: "find_runs new old at runs = runs" by (subst find_runs.simps) simp
    have "new ! i = old ! i" if "i < length new" "\<not> in_runs i runs" for i
      using that "1.prems"(4) first_difference_NoneD [OF "1.prems"(1) None, of i] by (cases "i < at") auto
    with f "1.prems" show ?thesis by (auto intro: runs_ok_mono)
  next
    case (Some first)
    define e where "e = scan_run new old first first + 1"
    note d = first_difference_SomeD [OF "1.prems"(1) Some]
    from scan_run_bounds [of first first new old] d(2) have e: "first < e" "e \<le> length new" by (auto simp: e_def)
    note m = merge_run_ok [OF "1.prems"(2) d(1) e(1)]
    have f: "find_runs new old at runs = find_runs new old e (merge_run first e runs)"
      using Some "1.prems"(1) by (subst find_runs.simps) (simp add: e_def Let_def)
    have "new ! i = old ! i" if "i < e" "\<not> in_runs i (merge_run first e runs)" for i
    proof -
      from that m(3) have "i < first" by (meson linorder_not_less)
      moreover from that m(2) have "\<not> in_runs i runs" by blast
      ultimately show ?thesis using "1.prems"(4) d(4) by (cases "i < at") auto
    qed
    with "1.IH" [of first] Some "1.prems"(1) m(1) e(2) show ?thesis unfolding f by (simp add: e_def Let_def)
  qed
qed

lemma apply_emit:
  assumes "runs_ok at runs (length new)" and "length seg = length new" and "length new < 2 ^ 35"
    and "\<forall>i < length new. \<not> in_runs i runs \<longrightarrow> seg ! i = new ! i"
  shows "apply_runs (length runs) at seg (emit_runs new at runs @ rest) = Some (new, rest)"
  using assms
proof (induction runs arbitrary: at seg)
  case Nil
  then show ?case by (auto intro: nth_equalityI)
next
  case (Cons r runs)
  obtain s e where r: "r = (s, e)" by (cases r)
  with Cons.prems(1) runs_ok_le have b: "at \<le> s" "s < e" "e \<le> length new" "runs_ok e runs (length new)" by auto
  let ?seg = "take s seg @ take (e - s) (drop s new) @ drop e seg"
  have "?seg ! i = new ! i" if "i < length new" "\<not> in_runs i runs" for i
    using that b Cons.prems(2,4) r by (cases "i < s"; cases "i < e") (auto simp: nth_append)
  moreover have "length ?seg = length new" using b Cons.prems(2) by simp
  ultimately have "apply_runs (length runs) e ?seg (emit_runs new e runs @ rest) = Some (new, rest)"
    using Cons.IH [OF b(4)] Cons.prems(3) by blast
  with b Cons.prems(2,3) r show ?case
    by (simp add: varint_reads take_bytes_def Let_def)
qed

text \<open>A patch turns the old segment into the new one.\<close>

lemma patch_applies:
  assumes "length new = length old" and "length new < 2 ^ 35"
  shows "Option.bind (get_varint (put_patch new old @ rest)) (\<lambda>(runs, i). apply_runs runs 0 old i) = Some (new, rest)"
proof -
  let ?runs = "find_runs new old 0 []"
  from find_runs_cover [OF assms(1), of "[]" 0] have c: "runs_ok 0 ?runs (length new)"
    "\<forall>i < length new. \<not> in_runs i ?runs \<longrightarrow> old ! i = new ! i" by auto
  have "length runs \<le> hi - lo" if "runs_ok lo runs hi" for lo hi runs
    using that
  proof (induction runs arbitrary: lo)
    case (Cons r runs)
    then show ?case using runs_ok_le [of "snd r" runs hi] by (cases r) fastforce
  qed simp
  from this [OF c(1)] assms(2) have "length ?runs < 2 ^ 35" by simp
  with apply_emit [OF c(1) _ assms(2) c(2)] assms(1) show ?thesis
    by (simp add: put_patch_def Let_def varint_reads)
qed

section \<open>Frames\<close>

abbreviation (input) META_SEGMENTS :: nat where "META_SEGMENTS \<equiv> 12"
abbreviation (input) META_BODY_SEGMENTS :: nat where "META_BODY_SEGMENTS \<equiv> 11"
abbreviation (input) FRAME_SEGMENTS :: nat where "FRAME_SEGMENTS \<equiv> 14"

record WireMeta =
  wm_bytes :: bytes
  wm_ends :: "nat list"

definition meta_segment :: "WireMeta \<Rightarrow> nat \<Rightarrow> bytes" where
  "meta_segment m index = (let start = (if index = 0 then 0 else wm_ends m ! (index - 1)) in
     take (wm_ends m ! index - start) (drop start (wm_bytes m)))"

record FrameParts =
  fp_head :: bytes
  fp_meta :: nat
  fp_world_objects :: bytes
  fp_tail :: bytes

definition frame_segments :: "(nat \<Rightarrow> WireMeta) \<Rightarrow> FrameParts \<Rightarrow> bytes list" where
  "frame_segments store f = [fp_head f] @ map (meta_segment (store (fp_meta f))) [0..<META_BODY_SEGMENTS]
     @ [fp_world_objects f, fp_tail f]"

definition to_raw :: "(nat \<Rightarrow> WireMeta) \<Rightarrow> FrameParts \<Rightarrow> bytes" where
  "to_raw store f = concat (frame_segments store f)"

record zstd =
  z_compress :: "bytes \<Rightarrow> bytes \<Rightarrow> bytes option"
  z_decompress :: "bytes \<Rightarrow> nat \<Rightarrow> bytes \<Rightarrow> bytes option"

text \<open>
  Decompressing with the same prefix into a buffer of the right size gives the payload back, for
  payloads and prefixes within the decoder's window (\<open>MAX_ZSTD_WINDOW_LOG\<close>, the size of a frame).
\<close>

definition zstd_ok :: "zstd \<Rightarrow> bool" where
  "zstd_ok z \<longleftrightarrow> (\<forall>payload baseline packed. length payload \<le> MAX_RECONSTRUCTED_FRAME_BYTES \<longrightarrow>
     length baseline \<le> MAX_RECONSTRUCTED_FRAME_BYTES \<longrightarrow> z_compress z payload baseline = Some packed \<longrightarrow>
     z_decompress z baseline (length payload) packed = Some payload)"

definition put_raw :: "bytes \<Rightarrow> bytes" where
  "put_raw new = RAW # put_varint (length new) @ new"

definition put_segment :: "zstd \<Rightarrow> bytes \<Rightarrow> bytes \<Rightarrow> bytes" where
  "put_segment z new old =
     (if new = old then [SAME]
      else let patch = PATCH # put_patch new old in
      if length new = length old \<and> (length patch \<le> length new div 4 \<or> length new < PREFIX_MIN_BYTES) then patch
      else if PREFIX_MIN_BYTES \<le> length new \<and> old \<noteq> [] then
        (case z_compress z new old of
          Some packed \<Rightarrow> PREFIXED # put_varint (length new) @ put_varint (length packed) @ packed
        | None \<Rightarrow> put_raw new)
      else put_raw new)"

type_synonym patch_cache = "(nat \<times> nat \<times> bytes) list"

definition cached_patch :: "nat \<Rightarrow> nat \<Rightarrow> patch_cache \<Rightarrow> bytes option" where
  "cached_patch n m cache = map_option (\<lambda>(_, _, patch). patch) (find (\<lambda>(a, b, _). a = n \<and> b = m) cache)"

definition put_segments :: "zstd \<Rightarrow> bytes list \<Rightarrow> bytes list \<Rightarrow> nat list \<Rightarrow> bytes" where
  "put_segments z news olds is = concat (map (\<lambda>i. put_segment z (news ! i) (olds ! i)) is)"

definition encode_delta :: "zstd \<Rightarrow> (nat \<Rightarrow> WireMeta) \<Rightarrow> FrameParts \<Rightarrow> FrameParts \<Rightarrow> patch_cache \<Rightarrow> bytes \<times> patch_cache" where
  "encode_delta z store new old cache =
     (let news = frame_segments store new; olds = frame_segments store old;
          head = put_segment z (news ! 0) (olds ! 0);
          (body, cache') = (case cached_patch (fp_meta new) (fp_meta old) cache of
             Some patch \<Rightarrow> (patch, cache)
           | None \<Rightarrow> let patch = put_segments z news olds [1..<META_SEGMENTS] in (patch, cache @ [(fp_meta new, fp_meta old, patch)]))
      in (head @ body @ put_segments z news olds [META_SEGMENTS..<FRAME_SEGMENTS], cache'))"

definition reserve_output :: "bytes \<Rightarrow> nat \<Rightarrow> unit option" where
  "reserve_output out additional = (if MAX_RECONSTRUCTED_FRAME_BYTES < length out + additional then None else Some ())"

fun slices_at :: "bytes \<Rightarrow> nat \<Rightarrow> nat list \<Rightarrow> bytes list option" where
  "slices_at bs at [] = (if at = length bs then Some [] else None)"
| "slices_at bs at (len # lens) = (if length bs < at + len then None
     else map_option ((#) (take len (drop at bs))) (slices_at bs (at + len) lens))"

definition segment_slices :: "bytes \<Rightarrow> nat list \<Rightarrow> bytes list option" where
  "segment_slices bs lens = slices_at bs 0 lens"

definition decode_segment :: "zstd \<Rightarrow> bytes \<Rightarrow> bytes \<Rightarrow> bytes \<Rightarrow> (bytes \<times> bytes) option" where
  "decode_segment z old input out = (case input of [] \<Rightarrow> None | tag # rest \<Rightarrow>
     if tag = SAME then Option.bind (reserve_output out (length old)) (\<lambda>_. Some (rest, out @ old))
     else if tag = PATCH then Option.bind (reserve_output out (length old)) (\<lambda>_.
       Option.bind (get_varint rest) (\<lambda>(runs, i). Option.bind (apply_runs runs 0 old i) (\<lambda>(seg, i'). Some (i', out @ seg))))
     else if tag = RAW then Option.bind (get_varint rest) (\<lambda>(len, i1). Option.bind (reserve_output out len) (\<lambda>_.
       Option.bind (take_bytes i1 len) (\<lambda>(bs, i2). Some (i2, out @ bs))))
     else if tag = PREFIXED then Option.bind (get_varint rest) (\<lambda>(len, i1). Option.bind (get_varint i1) (\<lambda>(packed_len, i2).
       Option.bind (take_bytes i2 packed_len) (\<lambda>(packed, i3). Option.bind (reserve_output out len) (\<lambda>_.
         Option.bind (z_decompress z old len packed) (\<lambda>got. if length got \<noteq> len then None else Some (i3, out @ got))))))
     else None)"

fun decode_segments :: "zstd \<Rightarrow> bytes list \<Rightarrow> bytes \<Rightarrow> bytes \<Rightarrow> bytes option" where
  "decode_segments z [] input out = (if input = [] then Some out else None)"
| "decode_segments z (old # olds) input out =
     Option.bind (decode_segment z old input out) (\<lambda>(input', out'). decode_segments z olds input' out')"

definition decode_delta :: "zstd \<Rightarrow> bytes \<Rightarrow> bytes \<Rightarrow> nat list \<Rightarrow> bytes option" where
  "decode_delta z delta base lens =
     (if MAX_DELTA_INSTRUCTION_BYTES < length delta \<or> MAX_RECONSTRUCTED_FRAME_BYTES < length base then None
      else Option.bind (segment_slices base lens) (\<lambda>olds. decode_segments z olds delta []))"

section \<open>What a frame's difference says\<close>

lemma length_frame_segments [simp]: "length (frame_segments store f) = FRAME_SEGMENTS"
  by (simp add: frame_segments_def)

text \<open>A cache holds patches of the metadata at its addresses.\<close>

definition meta_patch :: "zstd \<Rightarrow> WireMeta \<Rightarrow> WireMeta \<Rightarrow> bytes" where
  "meta_patch z m n = concat (map (\<lambda>i. put_segment z (meta_segment m i) (meta_segment n i)) [0..<META_BODY_SEGMENTS])"

definition cache_ok :: "zstd \<Rightarrow> (nat \<Rightarrow> WireMeta) \<Rightarrow> patch_cache \<Rightarrow> bool" where
  "cache_ok z store cache \<longleftrightarrow> (\<forall>(n, m, patch) \<in> set cache. patch = meta_patch z (store n) (store m))"

lemma body_patch:
  "put_segments z (frame_segments store new) (frame_segments store old) [1..<META_SEGMENTS]
     = meta_patch z (store (fp_meta new)) (store (fp_meta old))"
  by (simp add: put_segments_def meta_patch_def frame_segments_def upt_rec nth_append)

lemmas body_patch_Suc = body_patch [unfolded One_nat_def]

lemma cached_patch_ok:
  "cache_ok z store cache \<Longrightarrow> cached_patch n m cache = Some patch \<Longrightarrow> patch = meta_patch z (store n) (store m)"
  by (auto simp: cache_ok_def cached_patch_def find_Some_iff) (metis (mono_tags, lifting) case_prodD nth_mem)

lemma encode_delta_parts:
  assumes "cache_ok z store cache" and "encode_delta z store new old cache = (delta, cache')"
  shows "cache_ok z store cache'
    \<and> delta = put_segments z (frame_segments store new) (frame_segments store old) [0..<FRAME_SEGMENTS]"
proof -
  have "[0..<FRAME_SEGMENTS] = [0] @ [1..<META_SEGMENTS] @ [META_SEGMENTS..<FRAME_SEGMENTS]" by (simp add: upt_rec)
  then have p: "put_segments z news olds [0..<FRAME_SEGMENTS] = put_segment z (news ! 0) (olds ! 0)
      @ put_segments z news olds [1..<META_SEGMENTS] @ put_segments z news olds [META_SEGMENTS..<FRAME_SEGMENTS]" for news olds
    by (simp only: put_segments_def map_append concat_append) simp
  show ?thesis
  proof (cases "cached_patch (fp_meta new) (fp_meta old) cache")
    case None
    let ?entry = "(fp_meta new, fp_meta old, meta_patch z (store (fp_meta new)) (store (fp_meta old)))"
    from None assms(2) have "cache' = cache @ [?entry]"
      "delta = put_segments z (frame_segments store new) (frame_segments store old) [0..<FRAME_SEGMENTS]"
      unfolding p by (simp_all add: encode_delta_def Let_def body_patch_Suc)
    with assms(1) show ?thesis by (simp add: cache_ok_def)
  next
    case (Some patch)
    with assms cached_patch_ok [OF assms(1) Some] show ?thesis
      unfolding p by (simp add: encode_delta_def Let_def body_patch_Suc)
  qed
qed

lemma decode_put_segment:
  assumes z: "zstd_ok z" and len: "length (put_segment z new old) < 2 ^ 35" "length new < 2 ^ 35"
    and room: "length out + length new \<le> MAX_RECONSTRUCTED_FRAME_BYTES" "length old \<le> MAX_RECONSTRUCTED_FRAME_BYTES"
  shows "decode_segment z old (put_segment z new old @ rest) out = Some (rest, out @ new)"
proof (cases "new = old")
  case True
  with room show ?thesis by (simp add: put_segment_def decode_segment_def reserve_output_def)
next
  case ne: False
  have raw: "decode_segment z old (put_raw new @ rest) out = Some (rest, out @ new)"
    using len(2) room by (simp add: put_raw_def decode_segment_def varint_reads reserve_output_def take_bytes_def)
  show ?thesis
  proof (cases "length new = length old \<and> (length (PATCH # put_patch new old) \<le> length new div 4 \<or> length new < PREFIX_MIN_BYTES)")
    case True
    have "put_segment z new old = PATCH # put_patch new old"
      unfolding put_segment_def Let_def if_not_P [OF ne] if_P [OF True] by (rule refl)
    with patch_applies [of new old rest] True len(2) room show ?thesis
      by (auto simp: decode_segment_def reserve_output_def split: Option.bind_splits)
  next
    case False
    show ?thesis
    proof (cases "PREFIX_MIN_BYTES \<le> length new \<and> old \<noteq> [] \<and> z_compress z new old \<noteq> None")
      case True
      then obtain packed where packed: "z_compress z new old = Some packed" by blast
      with ne False True have p: "put_segment z new old = PREFIXED # put_varint (length new) @ put_varint (length packed) @ packed"
        by (auto simp: put_segment_def Let_def)
      with len(1) have "length packed < 2 ^ 35" by simp
      with p packed z room len(2) show ?thesis
        by (simp add: decode_segment_def varint_reads reserve_output_def take_bytes_def zstd_ok_def)
    next
      case plain: False
      with ne False have "put_segment z new old = put_raw new"
        by (auto simp: put_segment_def Let_def split: option.splits)
      with raw show ?thesis by simp
    qed
  qed
qed

lemma decode_put_segments:
  assumes "zstd_ok z" and "length news = length olds"
    and "length (concat (map2 (put_segment z) news olds)) < 2 ^ 35"
    and "length out + length (concat news) \<le> MAX_RECONSTRUCTED_FRAME_BYTES"
    and "length (concat olds) \<le> MAX_RECONSTRUCTED_FRAME_BYTES"
  shows "decode_segments z olds (concat (map2 (put_segment z) news olds)) out = Some (out @ concat news)"
  using assms(2-)
proof (induction news olds arbitrary: out rule: list_induct2)
  case (Cons new news old olds)
  have "decode_segment z old (put_segment z new old @ concat (map2 (put_segment z) news olds)) out
      = Some (concat (map2 (put_segment z) news olds), out @ new)"
    using Cons.prems by (intro decode_put_segment [OF assms(1)]) auto
  with Cons.IH [of "out @ new"] Cons.prems show ?case by simp
qed simp

lemma slices_at_concat:
  "slices_at (pre @ concat segs) (length pre) (map length segs) = Some segs"
proof (induction segs arbitrary: pre)
  case (Cons s segs)
  from Cons.IH [of "pre @ s"] show ?case by simp
qed simp

lemma put_segments_map2:
  assumes "length news = n" and "length olds = n"
  shows "put_segments z news olds [0..<n] = concat (map2 (put_segment z) news olds)"
proof -
  have "map2 (put_segment z) news olds = map (\<lambda>i. put_segment z (news ! i) (olds ! i)) [0..<n]"
    using assms by (auto intro: nth_equalityI)
  then show ?thesis by (simp add: put_segments_def)
qed

lemma segment_slices_concat: "segment_slices (concat segs) (map length segs) = Some segs"
  using slices_at_concat [of "[]" segs] by (simp add: segment_slices_def)

text \<open>The caches the encoder can hold: it starts empty and grows with every frame pair encoded.\<close>

definition cache_after :: "zstd \<Rightarrow> (nat \<Rightarrow> WireMeta) \<Rightarrow> (FrameParts \<times> FrameParts) list \<Rightarrow> patch_cache" where
  "cache_after z store pairs = foldl (\<lambda>cache (new, old). snd (encode_delta z store new old cache)) [] pairs"

lemma cache_after_ok: "cache_ok z store (cache_after z store pairs)"
proof (induction pairs rule: rev_induct)
  case (snoc p pairs)
  then show ?case using encode_delta_parts [OF snoc.IH, of "fst p" "snd p"]
    by (cases p, cases "encode_delta z store (fst p) (snd p) (cache_after z store pairs)") (simp add: cache_after_def)
qed (simp add: cache_after_def cache_ok_def)

lemma cached_delta: "fst (encode_delta z store new old (cache_after z store pairs))
    = concat (map2 (put_segment z) (frame_segments store new) (frame_segments store old))"
  using encode_delta_parts [OF cache_after_ok, of z store new old pairs]
  by (cases "encode_delta z store new old (cache_after z store pairs)") (simp add: put_segments_map2)

lemma apply_runs_length: "apply_runs n at seg input = Some (seg', input') \<Longrightarrow> length seg' = length seg"
  by (induction n arbitrary: at seg input) (auto simp: Let_def take_bytes_def split: if_splits Option.bind_splits)

lemma decode_segment_bounded:
  assumes "decode_segment z old input out = Some (input', out')" and "length out \<le> MAX_RECONSTRUCTED_FRAME_BYTES"
  shows "length out' \<le> MAX_RECONSTRUCTED_FRAME_BYTES"
  using assms
  by (auto simp: decode_segment_def reserve_output_def take_bytes_def dest!: apply_runs_length
      split: list.splits if_splits Option.bind_splits)

lemma decode_segments_bounded:
  assumes "decode_segments z olds input out = Some res" and "length out \<le> MAX_RECONSTRUCTED_FRAME_BYTES"
  shows "length res \<le> MAX_RECONSTRUCTED_FRAME_BYTES"
  using assms
proof (induction olds arbitrary: input out)
  case (Cons old olds)
  then show ?case using decode_segment_bounded by (fastforce split: Option.bind_splits)
qed (auto split: if_splits)

section \<open>The metadata's layout\<close>

fun running_ends :: "nat \<Rightarrow> nat list \<Rightarrow> nat list" where
  "running_ends at [] = []"
| "running_ends at (len # lens) = (at + len) # running_ends (at + len) lens"

definition without_reliable_events :: "bytes list \<Rightarrow> WireMeta" where
  "without_reliable_events sections = \<lparr>wm_bytes = concat sections, wm_ends = running_ends 0 (map length sections)\<rparr>"

lemma running_ends_nth:
  "i < length lens \<Longrightarrow> running_ends at lens ! i = at + sum_list (take (Suc i) lens)"
  by (induction lens arbitrary: at i) (auto simp: nth_Cons split: nat.splits)

lemma meta_segment_sections:
  assumes "i < length sections"
  shows "meta_segment (without_reliable_events sections) i = sections ! i"
proof -
  let ?lens = "map length sections"
  have s: "sum_list (take k ?lens) = length (concat (take k sections))" for k
    by (simp add: length_concat flip: take_map)
  have start: "(if i = 0 then 0 else running_ends 0 ?lens ! (i - 1)) = length (concat (take i sections))"
    using assms s [of i] by (cases i) (simp_all add: running_ends_nth)
  have stop: "running_ends 0 ?lens ! i = length (concat (take i sections)) + length (sections ! i)"
    using assms by (simp add: running_ends_nth s take_Suc_conv_app_nth)
  have "concat sections = concat (take i sections) @ sections ! i @ concat (drop (Suc i) sections)"
    using assms by (metis concat.simps(2) concat_append id_take_nth_drop)
  then show ?thesis
    by (simp only: meta_segment_def without_reliable_events_def Let_def WireMeta.simps start stop) simp
qed

section \<open>The properties\<close>

lemma delta_decodes:
  assumes "zstd_ok z" and "encode_delta z store new old (cache_after z store pairs) = (delta, cache)"
    and "length delta \<le> MAX_DELTA_INSTRUCTION_BYTES" and "length (to_raw store old) \<le> MAX_RECONSTRUCTED_FRAME_BYTES"
    and "length (to_raw store new) \<le> MAX_RECONSTRUCTED_FRAME_BYTES"
  shows "decode_delta z delta (to_raw store old) (map length (frame_segments store old)) = Some (to_raw store new)"
proof -
  have d: "delta = concat (map2 (put_segment z) (frame_segments store new) (frame_segments store old))"
    using cached_delta [of z store new old pairs] assms(2) by simp
  have "decode_segments z (frame_segments store old) delta [] = Some (to_raw store new)"
    using decode_put_segments [OF assms(1), of "frame_segments store new" "frame_segments store old" "[]"] assms(3-)
    by (simp add: d [symmetric] to_raw_def)
  then show ?thesis using assms(3,4) by (simp add: decode_delta_def segment_slices_concat to_raw_def)
qed

text \<open>
  C13. A frame sent as a difference arrives: whatever frame pairs were encoded before with the same
  cache, the receiver that holds the old frame and its segment lengths rebuilds exactly the new
  frame, segment by segment, as long as both frames and the difference are within their budgets.
\<close>

theorem delta_roundtrip:
  assumes "zstd_ok z" and "encode_delta z store new old (cache_after z store pairs) = (delta, cache)"
    and "length delta \<le> MAX_DELTA_INSTRUCTION_BYTES" and "length (to_raw store old) \<le> MAX_RECONSTRUCTED_FRAME_BYTES"
    and "length (to_raw store new) \<le> MAX_RECONSTRUCTED_FRAME_BYTES"
  shows "decode_delta z delta (to_raw store old) (map length (frame_segments store old)) = Some (to_raw store new)"
  using assms by (rule delta_decodes)

definition stored_zstd :: zstd where
  "stored_zstd = \<lparr>z_compress = (\<lambda>payload baseline. Some payload), z_decompress = (\<lambda>baseline len packed. Some packed)\<rparr>"

definition sample_meta :: "nat \<Rightarrow> WireMeta" where
  "sample_meta n = without_reliable_events (replicate 10 [] @ [[of_nat n]])"

definition sample_parts :: "nat \<Rightarrow> u8 \<Rightarrow> FrameParts" where
  "sample_parts m b = \<lparr>fp_head = [1, b, 3], fp_meta = m, fp_world_objects = replicate (unat b) 7, fp_tail = []\<rparr>"

lemma sample_segments:
  "frame_segments sample_meta (sample_parts m b) = [[1, b, 3], [], [], [], [], [], [], [], [], [], [], [of_nat m], replicate (unat b) 7, []]"
proof -
  have "map (meta_segment (sample_meta m)) [0..<META_BODY_SEGMENTS] = replicate 10 [] @ [[of_nat m]]"
    unfolding sample_meta_def by (rule nth_equalityI) (simp_all add: meta_segment_sections)
  also have "replicate 10 [] @ [[of_nat m]] = [[], [], [], [], [], [], [], [], [], [], [of_nat m :: u8]]"
    by (simp add: numeral_eq_Suc)
  finally show ?thesis by (simp add: frame_segments_def sample_parts_def)
qed

lemma sample_patches: "put_patch [1, 2, 3] [1, 0, 3] = [1, 1, 1, 2]" "put_patch [9] [4] = [1, 0, 1, 9]"
  by (simp_all add: put_patch_def Let_def find_runs.simps first_difference_find scan_run.simps merge_run_def upt_rec put_varint.simps)

lemma sample_world: "replicate (unat (2 :: u8)) (7 :: u8) = [7, 7]" "replicate (unat (0 :: u8)) (7 :: u8) = []"
proof -
  have "unat (2 :: u8) = Suc (Suc 0)" by simp
  then show "replicate (unat (2 :: u8)) (7 :: u8) = [7, 7]" by (simp only: replicate.simps)
qed simp

lemma sample_delta:
  "fst (encode_delta stored_zstd sample_meta (sample_parts 9 2) (sample_parts 4 0) (cache_after stored_zstd sample_meta pairs))
    = [1, 1, 1, 1, 2, 0, 0, 0, 0, 0, 0, 0, 0, 0, 0, 1, 1, 0, 1, 9, 2, 2, 7, 7, 0]"
  unfolding cached_delta sample_segments sample_world
  by (simp add: put_segment_def put_raw_def put_varint.simps sample_patches)

theorem delta_roundtrip_witness:
  "decode_delta stored_zstd [1, 1, 1, 1, 2, 0, 0, 0, 0, 0, 0, 0, 0, 0, 0, 1, 1, 0, 1, 9, 2, 2, 7, 7, 0] (to_raw sample_meta (sample_parts 4 0))
     (map length (frame_segments sample_meta (sample_parts 4 0))) = Some [1, 2, 3, 9, 7, 7]"
proof -
  have z: "zstd_ok stored_zstd" by (simp add: zstd_ok_def stored_zstd_def)
  let ?pairs = "[(sample_parts 9 1, sample_parts 4 3)]"
  obtain delta cache where e: "encode_delta stored_zstd sample_meta (sample_parts 9 2) (sample_parts 4 0)
      (cache_after stored_zstd sample_meta ?pairs) = (delta, cache)" by fastforce
  with sample_delta [of ?pairs] have d: "delta = [1, 1, 1, 1, 2, 0, 0, 0, 0, 0, 0, 0, 0, 0, 0, 1, 1, 0, 1, 9, 2, 2, 7, 7, 0]" by simp
  from delta_roundtrip [OF z e [unfolded d]] show ?thesis
    unfolding to_raw_def sample_segments sample_world by simp
qed

text \<open>
  Sharing the patches of the metadata between clients changes nothing of what is sent: with the
  cache left by any frames encoded before, the difference of two frames is the one that an empty
  cache gives, which treats the fourteen segments one after the other.
\<close>

lemma cached_delta_same:
  "fst (encode_delta z store new old (cache_after z store pairs)) = fst (encode_delta z store new old [])
   \<and> fst (encode_delta z store new old []) = concat (map2 (put_segment z) (frame_segments store new) (frame_segments store old))"
  using cached_delta [of z store new old pairs] cached_delta [of z store new old "[]"] by (simp add: cache_after_def)

text \<open>
  Whatever bytes arrive as a difference, against whatever old frame and segment lengths, and
  whatever the decompressor returns, a rebuilt frame is within the frame budget.
\<close>

lemma decode_delta_bounded:
  assumes "decode_delta z delta base lens = Some frame"
  shows "length frame \<le> MAX_RECONSTRUCTED_FRAME_BYTES \<and> length delta \<le> MAX_DELTA_INSTRUCTION_BYTES
    \<and> length base = sum_list lens"
proof -
  have s: "at + sum_list lens = length bs" if "slices_at bs at lens = Some segs" "at \<le> length bs" for bs segs at
    using that by (induction lens arbitrary: at segs) (fastforce split: if_splits)+
  from assms obtain olds where o: "segment_slices base lens = Some olds" "decode_segments z olds delta [] = Some frame"
    "length delta \<le> MAX_DELTA_INSTRUCTION_BYTES" by (auto simp: decode_delta_def split: if_splits Option.bind_splits)
  with s [of base 0] decode_segments_bounded [OF o(2)] show ?thesis by (simp add: segment_slices_def)
qed

end
