(* ===== verification/Sorted_Table.thy ===== *)
theory Sorted_Table
  imports Rust_Std
begin

text \<open>
  Tables sorted by key: the association lists that the simulation keeps sorted, and \<open>BTreeMap\<close>, which
  lists its entries in the order of their keys. What clients of such a table rely on is the locale
  \<open>sorted_table\<close>.
\<close>

section \<open>Sorted tables\<close>

definition table_ok :: "('k::linorder \<times> 'v) list \<Rightarrow> bool" where
  "table_ok table \<longleftrightarrow> sorted_wrt (<) (map fst table)"

lemma table_ok_iff: "table_ok table \<longleftrightarrow> sorted (map fst table) \<and> distinct (map fst table)"
  unfolding table_ok_def strict_sorted_iff by blast

lemma map_of_sort_key: "distinct (map fst table) \<Longrightarrow> map_of (sort_key fst table) = map_of table"
  by (simp add: map_of_inject_set distinct_map)

lemma table_ok_sort: "distinct (map fst table) \<Longrightarrow> table_ok (sort_key fst table)"
  by (simp add: table_ok_iff distinct_map)

text \<open>A sorted table is determined by the values it gives.\<close>

lemma table_eqI:
  assumes "table_ok s" and "table_ok t" and "map_of s = map_of t"
  shows "s = t"
proof -
  have d: "distinct (map fst s)" "distinct (map fst t)" using assms(1,2) by (simp_all add: table_ok_iff)
  have val: "map (\<lambda>k. (k, the (map_of u k))) (map fst u) = u" if "distinct (map fst u)" for u :: "('a \<times> 'b) list"
    using that by (auto intro!: map_idI)
  have "set s = set t" using map_of_inject_set [OF d] assms(3) by simp
  with assms(1,2) have "map fst s = map fst t"
    by (intro sorted_distinct_set_unique) (auto simp: table_ok_iff)
  then show ?thesis using val [OF d(1)] val [OF d(2)] assms(3) by metis
qed

lemma table_sorted: "table_ok rows \<Longrightarrow> sort_key fst rows = rows"
  by (rule table_eqI) (auto simp: table_ok_iff distinct_map map_of_sort_key)

text \<open>What the operations on the tables promise.\<close>

locale sorted_table =
  fixes look :: "'t \<Rightarrow> 'k \<Rightarrow> 'v option"
    and ups :: "'t \<Rightarrow> 'k \<Rightarrow> 'v \<Rightarrow> 't"
    and rem :: "'t \<Rightarrow> 'k \<Rightarrow> 't"
    and ok :: "'t \<Rightarrow> bool"
  assumes look_ups: "ok t \<Longrightarrow> look (ups t k v) = (look t)(k \<mapsto> v)"
    and look_rem: "ok t \<Longrightarrow> look (rem t k) = (look t)(k := None)"
    and ok_ups: "ok t \<Longrightarrow> ok (ups t k v)"
    and ok_rem: "ok t \<Longrightarrow> ok (rem t k)"
    and ok_eqI: "ok s \<Longrightarrow> ok t \<Longrightarrow> look s = look t \<Longrightarrow> s = t"
begin

lemma fold_ups:
  assumes "ok t"
  shows "ok (fold (\<lambda>(k, v) t. ups t k v) kvs t)" and "look (fold (\<lambda>(k, v) t. ups t k v) kvs t) = look t ++ map_of (rev kvs)"
proof -
  have "ok (fold (\<lambda>(k, v) t. ups t k v) kvs t) \<and> look (fold (\<lambda>(k, v) t. ups t k v) kvs t) = look t ++ map_of (rev kvs)"
    using assms
  proof (induction kvs arbitrary: t)
    case (Cons kv kvs)
    obtain k v where kv: "kv = (k, v)" by (cases kv)
    have "look (ups t k v) ++ map_of (rev kvs) = look t ++ map_of (rev (kv # kvs))"
      using look_ups [OF Cons.prems] by (simp add: kv map_add_upd_left [symmetric])
    then show ?case using Cons.IH [OF ok_ups [OF Cons.prems], of k v] by (simp add: kv)
  qed simp
  then show "ok (fold (\<lambda>(k, v) t. ups t k v) kvs t)" "look (fold (\<lambda>(k, v) t. ups t k v) kvs t) = look t ++ map_of (rev kvs)" by auto
qed

lemma ups_twice: "ok t \<Longrightarrow> ups (ups t k v) k w = ups t k w"
  by (rule ok_eqI) (simp_all add: ok_ups look_ups)

lemma rem_ups: "ok t \<Longrightarrow> look t k = None \<Longrightarrow> rem (ups t k v) k = t"
  by (rule ok_eqI) (auto simp: ok_ups ok_rem look_ups look_rem)

end

section \<open>Ordered maps\<close>

fun bt_insert :: "'k::linorder \<Rightarrow> 'v \<Rightarrow> ('k \<times> 'v) list \<Rightarrow> ('k \<times> 'v) list" where
  "bt_insert k v [] = [(k, v)]"
| "bt_insert k v ((a, b) # m) = (if k < a then (k, v) # (a, b) # m else if k = a then (k, v) # m else (a, b) # bt_insert k v m)"

definition bt_remove :: "'k \<Rightarrow> ('k \<times> 'v) list \<Rightarrow> ('k \<times> 'v) list" where
  "bt_remove k m = filter (\<lambda>(key, _). key \<noteq> k) m"

lemma set_bt_insert: "fst ` set (bt_insert k v m) = insert k (fst ` set m)"
  by (induction k v m rule: bt_insert.induct) auto

interpretation bt: sorted_table map_of "\<lambda>m k v. bt_insert k v m" "\<lambda>m k. bt_remove k m" table_ok
proof
  fix t :: "('a::linorder \<times> 'b) list" and k :: 'a and v :: 'b
  assume ok: "table_ok t"
  show "map_of (bt_insert k v t) = (map_of t)(k \<mapsto> v)"
    using ok by (induction k v t rule: bt_insert.induct) (auto simp: table_ok_def fun_eq_iff)
  show "table_ok (bt_insert k v t)"
    using ok
  proof (induction k v t rule: bt_insert.induct)
    case (2 k v a b m)
    then show ?case using set_bt_insert [of k v m] by (auto simp: table_ok_def; force)
  qed (simp add: table_ok_def)
  show "map_of (bt_remove k t) = (map_of t)(k := None)"
    unfolding bt_remove_def by (induction t) (auto simp: fun_eq_iff)
  show "table_ok (bt_remove k t)"
    using ok unfolding bt_remove_def table_ok_iff by (auto simp: distinct_map_filter sorted_filter)
qed (rule table_eqI)

end
