(* ===== verification/Glass.thy ===== *)
theory Glass
  imports Client_Actions Sorted_Table
begin

text \<open>
  Breakable glass: the pieces of \<^verbatim>\<open>crates/entity_iw4/src/glass.rs\<close> and the server's table of them in
  \<^verbatim>\<open>crates/sim/src/world_objects.rs\<close>. Damage is a \<open>u16\<close> that saturates below the value of a deleted
  piece; the state of a piece is read off its damage. What the source computes with floating-point
  numbers (the shatter seed of a hit, the time a weakened piece collapses, the distance of a blast)
  is an argument of the operation that uses it; the panes of the map are used for nothing else and
  are left out. \<open>i32\<close> times are words read with \<open>sint\<close>.
\<close>

unbundle bit_operations_syntax

type_synonym GlassPieceId = u32

abbreviation (input) GLASS_DAMAGE_TO_WEAKEN :: u16 where "GLASS_DAMAGE_TO_WEAKEN \<equiv> 25"
abbreviation (input) GLASS_DAMAGE_TO_DESTROY :: u16 where "GLASS_DAMAGE_TO_DESTROY \<equiv> 100"
abbreviation (input) GLASS_DAMAGE_INVALID :: u16 where "GLASS_DAMAGE_INVALID \<equiv> 0xffff"
abbreviation (input) GLASS_DAMAGE_ADD_CAP :: u16 where "GLASS_DAMAGE_ADD_CAP \<equiv> 0xfffe"
abbreviation (input) GLASS_FRACTURE_PROFILE_VERSION :: u32 where "GLASS_FRACTURE_PROFILE_VERSION \<equiv> 1"
abbreviation (input) GLASS_IMPACT_DIR_NONE :: u8 where "GLASS_IMPACT_DIR_NONE \<equiv> 0xff"

section \<open>Pieces\<close>

datatype GlassPieceState = Intact | Weakened | Shattered | Deleted

fun state_as_u8 :: "GlassPieceState \<Rightarrow> u8" where
  "state_as_u8 Intact = 0" | "state_as_u8 Weakened = 1" | "state_as_u8 Shattered = 2" | "state_as_u8 Deleted = 3"

definition state_from_u8 :: "u8 \<Rightarrow> GlassPieceState option" where
  "state_from_u8 raw = (if raw = 0 then Some Intact else if raw = 1 then Some Weakened
     else if raw = 2 then Some Shattered else if raw = 3 then Some Deleted else None)"

datatype GlassCause = Impact | Blast | Collapse | Script

fun cause_as_u8 :: "GlassCause \<Rightarrow> u8" where
  "cause_as_u8 Impact = 0" | "cause_as_u8 Blast = 1" | "cause_as_u8 Collapse = 2" | "cause_as_u8 Script = 3"

definition cause_from_u8 :: "u8 \<Rightarrow> GlassCause option" where
  "cause_from_u8 raw = (if raw = 0 then Some Impact else if raw = 1 then Some Blast
     else if raw = 2 then Some Collapse else if raw = 3 then Some Script else None)"

record GlassShatterSeed =
  gs_impact_dir :: u8
  gs_impact_pos :: "u8 \<times> u8"

definition seed_new :: "u8 \<Rightarrow> u8 \<times> u8 \<Rightarrow> GlassShatterSeed option" where
  "seed_new dir p = (if dir = GLASS_IMPACT_DIR_NONE \<or> 0x3f < fst p \<or> 0x3f < snd p then None
     else Some \<lparr>gs_impact_dir = dir, gs_impact_pos = p\<rparr>)"

record GlassBreakRecord =
  br_break_tick :: "32 word"
  br_deterministic_seed :: u64
  br_shatter_seed :: "GlassShatterSeed option"
  br_cause :: GlassCause

definition mix_seed :: "u32 \<Rightarrow> 32 word \<Rightarrow> GlassShatterSeed option \<Rightarrow> u64" where
  "mix_seed pane at_time_ms shatter_seed =
     (let seed = push_bit 32 (ucast pane) XOR ucast at_time_ms;
          seed' = (case shatter_seed of None \<Rightarrow> seed
            | Some s \<Rightarrow> ((seed XOR push_bit 16 (ucast (gs_impact_dir s)))
                XOR push_bit 8 (ucast (fst (gs_impact_pos s)))) XOR ucast (snd (gs_impact_pos s)))
      in if seed' = 0 then 0x9E3779B97F4A7C15 else seed')"

record ServerGlassPiece =
  sg_damage :: u16
  sg_collapse_time :: u16
  sg_last_state_change_time :: "32 word"
  sg_impact_dir :: u8
  sg_impact_pos :: "u8 \<times> u8"

definition piece_default :: ServerGlassPiece where
  "piece_default = \<lparr>sg_damage = 0, sg_collapse_time = 0, sg_last_state_change_time = 0, sg_impact_dir = 0, sg_impact_pos = (0, 0)\<rparr>"

definition glass_state_from_damage_thresholds :: "u16 \<Rightarrow> u16 \<Rightarrow> u16 \<Rightarrow> GlassPieceState" where
  "glass_state_from_damage_thresholds damage weaken destroy =
     (if damage = GLASS_DAMAGE_INVALID then Deleted else if destroy \<le> damage then Shattered
      else if weaken \<le> damage then Weakened else Intact)"

definition glass_state_from_damage :: "u16 \<Rightarrow> GlassPieceState" where
  "glass_state_from_damage damage = glass_state_from_damage_thresholds damage GLASS_DAMAGE_TO_WEAKEN GLASS_DAMAGE_TO_DESTROY"

definition piece_state :: "ServerGlassPiece \<Rightarrow> GlassPieceState" where
  "piece_state p = glass_state_from_damage (sg_damage p)"

definition piece_shatter_seed :: "ServerGlassPiece \<Rightarrow> GlassShatterSeed option" where
  "piece_shatter_seed p = (if piece_state p \<noteq> Shattered then None else seed_new (sg_impact_dir p) (sg_impact_pos p))"

text \<open>\<open>saturating_add\<close> on \<open>u32\<close>, then the cap below the value of a deleted piece.\<close>

definition glass_add_damage :: "u16 \<Rightarrow> u32 \<Rightarrow> u16" where
  "glass_add_damage current added = (let total = min (unat current + unat added) (2 ^ 32 - 1) in
     if total < unat GLASS_DAMAGE_INVALID then of_nat total else GLASS_DAMAGE_ADD_CAP)"

definition glass_is_solid_threshold :: "u16 \<Rightarrow> u16 \<Rightarrow> bool" where
  "glass_is_solid_threshold damage destroy \<longleftrightarrow> (if damage = GLASS_DAMAGE_INVALID then False else damage < destroy)"

definition glass_is_solid :: "u16 \<Rightarrow> bool" where
  "glass_is_solid damage \<longleftrightarrow> glass_is_solid_threshold damage GLASS_DAMAGE_TO_DESTROY"

record GlassStateChange =
  gc_previous :: GlassPieceState
  gc_current :: GlassPieceState

definition glass_apply_damage :: "ServerGlassPiece \<Rightarrow> u32 \<Rightarrow> 32 word \<Rightarrow> u16 option \<Rightarrow> GlassShatterSeed option
    \<Rightarrow> ServerGlassPiece \<times> GlassStateChange option" where
  "glass_apply_damage piece added at_time_ms collapse seed =
     (let previous = piece_state piece in
      if previous = Deleted \<or> added = 0 then (piece, None)
      else let p1 = piece\<lparr>sg_damage := glass_add_damage (sg_damage piece) added\<rparr>; current = piece_state p1 in
      if current = previous then (p1, None)
      else let p2 = p1\<lparr>sg_last_state_change_time := at_time_ms\<rparr>;
        p3 = (if current = Weakened then (case collapse of Some t \<Rightarrow> p2\<lparr>sg_collapse_time := t\<rparr> | None \<Rightarrow> p2)
          else if current = Shattered then (case seed of
              Some s \<Rightarrow> p2\<lparr>sg_impact_dir := gs_impact_dir s, sg_impact_pos := gs_impact_pos s\<rparr>
            | None \<Rightarrow> p2\<lparr>sg_impact_dir := GLASS_IMPACT_DIR_NONE, sg_impact_pos := (0, 0)\<rparr>)
          else p2)
      in (p3, Some \<lparr>gc_previous = previous, gc_current = current\<rparr>))"

text \<open>\<open>collapse_time * 100\<close> cannot saturate; the sum with the time of the last change can.\<close>

definition glass_collapse_due :: "ServerGlassPiece \<Rightarrow> 32 word \<Rightarrow> bool" where
  "glass_collapse_due piece level_time_ms =
     (if sg_collapse_time piece = 0 then False
      else if sg_damage piece = GLASS_DAMAGE_INVALID \<or> GLASS_DAMAGE_TO_DESTROY \<le> sg_damage piece then False
      else max (- (2 ^ 31)) (min (2 ^ 31 - 1) (uint (sg_collapse_time piece) * 100 + sint (sg_last_state_change_time piece)))
        < sint level_time_ms)"

definition glass_collapse_piece :: "ServerGlassPiece \<Rightarrow> 32 word \<Rightarrow> ServerGlassPiece \<times> GlassStateChange option" where
  "glass_collapse_piece piece at_time_ms =
     (if \<not> glass_collapse_due piece at_time_ms then (piece, None)
      else let previous = piece_state piece; p1 = piece\<lparr>sg_damage := GLASS_DAMAGE_TO_DESTROY\<rparr>; current = piece_state p1 in
      if current = previous then (p1, None)
      else (p1\<lparr>sg_last_state_change_time := at_time_ms, sg_impact_dir := GLASS_IMPACT_DIR_NONE, sg_impact_pos := (0, 0)\<rparr>,
        Some \<lparr>gc_previous = previous, gc_current = current\<rparr>))"

definition glass_should_notify_destroyed :: "GlassStateChange \<Rightarrow> bool" where
  "glass_should_notify_destroyed change \<longleftrightarrow> state_as_u8 (gc_previous change) < 2 \<and> 1 < state_as_u8 (gc_current change)"

section \<open>The server's table\<close>

definition lookup_value :: "('k \<times> 'v) list \<Rightarrow> 'k \<Rightarrow> 'v option" where
  "lookup_value table k = map_option snd (find (\<lambda>(key, _). key = k) table)"

definition sort_pairs :: "('k::linorder \<times> 'v) list \<Rightarrow> ('k \<times> 'v) list" where
  "sort_pairs table = sort_key fst table"

fun update_first :: "'k \<Rightarrow> 'v \<Rightarrow> ('k \<times> 'v) list \<Rightarrow> ('k \<times> 'v) list" where
  "update_first k v [] = []"
| "update_first k v ((key, x) # table) = (if key = k then (key, v) # table else (key, x) # update_first k v table)"

definition upsert_value :: "('k::linorder \<times> 'v) list \<Rightarrow> 'k \<Rightarrow> 'v \<Rightarrow> ('k \<times> 'v) list" where
  "upsert_value table k v = (if find (\<lambda>(key, _). key = k) table \<noteq> None then update_first k v table
     else sort_pairs (table @ [(k, v)]))"

definition remove_key :: "('k \<times> 'v) list \<Rightarrow> 'k \<Rightarrow> ('k \<times> 'v) list" where
  "remove_key table k = filter (\<lambda>(key, _). key \<noteq> k) table"

section \<open>Tables\<close>

lemma lookup_value_map_of: "lookup_value table k = map_of table k"
  by (induction table) (auto simp: lookup_value_def)

lemma find_key_None: "find (\<lambda>(key, _). key = k) table = None \<longleftrightarrow> k \<notin> fst ` set table"
  by (force simp: find_None_iff)

lemma update_first_keys [simp]: "map fst (update_first k v table) = map fst table"
  by (induction table rule: update_first.induct) auto

lemma map_of_update_first: "k \<in> fst ` set table \<Longrightarrow> map_of (update_first k v table) = (map_of table)(k \<mapsto> v)"
  by (induction k v table rule: update_first.induct) (force simp: fun_eq_iff)+

interpretation tbl: sorted_table lookup_value upsert_value remove_key table_ok
proof
  fix t :: "('a::linorder \<times> 'b) list" and k :: 'a and v :: 'b
  assume ok: "table_ok t"
  then have d: "distinct (map fst t)" "sorted (map fst t)" by (simp_all add: table_ok_iff)
  show "lookup_value (upsert_value t k v) = (lookup_value t)(k \<mapsto> v)"
  proof (cases "k \<in> fst ` set t")
    case False
    then have "map_of (sort_key fst (t @ [(k, v)])) = map_of (t @ [(k, v)])"
      using d by (intro map_of_sort_key) auto
    also have "\<dots> = (map_of t)(k \<mapsto> v)"
      using False by (simp add: map_add_upd_left dom_map_of_conv_image_fst)
    finally show ?thesis using False find_key_None [of k t]
      by (auto simp: upsert_value_def sort_pairs_def lookup_value_map_of [abs_def])
  next
    case True
    with find_key_None [of k t] show ?thesis
      by (auto simp: upsert_value_def lookup_value_map_of [abs_def] map_of_update_first)
  qed
  show "table_ok (upsert_value t k v)"
    using ok d find_key_None [of k t]
    by (auto simp: upsert_value_def sort_pairs_def table_ok_sort) (simp add: table_ok_def)
  show "lookup_value (remove_key t k) = (lookup_value t)(k := None)"
    unfolding lookup_value_map_of [abs_def] remove_key_def
    by (induction t) (auto simp: fun_eq_iff)
  show "table_ok (remove_key t k)"
    using d unfolding remove_key_def table_ok_iff by (auto simp: distinct_map_filter sorted_filter)
qed (simp add: lookup_value_map_of [abs_def] table_eqI)

section \<open>The world objects\<close>

datatype ScriptModelId = ScriptModelId (to_wire: u32)

record DestructibleLoopSound =
  ls_snd_ent :: "u32 option"
  ls_owner :: ScriptModelId
  ls_alias_index :: u8
  ls_origin :: vec3

record GlassPieceSnapshot =
  gp_state :: GlassPieceState
  gp_revision :: u32
  gp_last_state_change_time :: "32 word"
  gp_shatter_seed :: "GlassShatterSeed option"
  gp_deterministic_seed :: u64
  gp_cause :: GlassCause

record WorldObjectSnapshot =
  ws_as_of_ms :: "32 word"
  ws_map_round_epoch :: u32
  ws_fracture_profile_version :: u32
  ws_glass_pieces :: "(GlassPieceId \<times> GlassPieceSnapshot) list"
  ws_destructible_loop_sounds :: "DestructibleLoopSound list"

record GlassNativeMeta =
  nm_revision :: u32
  nm_cause :: GlassCause
  nm_deterministic_seed :: u64

definition meta_default :: GlassNativeMeta where
  "meta_default = \<lparr>nm_revision = 0, nm_cause = Impact, nm_deterministic_seed = 0\<rparr>"

record WorldObjectState =
  wo_destructible_loop_sounds :: "DestructibleLoopSound list"
  wo_glass_pieces :: "(GlassPieceId \<times> ServerGlassPiece) list"
  wo_glass_native :: "(GlassPieceId \<times> GlassNativeMeta) list"
  wo_map_round_epoch :: u32

definition world_default :: WorldObjectState where
  "world_default = \<lparr>wo_destructible_loop_sounds = [], wo_glass_pieces = [], wo_glass_native = [], wo_map_round_epoch = 0\<rparr>"

definition glass_piece :: "WorldObjectState \<Rightarrow> GlassPieceId \<Rightarrow> ServerGlassPiece" where
  "glass_piece st k = (case lookup_value (wo_glass_pieces st) k of Some piece \<Rightarrow> piece | None \<Rightarrow> piece_default)"

definition glass_native_meta :: "WorldObjectState \<Rightarrow> GlassPieceId \<Rightarrow> GlassNativeMeta" where
  "glass_native_meta st k = (case lookup_value (wo_glass_native st) k of Some m \<Rightarrow> m | None \<Rightarrow> meta_default)"

definition glass_piece_state :: "WorldObjectState \<Rightarrow> GlassPieceId \<Rightarrow> GlassPieceState" where
  "glass_piece_state st k = piece_state (glass_piece st k)"

definition bump_revision :: "GlassNativeMeta \<Rightarrow> GlassNativeMeta" where
  "bump_revision m = m\<lparr>nm_revision := (if nm_revision m = 0xffffffff then 0xffffffff else nm_revision m + 1)\<rparr>"

definition set_destructible_loop_sounds :: "WorldObjectState \<Rightarrow> DestructibleLoopSound list \<Rightarrow> WorldObjectState" where
  "set_destructible_loop_sounds st rows = st\<lparr>wo_destructible_loop_sounds := rows\<rparr>"

definition set_map_round_epoch :: "WorldObjectState \<Rightarrow> u32 \<Rightarrow> WorldObjectState" where
  "set_map_round_epoch st epoch = st\<lparr>wo_map_round_epoch := epoch\<rparr>"

definition note_change :: "WorldObjectState \<Rightarrow> GlassPieceId \<Rightarrow> GlassStateChange \<Rightarrow> 32 word \<Rightarrow> GlassShatterSeed option
    \<Rightarrow> GlassCause \<Rightarrow> WorldObjectState" where
  "note_change st k change at_time_ms seed cause =
     (let meta = bump_revision (glass_native_meta st k);
          meta' = (if gc_current change = Shattered
            then meta\<lparr>nm_cause := cause, nm_deterministic_seed := mix_seed k at_time_ms seed\<rparr>
            else if gc_current change = Weakened then meta\<lparr>nm_cause := cause\<rparr> else meta)
      in st\<lparr>wo_glass_native := upsert_value (wo_glass_native st) k meta'\<rparr>)"

definition apply_glass_damage_caused :: "WorldObjectState \<Rightarrow> GlassPieceId \<Rightarrow> u32 \<Rightarrow> 32 word \<Rightarrow> u16 option
    \<Rightarrow> GlassShatterSeed option \<Rightarrow> GlassCause \<Rightarrow> WorldObjectState \<times> GlassPieceState" where
  "apply_glass_damage_caused st k damage at_time_ms collapse seed cause =
     (if damage = 0 then (st, glass_piece_state st k)
      else if sg_damage (glass_piece st k) = GLASS_DAMAGE_INVALID then (st, Deleted)
      else let (piece, change) = glass_apply_damage (glass_piece st k) damage at_time_ms collapse seed;
        st1 = (case change of None \<Rightarrow> st | Some c \<Rightarrow> note_change st k c at_time_ms seed cause);
        st2 = (if sg_damage piece = 0
          then st1\<lparr>wo_glass_pieces := remove_key (wo_glass_pieces st1) k, wo_glass_native := remove_key (wo_glass_native st1) k\<rparr>
          else st1\<lparr>wo_glass_pieces := upsert_value (wo_glass_pieces st1) k piece\<rparr>)
      in (st2, glass_piece_state st2 k))"

definition apply_glass_damage :: "WorldObjectState \<Rightarrow> GlassPieceId \<Rightarrow> u32 \<Rightarrow> 32 word \<Rightarrow> u16 option
    \<Rightarrow> GlassShatterSeed option \<Rightarrow> WorldObjectState \<times> GlassPieceState" where
  "apply_glass_damage st k damage at_time_ms collapse seed = apply_glass_damage_caused st k damage at_time_ms collapse seed Impact"

text \<open>
  A hit: \<open>collapse\<close> is what \<open>glass_weakened_collapse_time_cs\<close> draws, \<open>hit_seed\<close> what
  \<open>glass_shatter_seed_from_hit\<close> computes for the pane, if there is one.
\<close>

definition apply_glass_hit_caused :: "WorldObjectState \<Rightarrow> GlassPieceId \<Rightarrow> u32 \<Rightarrow> 32 word \<Rightarrow> u16 \<Rightarrow> GlassShatterSeed option
    \<Rightarrow> GlassCause \<Rightarrow> WorldObjectState \<times> GlassPieceState" where
  "apply_glass_hit_caused st k damage at_time_ms collapse hit_seed cause =
     (if damage = 0 then (st, glass_piece_state st k)
      else let previous = glass_piece_state st k in
      if previous = Deleted then (st, previous)
      else let next = glass_state_from_damage (glass_add_damage (sg_damage (glass_piece st k)) damage)
      in apply_glass_damage_caused st k damage at_time_ms
          (if next \<noteq> previous \<and> next = Weakened then Some collapse else None)
          (if next \<noteq> previous \<and> next = Shattered then hit_seed else None) cause)"

definition apply_glass_hit :: "WorldObjectState \<Rightarrow> GlassPieceId \<Rightarrow> u32 \<Rightarrow> 32 word \<Rightarrow> u16 \<Rightarrow> GlassShatterSeed option
    \<Rightarrow> WorldObjectState \<times> GlassPieceState" where
  "apply_glass_hit st k damage at_time_ms collapse hit_seed = apply_glass_hit_caused st k damage at_time_ms collapse hit_seed Impact"

definition force_shatter_glass :: "WorldObjectState \<Rightarrow> GlassPieceId \<Rightarrow> 32 word \<Rightarrow> GlassShatterSeed option \<Rightarrow> GlassCause
    \<Rightarrow> WorldObjectState \<times> GlassPieceState" where
  "force_shatter_glass st k at_time_ms hit_seed cause =
     (if \<not> glass_is_solid (sg_damage (glass_piece st k)) then (st, glass_piece_state st k)
      else apply_glass_damage_caused st k (ucast GLASS_DAMAGE_TO_DESTROY) at_time_ms None hit_seed cause)"

definition script_destroy_glass :: "WorldObjectState \<Rightarrow> GlassPieceId \<Rightarrow> 32 word \<Rightarrow> GlassShatterSeed option \<Rightarrow> WorldObjectState \<times> GlassPieceState" where
  "script_destroy_glass st k at_time_ms hit_seed = force_shatter_glass st k at_time_ms hit_seed Script"

definition glass_update_piece :: "32 word \<Rightarrow> GlassPieceId \<Rightarrow> WorldObjectState \<Rightarrow> WorldObjectState" where
  "glass_update_piece at_time_ms k st =
     (case glass_collapse_piece (glass_piece st k) at_time_ms of
       (piece, None) \<Rightarrow> st
     | (piece, Some change) \<Rightarrow>
         let st1 = st\<lparr>wo_glass_pieces := upsert_value (wo_glass_pieces st) k piece\<rparr> in
         if gc_current change = Shattered
         then st1\<lparr>wo_glass_native := upsert_value (wo_glass_native st1) k
             ((bump_revision (glass_native_meta st1 k))\<lparr>nm_cause := Collapse, nm_deterministic_seed := mix_seed k at_time_ms None\<rparr>)\<rparr>
         else st1)"

definition glass_update :: "WorldObjectState \<Rightarrow> 32 word \<Rightarrow> WorldObjectState" where
  "glass_update st at_time_ms = fold (glass_update_piece at_time_ms) (map fst (wo_glass_pieces st)) st"

definition piece_snapshot :: "WorldObjectState \<Rightarrow> GlassPieceId \<times> ServerGlassPiece \<Rightarrow> (GlassPieceId \<times> GlassPieceSnapshot) option" where
  "piece_snapshot st = (\<lambda>(k, piece). if piece_state piece \<noteq> Intact
     then Some (k, \<lparr>gp_state = piece_state piece, gp_revision = max (nm_revision (glass_native_meta st k)) 1,
       gp_last_state_change_time = sg_last_state_change_time piece, gp_shatter_seed = piece_shatter_seed piece,
       gp_deterministic_seed = nm_deterministic_seed (glass_native_meta st k), gp_cause = nm_cause (glass_native_meta st k)\<rparr>)
     else None)"

definition to_snapshot :: "WorldObjectState \<Rightarrow> WorldObjectSnapshot" where
  "to_snapshot st = \<lparr>ws_as_of_ms = 0, ws_map_round_epoch = wo_map_round_epoch st,
     ws_fracture_profile_version = GLASS_FRACTURE_PROFILE_VERSION,
     ws_glass_pieces = sort_pairs (List.map_filter (piece_snapshot st) (wo_glass_pieces st)),
     ws_destructible_loop_sounds = wo_destructible_loop_sounds st\<rparr>"

fun glass_damage_for_state :: "GlassPieceState \<Rightarrow> u16" where
  "glass_damage_for_state Intact = 0"
| "glass_damage_for_state Weakened = GLASS_DAMAGE_TO_WEAKEN"
| "glass_damage_for_state Shattered = GLASS_DAMAGE_TO_DESTROY"
| "glass_damage_for_state Deleted = GLASS_DAMAGE_INVALID"

definition adopted_piece :: "GlassPieceSnapshot \<Rightarrow> ServerGlassPiece" where
  "adopted_piece s = (let p = piece_default\<lparr>sg_damage := glass_damage_for_state (gp_state s),
       sg_last_state_change_time := gp_last_state_change_time s\<rparr> in
     case gp_shatter_seed s of
       Some seed \<Rightarrow> p\<lparr>sg_impact_dir := gs_impact_dir seed, sg_impact_pos := gs_impact_pos seed\<rparr>
     | None \<Rightarrow> if gp_state s = Shattered then p\<lparr>sg_impact_dir := GLASS_IMPACT_DIR_NONE\<rparr> else p)"

definition adopt_piece :: "GlassPieceId \<times> GlassPieceSnapshot \<Rightarrow> WorldObjectState \<Rightarrow> WorldObjectState" where
  "adopt_piece = (\<lambda>(k, s) st. if glass_damage_for_state (gp_state s) = 0 then st
     else st\<lparr>wo_glass_pieces := upsert_value (wo_glass_pieces st) k (adopted_piece s),
       wo_glass_native := upsert_value (wo_glass_native st) k
         \<lparr>nm_revision = gp_revision s, nm_cause = gp_cause s, nm_deterministic_seed = gp_deterministic_seed s\<rparr>\<rparr>)"

definition adopt_snapshot :: "WorldObjectState \<Rightarrow> WorldObjectSnapshot \<Rightarrow> WorldObjectState" where
  "adopt_snapshot st snap = fold adopt_piece (ws_glass_pieces snap)
     (st\<lparr>wo_map_round_epoch := ws_map_round_epoch snap, wo_destructible_loop_sounds := ws_destructible_loop_sounds snap,
       wo_glass_pieces := [], wo_glass_native := []\<rparr>)"

definition glass_break_record :: "WorldObjectState \<Rightarrow> GlassPieceId \<Rightarrow> GlassBreakRecord option" where
  "glass_break_record st k = (let piece = glass_piece st k; meta = glass_native_meta st k in
     if piece_state piece \<noteq> Shattered then None
     else Some \<lparr>br_break_tick = sg_last_state_change_time piece, br_deterministic_seed = nm_deterministic_seed meta,
       br_shatter_seed = piece_shatter_seed piece, br_cause = nm_cause meta\<rparr>)"

definition glass_revision :: "WorldObjectState \<Rightarrow> GlassPieceId \<Rightarrow> u32" where
  "glass_revision st k = nm_revision (glass_native_meta st k)"

section \<open>How glass breaks\<close>

text \<open>
  The operations of a running match. A blast is one hit after the other; \<open>script_destroy_glass\<close> and
  \<open>apply_glass_hit\<close> are the general operations with a fixed cause.
\<close>

inductive glass_step :: "WorldObjectState \<Rightarrow> WorldObjectState \<Rightarrow> bool" where
  damage: "glass_step st (fst (apply_glass_damage_caused st k d t collapse seed cause))"
| hit: "glass_step st (fst (apply_glass_hit_caused st k d t collapse_time seed cause))"
| force: "glass_step st (fst (force_shatter_glass st k t seed cause))"
| update: "glass_step st (glass_update st t)"
| loops: "glass_step st (set_destructible_loop_sounds st rows)"
| epoch: "glass_step st (set_map_round_epoch st epoch)"

definition world_ok :: "WorldObjectState \<Rightarrow> bool" where
  "world_ok st \<longleftrightarrow> table_ok (wo_glass_pieces st) \<and> table_ok (wo_glass_native st)"

lemma add_damage_bounds:
  assumes "d \<noteq> GLASS_DAMAGE_INVALID"
  shows "d \<le> glass_add_damage d a" and "glass_add_damage d a \<noteq> GLASS_DAMAGE_INVALID"
    and "a \<noteq> 0 \<Longrightarrow> glass_add_damage d a \<noteq> 0"
proof -
  have d: "unat d < 65535"
  proof -
    have "unat d < 2 ^ 16" using unsigned_less [of d] by simp
    moreover have "unat d \<noteq> 65535" using assms by (simp add: word_unat_eq_iff)
    ultimately show ?thesis by simp
  qed
  let ?n = "min (unat d + unat a) (2 ^ 32 - 1)"
  have n: "unat d \<le> ?n" using d by simp
  have e: "unat (glass_add_damage d a) = (if ?n < 65535 then ?n else 65534)"
  proof -
    have v: "unat (of_nat ?n :: u16) = ?n" if "?n < 65535" by (rule unat_of_nat_u16) (use that in simp)
    have w: "unat (0xffff :: u16) = 65535" "unat (0xfffe :: u16) = 65534" by simp_all
    show ?thesis unfolding glass_add_damage_def Let_def w
      by (cases "?n < 65535") (simp_all only: v w if_True if_False)
  qed
  show "d \<le> glass_add_damage d a" unfolding word_le_nat_alt e using n d by simp
  show "glass_add_damage d a \<noteq> GLASS_DAMAGE_INVALID" unfolding word_unat_eq_iff e
    by (cases "?n < 65535") (simp_all only: if_True if_False, simp_all)
  show "glass_add_damage d a \<noteq> 0" if "a \<noteq> 0"
    using that unfolding word_unat_eq_iff e by (auto simp: unat_eq_0 min_def split: if_splits)
qed

lemma piece_state_simps:
  "piece_state p = Deleted \<longleftrightarrow> sg_damage p = GLASS_DAMAGE_INVALID"
  "piece_state p = Shattered \<longleftrightarrow> sg_damage p \<noteq> GLASS_DAMAGE_INVALID \<and> GLASS_DAMAGE_TO_DESTROY \<le> sg_damage p"
  "piece_state p = Intact \<longleftrightarrow> sg_damage p < GLASS_DAMAGE_TO_WEAKEN"
  by (auto simp: piece_state_def glass_state_from_damage_def glass_state_from_damage_thresholds_def word_le_nat_alt word_less_nat_alt)

text \<open>
  One step for one piece: its damage does not fall, it becomes or ceases to be deleted by none, what
  is known of it changes only with its state, and a change of state counts one revision.
\<close>

definition advances :: "ServerGlassPiece \<times> GlassNativeMeta \<Rightarrow> ServerGlassPiece \<times> GlassNativeMeta \<Rightarrow> bool" where
  "advances = (\<lambda>(p, m) (p', m'). sg_damage p \<le> sg_damage p' \<and> (piece_state p' = Deleted \<longleftrightarrow> piece_state p = Deleted)
     \<and> (piece_state p' = piece_state p \<longrightarrow> p' = p\<lparr>sg_damage := sg_damage p'\<rparr> \<and> m' = m)
     \<and> (piece_state p' \<noteq> piece_state p \<longrightarrow> nm_revision m' = nm_revision (bump_revision m)))"

lemma advances_refl: "advances pm pm"
  by (cases pm) (simp add: advances_def)

definition look :: "WorldObjectState \<Rightarrow> GlassPieceId \<Rightarrow> ServerGlassPiece \<times> GlassNativeMeta" where
  "look st k = (glass_piece st k, glass_native_meta st k)"

lemma look_updates [simp]:
  "table_ok (wo_glass_pieces st) \<Longrightarrow> glass_piece (st\<lparr>wo_glass_pieces := upsert_value (wo_glass_pieces st) k p\<rparr>) = (glass_piece st)(k := p)"
  "table_ok (wo_glass_native st) \<Longrightarrow> glass_native_meta (st\<lparr>wo_glass_native := upsert_value (wo_glass_native st) k m\<rparr>) = (glass_native_meta st)(k := m)"
  "table_ok (wo_glass_native st) \<Longrightarrow> glass_native_meta (st\<lparr>wo_glass_pieces := g, wo_glass_native := upsert_value (wo_glass_native st) k m\<rparr>) = (glass_native_meta st)(k := m)"
  "glass_piece (st\<lparr>wo_glass_native := n\<rparr>) = glass_piece st" "glass_native_meta (st\<lparr>wo_glass_pieces := g\<rparr>) = glass_native_meta st"
  "glass_piece (st\<lparr>wo_destructible_loop_sounds := l\<rparr>) = glass_piece st" "glass_native_meta (st\<lparr>wo_destructible_loop_sounds := l\<rparr>) = glass_native_meta st"
  "glass_piece (st\<lparr>wo_map_round_epoch := e\<rparr>) = glass_piece st" "glass_native_meta (st\<lparr>wo_map_round_epoch := e\<rparr>) = glass_native_meta st"
  by (auto simp: glass_piece_def glass_native_meta_def tbl.look_ups)

lemma glass_apply_damage_advances:
  assumes "glass_apply_damage p a t collapse seed = (p', change)" and "piece_state p \<noteq> Deleted"
  shows "sg_damage p \<le> sg_damage p'" and "piece_state p' \<noteq> Deleted"
    and "change = None \<Longrightarrow> piece_state p' = piece_state p \<and> p' = p\<lparr>sg_damage := sg_damage p'\<rparr>"
    and "change = Some c \<Longrightarrow> piece_state p' \<noteq> piece_state p \<and> gc_current c = piece_state p'"
    and "a \<noteq> 0 \<Longrightarrow> sg_damage p' \<noteq> 0"
proof -
  from assms(2) have d: "sg_damage p \<noteq> GLASS_DAMAGE_INVALID" by (simp add: piece_state_simps)
  note b = add_damage_bounds [OF d, of a]
  have s: "piece_state (q\<lparr>sg_last_state_change_time := x\<rparr>) = piece_state q" "piece_state (q\<lparr>sg_collapse_time := y\<rparr>) = piece_state q"
    "piece_state (q\<lparr>sg_impact_dir := v, sg_impact_pos := w\<rparr>) = piece_state q" for q x y v w
    by (simp_all add: piece_state_def)
  have "sg_damage p \<le> sg_damage p' \<and> piece_state p' \<noteq> Deleted \<and> (change = None \<longrightarrow> piece_state p' = piece_state p \<and> p' = p\<lparr>sg_damage := sg_damage p'\<rparr>)
    \<and> (\<forall>c. change = Some c \<longrightarrow> piece_state p' \<noteq> piece_state p \<and> gc_current c = piece_state p') \<and> (a \<noteq> 0 \<longrightarrow> sg_damage p' \<noteq> 0)"
    using assms b
    by (auto simp: glass_apply_damage_def Let_def s piece_state_simps(1) split: if_splits option.splits)
  then show "sg_damage p \<le> sg_damage p'" "piece_state p' \<noteq> Deleted"
    "change = None \<Longrightarrow> piece_state p' = piece_state p \<and> p' = p\<lparr>sg_damage := sg_damage p'\<rparr>"
    "change = Some c \<Longrightarrow> piece_state p' \<noteq> piece_state p \<and> gc_current c = piece_state p'"
    "a \<noteq> 0 \<Longrightarrow> sg_damage p' \<noteq> 0" by auto
qed

text \<open>Every operation keeps the tables sorted and moves each piece forward.\<close>

definition moves :: "WorldObjectState \<Rightarrow> WorldObjectState \<Rightarrow> bool" where
  "moves st st' \<longleftrightarrow> world_ok st' \<and> (\<forall>k. advances (look st k) (look st' k))"

lemma note_change_look:
  "world_ok st \<Longrightarrow> world_ok (note_change st k c t seed cause) \<and> glass_piece (note_change st k c t seed cause) = glass_piece st
    \<and> wo_glass_pieces (note_change st k c t seed cause) = wo_glass_pieces st
    \<and> nm_revision (glass_native_meta (note_change st k c t seed cause) k) = nm_revision (bump_revision (glass_native_meta st k))
    \<and> (\<forall>j. j \<noteq> k \<longrightarrow> glass_native_meta (note_change st k c t seed cause) j = glass_native_meta st j)"
  by (auto simp: note_change_def Let_def world_ok_def tbl.ok_ups)

lemma apply_damage_moves:
  assumes ok: "world_ok st"
  shows "moves st (fst (apply_glass_damage_caused st k d t collapse seed cause))"
proof (cases "d = 0 \<or> sg_damage (glass_piece st k) = GLASS_DAMAGE_INVALID")
  case True
  with ok show ?thesis by (auto simp: apply_glass_damage_caused_def moves_def advances_refl)
next
  case False
  obtain p change where a: "glass_apply_damage (glass_piece st k) d t collapse seed = (p, change)" by fastforce
  from False have "piece_state (glass_piece st k) \<noteq> Deleted" by (simp add: piece_state_simps)
  note b = glass_apply_damage_advances [OF a this]
  define st1 where "st1 = (case change of None \<Rightarrow> st | Some c \<Rightarrow> note_change st k c t seed cause)"
  have e: "fst (apply_glass_damage_caused st k d t collapse seed cause) = st1\<lparr>wo_glass_pieces := upsert_value (wo_glass_pieces st1) k p\<rparr>"
    using False a b(5) by (simp add: apply_glass_damage_caused_def st1_def Let_def)
  have st1: "world_ok st1" "glass_piece st1 = glass_piece st"
    using note_change_look [OF ok] ok by (auto simp: st1_def split: option.split)
  show ?thesis
    unfolding moves_def e
  proof (intro conjI allI)
    show "world_ok (st1\<lparr>wo_glass_pieces := upsert_value (wo_glass_pieces st1) k p\<rparr>)"
      using st1(1) by (simp add: world_ok_def tbl.ok_ups)
    show "advances (look st j) (look (st1\<lparr>wo_glass_pieces := upsert_value (wo_glass_pieces st1) k p\<rparr>) j)" for j
    proof (cases change)
      case None
      with b \<open>piece_state (glass_piece st k) \<noteq> Deleted\<close> st1 show ?thesis
        by (auto simp: st1_def look_def world_ok_def advances_def)
    next
      case (Some c)
      have "nm_revision (glass_native_meta st1 k) = nm_revision (bump_revision (glass_native_meta st k))"
        "\<And>j. j \<noteq> k \<Longrightarrow> glass_native_meta st1 j = glass_native_meta st j"
        using note_change_look [OF ok, of k c t seed cause] by (simp_all add: st1_def Some)
      with b(1,2) b(4) [OF Some] \<open>piece_state (glass_piece st k) \<noteq> Deleted\<close> st1 show ?thesis
        by (cases "j = k") (auto simp: look_def world_ok_def advances_def)
    qed
  qed
qed

lemma hit_moves: "world_ok st \<Longrightarrow> moves st (fst (apply_glass_hit_caused st k d t collapse seed cause))"
  using apply_damage_moves by (auto simp: apply_glass_hit_caused_def Let_def moves_def advances_refl)

lemma force_moves: "world_ok st \<Longrightarrow> moves st (fst (force_shatter_glass st k t seed cause))"
  using apply_damage_moves by (auto simp: force_shatter_glass_def Let_def moves_def advances_refl)

lemma collapse_changes:
  assumes "glass_collapse_piece p t = (p', Some c)"
  shows "sg_damage p \<le> sg_damage p' \<and> piece_state p \<noteq> Deleted \<and> piece_state p \<noteq> Shattered \<and> piece_state p' = Shattered \<and> gc_current c = Shattered"
proof -
  have s: "piece_state (p\<lparr>sg_damage := 100\<rparr>) = Shattered" "piece_state (p\<lparr>sg_damage := 100, sg_last_state_change_time := t,
      sg_impact_dir := 0xff, sg_impact_pos := (0, 0)\<rparr>) = Shattered"
    by (simp_all add: piece_state_simps)
  from assms show ?thesis
    by (auto simp: glass_collapse_piece_def glass_collapse_due_def Let_def s piece_state_simps(1,2) split: if_splits)
qed

lemma update_piece_moves:
  assumes ok: "world_ok st"
  shows "world_ok (glass_update_piece t k st)" and "advances (look st k) (look (glass_update_piece t k st) k)"
    and "j \<noteq> k \<Longrightarrow> look (glass_update_piece t k st) j = look st j"
proof -
  obtain p change where c: "glass_collapse_piece (glass_piece st k) t = (p, change)" by fastforce
  have "world_ok (glass_update_piece t k st) \<and> advances (look st k) (look (glass_update_piece t k st) k)
    \<and> (\<forall>j. j \<noteq> k \<longrightarrow> look (glass_update_piece t k st) j = look st j)"
  proof (cases change)
    case None
    with c ok show ?thesis by (simp add: glass_update_piece_def advances_refl)
  next
    case (Some ch)
    with c collapse_changes [of "glass_piece st k" t p ch] ok show ?thesis
      by (auto simp: glass_update_piece_def Let_def world_ok_def tbl.ok_ups look_def advances_def)
  qed
  then show "world_ok (glass_update_piece t k st)" "advances (look st k) (look (glass_update_piece t k st) k)"
    "j \<noteq> k \<Longrightarrow> look (glass_update_piece t k st) j = look st j" by auto
qed

lemma update_fold:
  assumes "world_ok st" and "distinct ks"
  shows "world_ok (fold (glass_update_piece t) ks st) \<and> (\<forall>k. (k \<in> set ks \<longrightarrow> advances (look st k) (look (fold (glass_update_piece t) ks st) k))
    \<and> (k \<notin> set ks \<longrightarrow> look (fold (glass_update_piece t) ks st) k = look st k))"
  using assms
proof (induction ks arbitrary: st)
  case (Cons k ks)
  note u = update_piece_moves [OF Cons.prems(1), where t = t and k = k]
  have "look (glass_update_piece t k st) j = look st j" if "j \<noteq> k" for j using u(3) that by simp
  with Cons.IH [OF u(1)] Cons.prems(2) u(2) show ?case by auto metis
qed simp

lemma update_moves: "world_ok st \<Longrightarrow> moves st (glass_update st t)"
  using update_fold [of st "map fst (wo_glass_pieces st)" t]
  unfolding moves_def glass_update_def by (metis advances_refl world_ok_def table_ok_iff)

lemma step_moves: "glass_step st st' \<Longrightarrow> world_ok st \<Longrightarrow> moves st st'"
  by (induction rule: glass_step.induct)
    (simp_all add: apply_damage_moves hit_moves force_moves update_moves,
      simp_all add: moves_def world_ok_def look_def advances_refl set_destructible_loop_sounds_def set_map_round_epoch_def)

lemma steps_ok: "glass_step\<^sup>*\<^sup>* st st' \<Longrightarrow> world_ok st \<Longrightarrow> world_ok st'"
  by (induction rule: rtranclp_induct) (auto dest: step_moves simp: moves_def)

lemma world_default_ok: "world_ok world_default"
  by (simp add: world_ok_def world_default_def table_ok_def)

definition glass_rank :: "GlassPieceState \<Rightarrow> nat" where
  "glass_rank s = unat (state_as_u8 s)"

lemma rank_mono: "sg_damage p \<le> sg_damage p' \<Longrightarrow> glass_rank (piece_state p) \<le> glass_rank (piece_state p')"
  using unsigned_less [of "sg_damage p'", where 'a = nat]
  by (auto simp: piece_state_def glass_state_from_damage_def glass_state_from_damage_thresholds_def glass_rank_def
      word_le_nat_alt word_less_nat_alt word_unat_eq_iff)

section \<open>Snapshots\<close>

definition glass_row_ok :: "GlassPieceSnapshot \<Rightarrow> bool" where
  "glass_row_ok s \<longleftrightarrow> gp_state s \<noteq> Intact \<and> gp_revision s \<noteq> 0
     \<and> (case gp_shatter_seed s of None \<Rightarrow> True
        | Some seed \<Rightarrow> gp_state s = Shattered \<and> seed_new (gs_impact_dir seed) (gs_impact_pos seed) = Some seed)"

definition snapshot_ok :: "WorldObjectSnapshot \<Rightarrow> bool" where
  "snapshot_ok snap \<longleftrightarrow> table_ok (ws_glass_pieces snap) \<and> list_all (\<lambda>(k, s). glass_row_ok s) (ws_glass_pieces snap)"

lemma seed_new_fields:
  "seed_new dir p = Some seed \<Longrightarrow> seed_new (gs_impact_dir seed) (gs_impact_pos seed) = Some seed"
  by (auto simp: seed_new_def split: if_splits)

lemma map_filter_keys:
  assumes "\<And>kv r. f kv = Some r \<Longrightarrow> fst r = fst kv" and "distinct (map fst xs)"
  shows "distinct (map fst (List.map_filter f xs))"
proof -
  have "map fst (List.map_filter f xs) = map fst (filter (\<lambda>x. f x \<noteq> None) xs)"
    using assms(1) by (induction xs) (auto simp: map_filter_simps split: option.splits)
  with assms(2) show ?thesis by (simp add: distinct_map_filter)
qed

lemma piece_snapshot_key: "piece_snapshot st kv = Some r \<Longrightarrow> fst r = fst kv"
  by (auto simp: piece_snapshot_def split: if_splits prod.splits)

lemma snapshot_lookup:
  "distinct (map fst ps) \<Longrightarrow> map_of (List.map_filter (piece_snapshot st) ps) k
    = Option.bind (map_of ps k) (\<lambda>p. map_option snd (piece_snapshot st (k, p)))"
proof (induction ps)
  case (Cons a ps)
  obtain j p where a: "a = (j, p)" by (cases a)
  have "map_of ps j = None" using Cons.prems by (simp add: a map_of_eq_None_iff)
  with Cons show ?case by (auto simp: a map_filter_simps piece_snapshot_def split: option.splits)
qed (simp add: map_filter_simps)

lemma to_snapshot_ok:
  assumes "world_ok st"
  shows "snapshot_ok (to_snapshot st)"
proof -
  have "distinct (map fst (List.map_filter (piece_snapshot st) (wo_glass_pieces st)))"
    using assms by (intro map_filter_keys piece_snapshot_key) (simp_all add: world_ok_def table_ok_iff)
  moreover have "glass_row_ok s" if "(k, s) \<in> set (List.map_filter (piece_snapshot st) (wo_glass_pieces st))" for k s
    using that
    by (auto simp: map_filter_def piece_snapshot_def glass_row_ok_def piece_shatter_seed_def max_def
        split: if_splits option.splits) (erule seed_new_fields)+
  ultimately show ?thesis
    by (auto simp: snapshot_ok_def to_snapshot_def sort_pairs_def table_ok_sort list_all_iff)
qed

definition adopted_meta :: "GlassPieceSnapshot \<Rightarrow> GlassNativeMeta" where
  "adopted_meta s = \<lparr>nm_revision = gp_revision s, nm_cause = gp_cause s, nm_deterministic_seed = gp_deterministic_seed s\<rparr>"

lemma adopted_piece_state [simp]: "piece_state (adopted_piece s) = gp_state s"
  by (cases "gp_state s") (auto simp: adopted_piece_def Let_def piece_state_def glass_state_from_damage_def
      glass_state_from_damage_thresholds_def split: option.splits)

lemma adopted_piece_fields:
  assumes "glass_row_ok s"
  shows "piece_shatter_seed (adopted_piece s) = gp_shatter_seed s" "sg_last_state_change_time (adopted_piece s) = gp_last_state_change_time s"
  using assms unfolding piece_shatter_seed_def adopted_piece_state
  by (auto simp: adopted_piece_def glass_row_ok_def Let_def seed_new_def split: option.splits)

lemma upserts_fresh:
  assumes "table_ok rows"
  shows "fold (\<lambda>(k, v) t. upsert_value t k v) (map (\<lambda>(k, s). (k, f s)) rows) [] = map (\<lambda>(k, s). (k, f s)) rows"
proof (rule table_eqI)
  let ?rows = "map (\<lambda>(k, s). (k, f s)) rows"
  have k: "map fst ?rows = map fst rows" by (simp add: case_prod_beta comp_def)
  show ok: "table_ok ?rows" using assms unfolding table_ok_def k .
  have e: "table_ok []" by (simp add: table_ok_def)
  show "table_ok (fold (\<lambda>(k, v) t. upsert_value t k v) ?rows [])" by (rule tbl.fold_ups [OF e])
  have "map_of (rev ?rows) = map_of ?rows" using ok
    by (subst map_of_inject_set) (simp_all only: table_ok_iff set_rev rev_map [symmetric] distinct_rev)
  then show "map_of (fold (\<lambda>(k, v) t. upsert_value t k v) ?rows []) = map_of ?rows"
    using tbl.fold_ups(2) [OF e, of ?rows] by (simp add: lookup_value_map_of [abs_def])
qed

lemma adopt_pieces:
  assumes "list_all (\<lambda>(k, s). glass_row_ok s) rows"
  shows "fold adopt_piece rows st = st\<lparr>wo_glass_pieces := fold (\<lambda>(k, v) t. upsert_value t k v) (map (\<lambda>(k, s). (k, adopted_piece s)) rows) (wo_glass_pieces st),
    wo_glass_native := fold (\<lambda>(k, v) t. upsert_value t k v) (map (\<lambda>(k, s). (k, adopted_meta s)) rows) (wo_glass_native st)\<rparr>"
  using assms
proof (induction rows arbitrary: st)
  case (Cons r rows)
  have "glass_damage_for_state (gp_state s) \<noteq> 0" if "glass_row_ok s" for s
    using that by (cases "gp_state s") (auto simp: glass_row_ok_def)
  with Cons show ?case by (cases r) (simp add: adopt_piece_def adopted_meta_def)
qed simp

lemma adopt_snapshot_tables:
  assumes "snapshot_ok snap"
  shows "wo_glass_pieces (adopt_snapshot st snap) = map (\<lambda>(k, s). (k, adopted_piece s)) (ws_glass_pieces snap)"
    and "wo_glass_native (adopt_snapshot st snap) = map (\<lambda>(k, s). (k, adopted_meta s)) (ws_glass_pieces snap)"
    and "wo_map_round_epoch (adopt_snapshot st snap) = ws_map_round_epoch snap"
    and "wo_destructible_loop_sounds (adopt_snapshot st snap) = ws_destructible_loop_sounds snap"
  using assms by (simp_all add: adopt_snapshot_def snapshot_ok_def adopt_pieces upserts_fresh)

lemma world_tables_lookup:
  "map_of (map (\<lambda>(k, s). (k, f s)) rows) k = map_option f (map_of rows k)"
  by (induction rows) auto

lemma adopt_snapshot_looks:
  assumes "snapshot_ok snap"
  shows "glass_piece (adopt_snapshot st snap) k = (case map_of (ws_glass_pieces snap) k of None \<Rightarrow> piece_default | Some s \<Rightarrow> adopted_piece s)"
    and "glass_native_meta (adopt_snapshot st snap) k = (case map_of (ws_glass_pieces snap) k of None \<Rightarrow> meta_default | Some s \<Rightarrow> adopted_meta s)"
  by (simp_all add: glass_piece_def glass_native_meta_def adopt_snapshot_tables [OF assms] lookup_value_map_of world_tables_lookup
      split: option.split)

lemma adopt_snapshot_ok: "world_ok (adopt_snapshot st snap)"
proof -
  have "world_ok (fold adopt_piece rows st')" if "world_ok st'" for rows st'
    using that by (induction rows arbitrary: st') (auto simp: adopt_piece_def world_ok_def tbl.ok_ups split: prod.splits)
  then show ?thesis by (simp add: adopt_snapshot_def world_ok_def table_ok_def)
qed

lemma sort_pairs_ok: "table_ok rows \<Longrightarrow> sort_pairs rows = rows"
  unfolding sort_pairs_def by (rule table_sorted)

lemma map_filter_map_id: "(\<And>x. x \<in> set xs \<Longrightarrow> f (g x) = Some x) \<Longrightarrow> List.map_filter f (map g xs) = xs"
  by (induction xs) (auto simp: map_filter_simps)

lemma to_snapshot_adopt:
  assumes "snapshot_ok snap"
  shows "to_snapshot (adopt_snapshot st snap) = snap\<lparr>ws_as_of_ms := 0, ws_fracture_profile_version := GLASS_FRACTURE_PROFILE_VERSION\<rparr>"
proof -
  let ?rows = "ws_glass_pieces snap" and ?st = "adopt_snapshot st snap"
  have t: "table_ok ?rows" and r: "\<And>k s. (k, s) \<in> set ?rows \<Longrightarrow> glass_row_ok s"
    using assms by (auto simp: snapshot_ok_def list_all_iff)
  have "piece_snapshot ?st (k, adopted_piece s) = Some (k, s)" if "(k, s) \<in> set ?rows" for k s
  proof -
    have "map_of ?rows k = Some s" using that t by (simp add: table_ok_iff)
    then have "glass_native_meta ?st k = adopted_meta s" by (simp add: adopt_snapshot_looks [OF assms])
    moreover have "max (gp_revision s) 1 = gp_revision s"
      using r [OF that] by (auto simp: glass_row_ok_def max_def word_le_nat_alt unat_eq_0)
        (metis le_SucE le_zero_eq unat_1 unat_eq_0 word_unat_eq_iff One_nat_def)
    ultimately show ?thesis using r [OF that]
      by (simp add: piece_snapshot_def adopted_piece_fields adopted_meta_def glass_row_ok_def)
  qed
  then have "List.map_filter (piece_snapshot ?st) (map (\<lambda>(k, s). (k, adopted_piece s)) ?rows) = ?rows"
    by (intro map_filter_map_id) auto
  then show ?thesis
    by (simp add: to_snapshot_def adopt_snapshot_tables [OF assms] sort_pairs_ok [OF t])
qed

section \<open>The properties\<close>

text \<open>The worlds of a running server or client: operations on the empty world and adopted snapshots.\<close>

inductive match_world :: "WorldObjectState \<Rightarrow> bool" where
  start: "match_world world_default"
| adopt: "match_world st \<Longrightarrow> match_world (adopt_snapshot st snap)"
| step: "match_world st \<Longrightarrow> glass_step st st' \<Longrightarrow> match_world st'"

lemma match_world_ok: "match_world st \<Longrightarrow> world_ok st"
  by (induction rule: match_world.induct) (auto simp: world_default_ok adopt_snapshot_ok moves_def dest: step_moves)

lemma moves_facts:
  assumes "moves st st'"
  shows "glass_rank (glass_piece_state st k) \<le> glass_rank (glass_piece_state st' k)"
    and "glass_piece_state st' k = Deleted \<longleftrightarrow> glass_piece_state st k = Deleted"
    and "glass_piece_state st k = Shattered \<Longrightarrow> glass_piece_state st' k = Shattered
      \<and> glass_break_record st' k = glass_break_record st k \<and> glass_revision st' k = glass_revision st k"
proof -
  from assms have a: "advances (look st k) (look st' k)" by (simp add: moves_def)
  then show r: "glass_rank (glass_piece_state st k) \<le> glass_rank (glass_piece_state st' k)"
    and d: "glass_piece_state st' k = Deleted \<longleftrightarrow> glass_piece_state st k = Deleted"
    by (auto simp: advances_def look_def glass_piece_state_def intro: rank_mono)
  assume s: "glass_piece_state st k = Shattered"
  with r d have s': "glass_piece_state st' k = Shattered" by (cases "glass_piece_state st' k") (auto simp: glass_rank_def)
  with a s have "glass_piece st' k = (glass_piece st k)\<lparr>sg_damage := sg_damage (glass_piece st' k)\<rparr>" "glass_native_meta st' k = glass_native_meta st k"
    by (auto simp: advances_def look_def glass_piece_state_def)
  moreover note e = this(1)
  have "sg_last_state_change_time (glass_piece st' k) = sg_last_state_change_time (glass_piece st k)"
    "sg_impact_dir (glass_piece st' k) = sg_impact_dir (glass_piece st k)" "sg_impact_pos (glass_piece st' k) = sg_impact_pos (glass_piece st k)"
    by (subst e, simp)+
  ultimately show "glass_piece_state st' k = Shattered \<and> glass_break_record st' k = glass_break_record st k \<and> glass_revision st' k = glass_revision st k"
    using s s' by (simp add: glass_break_record_def Let_def glass_revision_def glass_piece_state_def piece_shatter_seed_def)
qed

text \<open>
  C29. Glass only breaks. Through any sequence of hits, forced breaks and collapses no piece goes back
  to an earlier state or becomes deleted, and once a piece is shattered, when, how and by what it
  broke never changes, so every client draws the same shards.
\<close>

theorem breaks_are_final:
  assumes "match_world st" and "glass_step\<^sup>*\<^sup>* st st'"
  shows "glass_rank (glass_piece_state st k) \<le> glass_rank (glass_piece_state st' k)
    \<and> (glass_piece_state st' k = Deleted \<longleftrightarrow> glass_piece_state st k = Deleted)
    \<and> (glass_piece_state st k = Shattered \<longrightarrow> glass_break_record st' k = glass_break_record st k \<and> glass_revision st' k = glass_revision st k)"
proof -
  have "glass_rank (glass_piece_state st k) \<le> glass_rank (glass_piece_state st' k)
    \<and> (glass_piece_state st' k = Deleted \<longleftrightarrow> glass_piece_state st k = Deleted)
    \<and> (glass_piece_state st k = Shattered \<longrightarrow> glass_piece_state st' k = Shattered
      \<and> glass_break_record st' k = glass_break_record st k \<and> glass_revision st' k = glass_revision st k)"
    using assms(2)
  proof (induction rule: rtranclp_induct)
    case (step st1 st2)
    from step.hyps(1) match_world_ok [OF assms(1)] have "world_ok st1" by (rule steps_ok)
    with step.hyps(2) have "moves st1 st2" by (rule step_moves)
    from moves_facts [OF this, of k] step.IH show ?case by auto
  qed simp
  then show ?thesis by blast
qed

definition sample_seed :: GlassShatterSeed where
  "sample_seed = \<lparr>gs_impact_dir = 3, gs_impact_pos = (10, 20)\<rparr>"

definition broken_world :: WorldObjectState where
  "broken_world = fst (apply_glass_hit_caused world_default 7 150 1000 0 (Some sample_seed) Impact)"

definition broken_record :: GlassBreakRecord where
  "broken_record = \<lparr>br_break_tick = 1000, br_deterministic_seed = mix_seed 7 1000 (Some sample_seed), br_shatter_seed = Some sample_seed, br_cause = Impact\<rparr>"

lemma broken_world_tables:
  "broken_world = \<lparr>wo_destructible_loop_sounds = [],
     wo_glass_pieces = [(7, \<lparr>sg_damage = 150, sg_collapse_time = 0, sg_last_state_change_time = 1000, sg_impact_dir = 3, sg_impact_pos = (10, 20)\<rparr>)],
     wo_glass_native = [(7, \<lparr>nm_revision = 1, nm_cause = Impact, nm_deterministic_seed = mix_seed 7 1000 (Some sample_seed)\<rparr>)], wo_map_round_epoch = 0\<rparr>"
proof -
  have d: "glass_add_damage 0 150 = 150" by (simp add: glass_add_damage_def)
  show ?thesis
    by (simp add: broken_world_def apply_glass_hit_caused_def apply_glass_damage_caused_def glass_piece_state_def glass_piece_def
        world_default_def lookup_value_def piece_default_def piece_state_def glass_state_from_damage_def glass_state_from_damage_thresholds_def
        glass_apply_damage_def d note_change_def Let_def upsert_value_def sort_pairs_def glass_native_meta_def meta_default_def bump_revision_def
        del: look_updates) (simp add: sample_seed_def)
qed

lemma broken_world_facts:
  "glass_piece_state broken_world 7 = Shattered"
  "glass_break_record broken_world 7 = Some broken_record"
proof -
  have n: "seed_new 3 (10, 20) = Some sample_seed" by (simp add: seed_new_def sample_seed_def)
  show "glass_piece_state broken_world 7 = Shattered"
    by (simp add: glass_piece_state_def glass_piece_def broken_world_tables lookup_value_def piece_state_simps)
  then show "glass_break_record broken_world 7 = Some broken_record"
    by (simp add: glass_break_record_def glass_piece_def glass_native_meta_def broken_world_tables lookup_value_def glass_piece_state_def
        piece_shatter_seed_def n broken_record_def)
qed

theorem breaks_are_final_witness:
  "glass_break_record (glass_update (fst (apply_glass_hit_caused broken_world 7 3 2000 9 None Blast)) 9000) 7
    = Some broken_record"
proof -
  have m: "match_world broken_world"
    unfolding broken_world_def by (rule match_world.step [OF match_world.start glass_step.hit])
  let ?st = "fst (apply_glass_hit_caused broken_world 7 3 2000 9 None Blast)"
  have s: "glass_step broken_world ?st" "glass_step ?st (glass_update ?st 9000)" by (rule glass_step.hit, rule glass_step.update)
  from breaks_are_final [OF m converse_rtranclp_into_rtranclp [of glass_step, OF s(1) r_into_rtranclp [of glass_step, OF s(2)]], of 7] show ?thesis by (simp add: broken_world_facts)
qed

text \<open>
  Adopting a snapshot reproduces the world it was taken of: whatever the adopting side held
  before, it then gives the same snapshot, shows every piece in the same state and has the same
  records of how pieces broke.
\<close>

lemma adopt_reproduces:
  assumes "match_world st"
  shows "to_snapshot (adopt_snapshot other (to_snapshot st)) = to_snapshot st
    \<and> glass_piece_state (adopt_snapshot other (to_snapshot st)) k = glass_piece_state st k
    \<and> glass_break_record (adopt_snapshot other (to_snapshot st)) k = glass_break_record st k"
proof -
  from match_world_ok [OF assms] have w: "world_ok st" .
  note ok = to_snapshot_ok [OF w]
  let ?rows = "ws_glass_pieces (to_snapshot st)"
  have t: "table_ok (wo_glass_pieces st)" using w by (simp add: world_ok_def)
  have look: "map_of ?rows k = Option.bind (map_of (wo_glass_pieces st) k) (\<lambda>p. map_option snd (piece_snapshot st (k, p)))"
    using snapshot_lookup [of "wo_glass_pieces st" st k] t map_of_sort_key [OF map_filter_keys [OF piece_snapshot_key]]
    by (simp add: to_snapshot_def sort_pairs_def table_ok_iff)
  have "to_snapshot (adopt_snapshot other (to_snapshot st)) = to_snapshot st"
    using to_snapshot_adopt [OF ok] by (simp add: to_snapshot_def)
  moreover have "glass_piece_state (adopt_snapshot other (to_snapshot st)) k = glass_piece_state st k
    \<and> glass_break_record (adopt_snapshot other (to_snapshot st)) k = glass_break_record st k"
  proof (cases "map_of ?rows k")
    case None
    then have "piece_state (glass_piece st k) = Intact"
      by (auto simp: look glass_piece_def lookup_value_map_of piece_snapshot_def piece_default_def piece_state_simps split: option.splits if_splits)
    moreover have "piece_state piece_default = Intact" by (simp add: piece_default_def piece_state_simps)
    ultimately show ?thesis using None by (simp add: adopt_snapshot_looks [OF ok] glass_piece_state_def glass_break_record_def)
  next
    case (Some s)
    then obtain p where p: "map_of (wo_glass_pieces st) k = Some p" "piece_snapshot st (k, p) = Some (k, s)"
      by (auto simp: look bind_eq_Some_conv piece_snapshot_def split: if_splits)
    have "(k, s) \<in> set ?rows" using Some by (rule map_of_SomeD)
    then have r: "glass_row_ok s" using ok by (auto simp: snapshot_ok_def list_all_iff)
    have g: "glass_piece st k = p" using p(1) by (simp add: glass_piece_def lookup_value_map_of)
    show ?thesis using Some p(2) g adopted_piece_fields [OF r]
      by (auto simp: adopt_snapshot_looks [OF ok] glass_piece_state_def glass_break_record_def Let_def piece_snapshot_def adopted_meta_def split: if_splits)
  qed
  ultimately show ?thesis by blast
qed

end
