(* ===== verification/World_Sync.thy ===== *)
theory World_Sync
  imports Glass Client_Packets
begin

text \<open>
  Synchronising world objects between server and clients: \<^verbatim>\<open>crates/net/src/transport/world_object_wire.rs\<close>
  and \<^verbatim>\<open>world_sync.rs\<close>. The encoder keeps the snapshot it last sent and sends the whole state, the
  difference, or nothing but the times; the decoder applies what arrives to its own copy. A failed
  \<open>assert_eq!\<close> of the encoder is \<open>None\<close>; \<open>debug_assert!\<close> is not compiled, so counts wrap at sixteen
  bits. \<open>f32\<close> values are compared the way Rust does: a \<open>NaN\<close> differs from itself, the two zeros are
  equal.
\<close>

unbundle bit_operations_syntax

section \<open>Equality of loop sounds\<close>

definition loop_eq :: "DestructibleLoopSound \<Rightarrow> DestructibleLoopSound \<Rightarrow> bool" where
  "loop_eq r s \<longleftrightarrow> ls_snd_ent r = ls_snd_ent s \<and> ls_owner r = ls_owner s \<and> ls_alias_index r = ls_alias_index s
     \<and> vec3_eq (ls_origin r) (ls_origin s)"

section \<open>Differences of tables\<close>

record ('k, 'v) PairDelta =
  pd_changed :: "('k \<times> 'v) list"
  pd_removed :: "'k list"

definition pd_is_empty :: "('k, 'v) PairDelta \<Rightarrow> bool" where
  "pd_is_empty d \<longleftrightarrow> pd_changed d = [] \<and> pd_removed d = []"

text \<open>A hash map collected from a list keeps the last value of a key.\<close>

definition pair_delta :: "('k::linorder \<times> 'v) list \<Rightarrow> ('k \<times> 'v) list \<Rightarrow> ('k, 'v) PairDelta" where
  "pair_delta baseline current =
     (let base = map_of (rev baseline); cur = map_of (rev current)
      in \<lparr>pd_changed = sort_key fst (filter (\<lambda>(k, v). base k \<noteq> Some v) current),
          pd_removed = sort (filter (\<lambda>k. cur k = None) (map fst baseline))\<rparr>)"

definition partition_point :: "('a \<Rightarrow> bool) \<Rightarrow> 'a list \<Rightarrow> nat" where
  "partition_point P xs = length (takeWhile P xs)"

text \<open>
  One change: it lands on the first of the \<open>existing\<close> rows with its key, else on the row an earlier
  change appended, else it is appended.
\<close>

definition apply_change :: "nat \<Rightarrow> 'k::linorder \<times> 'v \<Rightarrow> ('k \<times> 'v) list \<times> ('k \<rightharpoonup> nat) \<Rightarrow> ('k \<times> 'v) list \<times> ('k \<rightharpoonup> nat)" where
  "apply_change existing = (\<lambda>(k, v) (table, added).
     let index = partition_point (\<lambda>(key, _). key < k) (take existing table) in
     if index < existing \<and> fst (table ! index) = k then (table[index := (k, v)], added)
     else case added k of
       Some row \<Rightarrow> (table[row := (fst (table ! row), v)], added)
     | None \<Rightarrow> (table @ [(k, v)], added(k \<mapsto> length table)))"

definition apply_pair_delta :: "('k::linorder \<times> 'v) list \<Rightarrow> ('k, 'v) PairDelta \<Rightarrow> ('k \<times> 'v) list" where
  "apply_pair_delta table delta =
     (let kept = (if pd_removed delta \<noteq> [] then filter (\<lambda>(key, _). key \<notin> set (pd_removed delta)) table else table);
          sorted_rows = sort_key fst kept
      in sort_key fst (fst (fold (apply_change (length sorted_rows)) (pd_changed delta) (sorted_rows, Map.empty))))"

section \<open>Rows on the wire\<close>

definition encode_glass_piece_snapshot :: "GlassPieceSnapshot \<Rightarrow> bytes option" where
  "encode_glass_piece_snapshot row =
     (let head = [put_u8 (state_as_u8 (gp_state row)), put_u32 (gp_revision row), put_i32 (gp_last_state_change_time row),
          put_u8 (cause_as_u8 (gp_cause row)), put_u64 (gp_deterministic_seed row)]
      in case gp_shatter_seed row of
        None \<Rightarrow> Some (concat (head @ [put_u8 0]))
      | Some seed \<Rightarrow> if gp_state row \<noteq> Shattered then None
          else Some (concat (head @ [put_u8 1, put_u8 (gs_impact_dir seed), put_u8 (fst (gs_impact_pos seed)), put_u8 (snd (gs_impact_pos seed))])))"

definition get_shatter_seed :: "GlassPieceState \<Rightarrow> (WireReader, WireError, GlassShatterSeed option) rd" where
  "get_shatter_seed state = rd_bind get_u8 (\<lambda>tag.
     if tag = 0 then rd_return None
     else if tag = 1 \<and> state = Shattered then rd_bind get_u8 (\<lambda>impact_dir. rd_bind get_u8 (\<lambda>p0. rd_bind get_u8 (\<lambda>p1.
       rd_bind (rd_lift (ok_or (WireMalformed ''invalid glass shatter seed'') (seed_new impact_dir (p0, p1)))) (\<lambda>seed. rd_return (Some seed)))))
     else if tag = 1 then rd_lift (Inl (WireMalformed ''glass seed on non-shattered state''))
     else rd_lift (Inl (WireMalformed ''unknown glass shatter seed tag'')))"

definition decode_glass_piece_snapshot :: "(WireReader, WireError, GlassPieceSnapshot) rd" where
  "decode_glass_piece_snapshot =
     rd_bind get_u8 (\<lambda>raw_state. rd_bind (rd_lift (ok_or (WireMalformed ''unknown glass piece state'') (state_from_u8 raw_state))) (\<lambda>state.
     rd_bind get_u32 (\<lambda>revision. rd_bind get_i32 (\<lambda>time.
     rd_bind get_u8 (\<lambda>raw_cause. rd_bind (rd_lift (ok_or (WireMalformed ''unknown glass cause'') (cause_from_u8 raw_cause))) (\<lambda>cause.
     rd_bind get_u64 (\<lambda>det. rd_bind (get_shatter_seed state) (\<lambda>seed.
     rd_return \<lparr>gp_state = state, gp_revision = revision, gp_last_state_change_time = time, gp_shatter_seed = seed,
       gp_deterministic_seed = det, gp_cause = cause\<rparr>))))))))"

definition encode_glass_row :: "GlassPieceId \<times> GlassPieceSnapshot \<Rightarrow> bytes option" where
  "encode_glass_row = (\<lambda>(k, row). map_option (\<lambda>bs. put_u32 k @ bs) (encode_glass_piece_snapshot row))"

definition encode_glass_rows :: "(GlassPieceId \<times> GlassPieceSnapshot) list \<Rightarrow> bytes option" where
  "encode_glass_rows rows = map_option (\<lambda>bss. put_u16 (of_nat (length rows)) @ concat bss) (those (map encode_glass_row rows))"

definition get_glass_row :: "(WireReader, WireError, GlassPieceId \<times> GlassPieceSnapshot) rd" where
  "get_glass_row = rd_bind get_u32 (\<lambda>k. rd_bind decode_glass_piece_snapshot (\<lambda>row. rd_return (k, row)))"

definition put_loop_sound :: "DestructibleLoopSound \<Rightarrow> bytes" where
  "put_loop_sound row = concat [put_u32 (to_wire (ls_owner row)),
     put_u32 (case ls_snd_ent row of None \<Rightarrow> 0xffffffff | Some n \<Rightarrow> n), put_u8 (ls_alias_index row), put_vec3 (ls_origin row)]"

definition encode_destructible_loop_sounds :: "DestructibleLoopSound list \<Rightarrow> bytes" where
  "encode_destructible_loop_sounds rows = concat [put_u16 (of_nat (length rows)), concat (map put_loop_sound rows)]"

definition get_loop_entity :: "bool \<Rightarrow> (WireReader, WireError, u32 option) rd" where
  "get_loop_entity with_entity = (if with_entity
     then rd_bind get_u32 (\<lambda>number. if number = 0xffffffff then rd_return None
       else if number \<le> 0x7fffffff then rd_return (Some number)
       else rd_lift (Inl (WireMalformed ''invalid loop sound entity'')))
     else rd_return None)"

definition get_loop_sound :: "bool \<Rightarrow> (WireReader, WireError, DestructibleLoopSound) rd" where
  "get_loop_sound with_entity = rd_bind get_u32 (\<lambda>owner. rd_bind (get_loop_entity with_entity) (\<lambda>snd_ent.
     rd_bind get_u8 (\<lambda>alias. rd_bind get_vec3 (\<lambda>origin.
     rd_return \<lparr>ls_snd_ent = snd_ent, ls_owner = ScriptModelId owner, ls_alias_index = alias, ls_origin = origin\<rparr>))))"

definition decode_destructible_loop_sounds :: "bool \<Rightarrow> (WireReader, WireError, DestructibleLoopSound list) rd" where
  "decode_destructible_loop_sounds with_entity = rd_bind get_u16 (\<lambda>count. rd_repeat (unat count) (get_loop_sound with_entity))"

section \<open>Messages\<close>

definition world_object_delta :: "WorldObjectSnapshot \<Rightarrow> WorldObjectSnapshot \<Rightarrow> (GlassPieceId, GlassPieceSnapshot) PairDelta" where
  "world_object_delta baseline current = pair_delta (ws_glass_pieces baseline) (ws_glass_pieces current)"

definition encode_world_object_full :: "WorldObjectSnapshot \<Rightarrow> bytes option" where
  "encode_world_object_full snap = map_option (\<lambda>rows. rows @ encode_destructible_loop_sounds (ws_destructible_loop_sounds snap))
     (encode_glass_rows (ws_glass_pieces snap))"

definition encode_world_object_delta :: "WorldObjectSnapshot \<Rightarrow> WorldObjectSnapshot \<Rightarrow> bytes option" where
  "encode_world_object_delta baseline current =
     (let glass = world_object_delta baseline current in
      map_option (\<lambda>rows. rows @ put_u16 (of_nat (length (pd_removed glass))) @ concat (map put_u32 (pd_removed glass))
          @ encode_destructible_loop_sounds (ws_destructible_loop_sounds current))
        (encode_glass_rows (pd_changed glass)))"

text \<open>The bytes, and whether the content changed.\<close>

definition encode_sync :: "WorldObjectSnapshot \<Rightarrow> WorldObjectSnapshot \<Rightarrow> bool \<Rightarrow> (bytes \<times> bool) option" where
  "encode_sync baseline current full =
     (let head = put_i32 (ws_as_of_ms current) @ put_u32 (ws_map_round_epoch current) @ put_u32 (ws_fracture_profile_version current) in
      if full then map_option (\<lambda>bs. (head @ put_u8 4 @ bs, True)) (encode_world_object_full current)
      else if pd_is_empty (world_object_delta baseline current)
          \<and> list_all2 loop_eq (ws_destructible_loop_sounds baseline) (ws_destructible_loop_sounds current)
        then Some (head @ put_u8 0, False)
      else map_option (\<lambda>bs. (head @ put_u8 3 @ bs, True)) (encode_world_object_delta baseline current))"

datatype WorldObjectChange =
    Unchanged
  | Delta "(GlassPieceId, GlassPieceSnapshot) PairDelta" "DestructibleLoopSound list"
  | Full "(GlassPieceId \<times> GlassPieceSnapshot) list" "DestructibleLoopSound list"

record WorldObjectUpdate =
  wu_as_of_ms :: "32 word"
  wu_map_round_epoch :: u32
  wu_fracture_profile_version :: u32
  wu_change :: WorldObjectChange

definition get_change :: "u8 \<Rightarrow> (WireReader, WireError, WorldObjectChange) rd" where
  "get_change tag =
     (if tag = 0 then rd_return Unchanged
      else if tag = 1 \<or> tag = 3 then
        rd_bind get_u16 (\<lambda>glass_changed. rd_bind (rd_repeat (unat glass_changed) get_glass_row) (\<lambda>changed.
        rd_bind get_u16 (\<lambda>glass_removed. rd_bind (rd_repeat (unat glass_removed) get_u32) (\<lambda>removed.
        rd_bind (decode_destructible_loop_sounds (3 \<le> tag)) (\<lambda>loops.
        rd_return (Delta \<lparr>pd_changed = changed, pd_removed = removed\<rparr> loops))))))
      else if tag = 2 \<or> tag = 4 then
        rd_bind get_u16 (\<lambda>glass_count. rd_bind (rd_repeat (unat glass_count) get_glass_row) (\<lambda>glass.
        rd_bind (decode_destructible_loop_sounds (3 \<le> tag)) (\<lambda>loops. rd_return (Full glass loops))))
      else rd_lift (Inl (WireMalformed ''unknown world object sync tag'')))"

definition decode_world_object_sync :: "(WireReader, WireError, WorldObjectUpdate) rd" where
  "decode_world_object_sync = rd_bind get_i32 (\<lambda>as_of_ms. rd_bind get_u32 (\<lambda>epoch. rd_bind get_u32 (\<lambda>version.
     rd_bind get_u8 (\<lambda>tag. rd_bind (get_change tag) (\<lambda>change.
     rd_return \<lparr>wu_as_of_ms = as_of_ms, wu_map_round_epoch = epoch, wu_fracture_profile_version = version, wu_change = change\<rparr>)))))"

definition decode_sync :: "bytes \<Rightarrow> WireError + WorldObjectUpdate" where
  "decode_sync wire = res_bind (decode_world_object_sync (wr_new wire)) (\<lambda>(update, input).
     if \<not> wr_is_empty input then Inl (WireMalformed ''trailing bytes after world object sync'') else Inr update)"

section \<open>Encoder and decoder\<close>

abbreviation (input) WORLD_SYNC_PERIOD_TICKS :: u32 where "WORLD_SYNC_PERIOD_TICKS \<equiv> 200"

definition snapshot_default :: WorldObjectSnapshot where
  "snapshot_default = \<lparr>ws_as_of_ms = 0, ws_map_round_epoch = 0, ws_fracture_profile_version = 0, ws_glass_pieces = [], ws_destructible_loop_sounds = []\<rparr>"

record WorldObjectSyncEncoder =
  se_baseline :: WorldObjectSnapshot
  se_force_full :: bool

definition encoder_reset :: "WorldObjectSyncEncoder \<Rightarrow> WorldObjectSyncEncoder" where
  "encoder_reset e = e\<lparr>se_baseline := snapshot_default, se_force_full := True\<rparr>"

definition encoder_adopt_baseline :: "WorldObjectSyncEncoder \<Rightarrow> WorldObjectSnapshot \<Rightarrow> WorldObjectSyncEncoder" where
  "encoder_adopt_baseline e baseline = e\<lparr>se_baseline := baseline, se_force_full := False\<rparr>"

definition sync_encode :: "WorldObjectSyncEncoder \<Rightarrow> u32 \<Rightarrow> WorldObjectSnapshot \<Rightarrow> (bytes \<times> WorldObjectSyncEncoder) option" where
  "sync_encode e tick current =
     (let full = se_force_full e \<or> tick mod WORLD_SYNC_PERIOD_TICKS = 0 in
      map_option (\<lambda>(wire, content_changed).
        (wire, \<lparr>se_baseline = (if content_changed then current
           else (se_baseline e)\<lparr>ws_as_of_ms := ws_as_of_ms current, ws_map_round_epoch := ws_map_round_epoch current,
             ws_fracture_profile_version := ws_fracture_profile_version current\<rparr>), se_force_full = False\<rparr>))
      (encode_sync (se_baseline e) current full))"

record WorldObjectSyncDecoder =
  sd_state :: WorldObjectSnapshot

definition decoder_reset :: "WorldObjectSyncDecoder \<Rightarrow> WorldObjectSyncDecoder" where
  "decoder_reset d = d\<lparr>sd_state := snapshot_default\<rparr>"

definition decoder_adopt_baseline :: "WorldObjectSyncDecoder \<Rightarrow> WorldObjectSnapshot \<Rightarrow> WorldObjectSyncDecoder" where
  "decoder_adopt_baseline d baseline = d\<lparr>sd_state := baseline\<rparr>"

definition update_apply :: "WorldObjectUpdate \<Rightarrow> WorldObjectSnapshot \<Rightarrow> WorldObjectSnapshot" where
  "update_apply u st =
     (let st1 = st\<lparr>ws_as_of_ms := wu_as_of_ms u, ws_map_round_epoch := wu_map_round_epoch u,
        ws_fracture_profile_version := wu_fracture_profile_version u\<rparr>
      in case wu_change u of
        Unchanged \<Rightarrow> st1
      | Delta glass loops \<Rightarrow> st1\<lparr>ws_glass_pieces := apply_pair_delta (ws_glass_pieces st1) glass, ws_destructible_loop_sounds := loops\<rparr>
      | Full glass loops \<Rightarrow> st1\<lparr>ws_glass_pieces := glass, ws_destructible_loop_sounds := loops\<rparr>)"

definition decoder_apply :: "WorldObjectSyncDecoder \<Rightarrow> WorldObjectUpdate \<Rightarrow> WorldObjectSnapshot \<times> WorldObjectSyncDecoder" where
  "decoder_apply d u = (let st = update_apply u (sd_state d) in (st, d\<lparr>sd_state := st\<rparr>))"

definition apply_wire :: "WorldObjectSyncDecoder \<Rightarrow> bytes \<Rightarrow> WireError + (WorldObjectSnapshot \<times> WorldObjectSyncDecoder)" where
  "apply_wire d wire = res_bind (decode_sync wire) (\<lambda>update. Inr (decoder_apply d update))"

section \<open>A difference leads from one table to the other\<close>

lemma map_of_list_update:
  assumes "distinct (map fst t)" and "i < length t" and "fst (t ! i) = k"
  shows "map fst (t[i := (k, v)]) = map fst t" and "map_of (t[i := (k, v)]) = (map_of t)(k \<mapsto> v)"
proof -
  show m: "map fst (t[i := (k, v)]) = map fst t" 
    using assms(2,3) list_update_id [of "map fst t" i] by (simp add: map_update)
  show "map_of (t[i := (k, v)]) = (map_of t)(k \<mapsto> v)"
  proof
    fix j
    have s: "set (t[i := (k, v)]) = insert (k, v) (set t - {t ! i})"
      using assms(1,2) by (intro set_update_distinct) (auto simp: distinct_map)
    have d: "distinct (map fst (t[i := (k, v)]))" using m assms(1) by simp
    show "map_of (t[i := (k, v)]) j = ((map_of t)(k \<mapsto> v)) j"
    proof (cases "j = k")
      case True
      with map_of_eq_Some_iff [OF d, of k v] s show ?thesis by simp
    next
      case False
      have "map_of (t[i := (k, v)]) j = Some w \<longleftrightarrow> map_of t j = Some w" for w
        using False assms(3) unfolding map_of_eq_Some_iff [OF d] map_of_eq_Some_iff [OF assms(1)] s by (auto simp: prod_eq_iff)
      with False show ?thesis by (metis fun_upd_apply not_Some_eq)
    qed
  qed
qed

text \<open>The table during the loop: its first rows keep their keys, the others are those recorded as added.\<close>

definition change_ok :: "nat \<Rightarrow> 'k::linorder list \<Rightarrow> ('k \<times> 'v) list \<times> ('k \<rightharpoonup> nat) \<Rightarrow> bool" where
  "change_ok existing ks = (\<lambda>(table, added). length ks = existing \<and> take existing (map fst table) = ks \<and> distinct (map fst table)
     \<and> existing \<le> length table
     \<and> (\<forall>k i. added k = Some i \<longleftrightarrow> existing \<le> i \<and> i < length table \<and> fst (table ! i) = k))"

lemma partition_point_key:
  assumes "sorted ks" and "distinct ks"
  shows "k \<in> set ks \<longleftrightarrow> partition_point (\<lambda>key. key < k) ks < length ks \<and> ks ! partition_point (\<lambda>key. key < k) ks = k"
proof
  assume "k \<in> set ks"
  with assms show "partition_point (\<lambda>key. key < k) ks < length ks \<and> ks ! partition_point (\<lambda>key. key < k) ks = k"
    unfolding partition_point_def by (induction ks) (auto simp: not_less)
next
  assume "partition_point (\<lambda>key. key < k) ks < length ks \<and> ks ! partition_point (\<lambda>key. key < k) ks = k"
  then show "k \<in> set ks" by (metis nth_mem)
qed

lemma apply_change_step:
  assumes ok: "change_ok existing ks (table, added)" and ks: "sorted ks" "distinct ks"
  shows "change_ok existing ks (apply_change existing (k, v) (table, added))"
    and "map_of (fst (apply_change existing (k, v) (table, added))) = (map_of table)(k \<mapsto> v)"
proof -
  let ?index = "partition_point (\<lambda>(key, _). key < k) (take existing table)"
  from ok have d: "distinct (map fst table)" and l: "existing \<le> length table" "length ks = existing"
    and t: "map fst (take existing table) = ks"
    and a: "\<And>k i. added k = Some i \<longleftrightarrow> existing \<le> i \<and> i < length table \<and> fst (table ! i) = k"
    by (auto simp: change_ok_def take_map)
  have p: "?index = partition_point (\<lambda>key. key < k) ks"
    unfolding partition_point_def t [symmetric] takeWhile_map by (simp add: comp_def case_prod_unfold)
  have hit: "?index < existing \<and> fst (table ! ?index) = k \<longleftrightarrow> k \<in> set ks"
  proof -
    have "fst (table ! n) = ks ! n" if "n < existing" for n unfolding t [symmetric] using that l by simp
    then show ?thesis unfolding partition_point_key [OF ks] p using l(2) by auto
  qed
  have upd: "change_ok existing ks (table[i := (k, v)], added) \<and> map_of (table[i := (k, v)]) = (map_of table)(k \<mapsto> v)"
    if "i < length table" "fst (table ! i) = k" for i
    using map_of_list_update [OF d that] ok that
    by (auto simp: change_ok_def nth_list_update split: if_splits)
  have "change_ok existing ks (apply_change existing (k, v) (table, added))
    \<and> map_of (fst (apply_change existing (k, v) (table, added))) = (map_of table)(k \<mapsto> v)"
  proof (cases "k \<in> set ks")
    case True
    with upd [of ?index] hit l show ?thesis by (simp add: apply_change_def Let_def)
  next
    case False
    show ?thesis
    proof (cases "added k")
      case (Some i)
      with a [of k i] upd [of i] False hit show ?thesis by (auto simp: apply_change_def Let_def)
    next
      case None
      have new: "k \<notin> fst ` set table"
      proof
        assume "k \<in> fst ` set table"
        then obtain i where i: "i < length table" "fst (table ! i) = k" by (auto simp: in_set_conv_nth)
        show False
        proof (cases "i < existing")
          case True
          then have "k \<in> set ks" unfolding t [symmetric] using i l by (force simp: in_set_conv_nth)
          with False show False by simp
        next
          case False
          with a [of k i] i None show False by simp
        qed
      qed
      have "map_of (table @ [(k, v)]) = (map_of table)(k \<mapsto> v)"
        using new by (simp add: map_add_upd_left dom_map_of_conv_image_fst)
      moreover have "change_ok existing ks (table @ [(k, v)], added(k \<mapsto> length table))"
        using ok new None by (auto simp: change_ok_def nth_append less_Suc_eq)
      ultimately show ?thesis using False hit None by (auto simp: apply_change_def Let_def)
    qed
  qed
  then show "change_ok existing ks (apply_change existing (k, v) (table, added))"
    "map_of (fst (apply_change existing (k, v) (table, added))) = (map_of table)(k \<mapsto> v)" by auto
qed

lemma apply_changes:
  assumes "change_ok existing ks ta" and "sorted ks" and "distinct ks"
  shows "change_ok existing ks (fold (apply_change existing) kvs ta)
    \<and> map_of (fst (fold (apply_change existing) kvs ta)) = map_of (fst ta) ++ map_of (rev kvs)"
  using assms(1)
proof (induction kvs arbitrary: ta)
  case (Cons kv kvs)
  obtain k v where kv: "kv = (k, v)" by (cases kv)
  obtain table added where ta: "ta = (table, added)" by (cases ta)
  note s = apply_change_step [OF Cons.prems [unfolded ta] assms(2,3), of k v]
  have "map_of table ++ map_of (rev (kv # kvs)) = (map_of table)(k \<mapsto> v) ++ map_of (rev kvs)"
    by (simp add: kv map_add_upd_left [symmetric])
  with Cons.IH [OF s(1)] show ?case unfolding s(2) by (simp add: kv ta fun_upd_def)
qed simp

text \<open>Applied to a sorted table, a difference removes, changes and adds exactly what it names.\<close>

lemma apply_pair_delta_map:
  fixes table :: "('k::linorder \<times> 'v) list"
  assumes "table_ok table"
  shows "table_ok (apply_pair_delta table delta)"
    and "map_of (apply_pair_delta table delta) = (map_of table |` (- set (pd_removed delta))) ++ map_of (rev (pd_changed delta))"
proof -
  let ?kept = "if pd_removed delta \<noteq> [] then filter (\<lambda>(key, _). key \<notin> set (pd_removed delta)) table else table"
  have f: "?kept = filter (\<lambda>(key, _). key \<notin> set (pd_removed delta)) table" by (simp add: filter_id_conv case_prod_unfold)
  have k: "table_ok ?kept" using assms unfolding f table_ok_iff by (auto simp: distinct_map_filter sorted_filter)
  have s: "sort_key fst ?kept = ?kept" using sort_pairs_ok [OF k] by (simp add: sort_pairs_def)
  have "map_of ?kept = map_of table |` (- set (pd_removed delta))"
    unfolding f by (induction table) (auto simp: restrict_map_def fun_eq_iff)
  moreover have i: "change_ok (length ?kept) (map fst ?kept) (?kept, Map.empty)"
    using k by (auto simp: change_ok_def table_ok_iff)
  note c = apply_changes [OF i, of "pd_changed delta"]
  ultimately have r: "distinct (map fst (fst (fold (apply_change (length ?kept)) (pd_changed delta) (?kept, Map.empty))))"
    "map_of (fst (fold (apply_change (length ?kept)) (pd_changed delta) (?kept, Map.empty))) = (map_of table |` (- set (pd_removed delta))) ++ map_of (rev (pd_changed delta))"
    using c k by (auto simp: change_ok_def table_ok_iff split: prod.splits)
  show "table_ok (apply_pair_delta table delta)"
    unfolding apply_pair_delta_def Let_def s by (rule table_ok_sort [OF r(1)])
  show "map_of (apply_pair_delta table delta) = (map_of table |` (- set (pd_removed delta))) ++ map_of (rev (pd_changed delta))"
    unfolding apply_pair_delta_def Let_def s by (simp only: map_of_sort_key [OF r(1)] r(2))
qed

lemma table_rev_map_of: "table_ok t \<Longrightarrow> map_of (rev t) = map_of t"
  by (subst map_of_inject_set) (simp_all only: table_ok_iff set_rev rev_map [symmetric] distinct_rev)

lemma pair_delta_leads:
  fixes base current :: "('k::linorder \<times> 'v) list"
  assumes "table_ok base" and "table_ok current"
  shows "apply_pair_delta base (pair_delta base current) = current"
proof (rule table_eqI)
  let ?d = "pair_delta base current" and ?P = "\<lambda>(k, v). map_of base k \<noteq> Some v"
  show "table_ok (apply_pair_delta base ?d)" by (rule apply_pair_delta_map [OF assms(1)])
  have "table_ok (filter ?P current)" using assms(2) unfolding table_ok_iff by (auto simp: distinct_map_filter sorted_filter)
  from this sort_pairs_ok [OF this] have c: "table_ok (pd_changed ?d)" "pd_changed ?d = filter ?P current"
    by (simp_all add: pair_delta_def Let_def table_rev_map_of [OF assms(1)] sort_pairs_def)
  have r: "k \<in> set (pd_removed ?d) \<longleftrightarrow> map_of current k = None \<and> map_of base k \<noteq> None" for k
    by (auto simp: pair_delta_def Let_def table_rev_map_of [OF assms(2)] map_of_eq_None_iff)
  have "map_of (pd_changed ?d) k = (case map_of current k of None \<Rightarrow> None | Some v \<Rightarrow> if map_of base k = Some v then None else Some v)" for k
    unfolding c(2) using assms(2) unfolding table_ok_iff
    by (induction current) (auto split: option.splits dest: map_of_SomeD simp: map_of_eq_None_iff)
  then show "map_of (apply_pair_delta base ?d) = map_of current"
    unfolding apply_pair_delta_map(2) [OF assms(1)] table_rev_map_of [OF c(1)]
    by (auto simp: fun_eq_iff map_add_def restrict_map_def r split: option.splits if_splits)
qed (rule assms(2))

section \<open>Reading what was sent\<close>

definition seed_ok :: "GlassPieceSnapshot \<Rightarrow> bool" where
  "seed_ok row \<longleftrightarrow> (case gp_shatter_seed row of None \<Rightarrow> True
     | Some seed \<Rightarrow> gp_state row = Shattered \<and> seed_new (gs_impact_dir seed) (gs_impact_pos seed) = Some seed)"

definition loop_ok :: "DestructibleLoopSound \<Rightarrow> bool" where
  "loop_ok row \<longleftrightarrow> (case ls_snd_ent row of None \<Rightarrow> True | Some n \<Rightarrow> n \<le> 0x7fffffff)"

text \<open>Snapshots that can be sent: sorted, within the counts, with seeds and entities that are accepted.\<close>

definition sync_ok :: "WorldObjectSnapshot \<Rightarrow> bool" where
  "sync_ok s \<longleftrightarrow> table_ok (ws_glass_pieces s) \<and> length (ws_glass_pieces s) < 2 ^ 16 \<and> list_all (\<lambda>(k, row). seed_ok row) (ws_glass_pieces s)
     \<and> length (ws_destructible_loop_sounds s) < 2 ^ 16 \<and> list_all loop_ok (ws_destructible_loop_sounds s)"

lemma tags_known [simp]: "state_from_u8 (state_as_u8 s) = Some s" "cause_from_u8 (cause_as_u8 c) = Some c"
  by (cases s; simp add: state_from_u8_def) (cases c; simp add: cause_from_u8_def)

lemma glass_lifts:
  "reads pos (f s) w y \<Longrightarrow> reads pos (rd_bind (rd_lift (ok_or e (state_from_u8 (state_as_u8 s)))) f) w y"
  "reads pos (g c) w y \<Longrightarrow> reads pos (rd_bind (rd_lift (ok_or e (cause_from_u8 (cause_as_u8 c)))) g) w y"
  by (simp_all add: reads_bind_none)

lemma shatter_seed_reads:
  assumes "seed_ok row"
  shows "reads wr_pos (get_shatter_seed (gp_state row)) (case gp_shatter_seed row of None \<Rightarrow> concat [put_u8 0]
    | Some seed \<Rightarrow> concat [put_u8 1, put_u8 (gs_impact_dir seed), put_u8 (fst (gs_impact_pos seed)), put_u8 (snd (gs_impact_pos seed))])
    (gp_shatter_seed row)"
proof (cases "gp_shatter_seed row")
  case None
  show ?thesis unfolding None get_shatter_seed_def option.case
    by (rule reads_Cons, rule get_reads, simp del: concat.simps, rule fields)
next
  case (Some seed)
  with assms have s: "gp_state row = Shattered" "seed_new (gs_impact_dir seed) (fst (gs_impact_pos seed), snd (gs_impact_pos seed)) = Some seed"
    by (auto simp: seed_ok_def)
  show ?thesis unfolding Some get_shatter_seed_def option.case s(1)
    by (rule reads_Cons, rule get_reads, simp del: concat.simps, (rule reads_Cons, rule get_reads)+,
        simp only: s(2) ok_or_simps, rule reads_bind_none, rule fields)
qed

lemma glass_piece_reads:
  assumes "seed_ok row"
  shows "\<exists>bs. encode_glass_piece_snapshot row = Some bs \<and> reads wr_pos decode_glass_piece_snapshot bs row"
proof -
  let ?tail = "case gp_shatter_seed row of None \<Rightarrow> concat [put_u8 0]
    | Some seed \<Rightarrow> concat [put_u8 1, put_u8 (gs_impact_dir seed), put_u8 (fst (gs_impact_pos seed)), put_u8 (snd (gs_impact_pos seed))]"
  let ?head = "[put_u8 (state_as_u8 (gp_state row)), put_u32 (gp_revision row), put_i32 (gp_last_state_change_time row),
    put_u8 (cause_as_u8 (gp_cause row)), put_u64 (gp_deterministic_seed row)]"
  have "encode_glass_piece_snapshot row = Some (concat (?head @ [?tail]))"
    using assms by (auto simp: encode_glass_piece_snapshot_def seed_ok_def Let_def split: option.splits)
  moreover have "reads wr_pos decode_glass_piece_snapshot (concat (?head @ [?tail])) row"
    unfolding decode_glass_piece_snapshot_def append_Cons append_Nil
    by (rule reads_eqI, (rule glass_lifts fields get_reads shatter_seed_reads [OF assms])+) simp
  ultimately show ?thesis by blast
qed

definition row_bytes :: "GlassPieceId \<times> GlassPieceSnapshot \<Rightarrow> bytes" where
  "row_bytes kr = concat [put_u32 (fst kr), the (encode_glass_piece_snapshot (snd kr))]"

lemma glass_row_reads: "seed_ok (snd kr) \<Longrightarrow> reads wr_pos get_glass_row (row_bytes kr) kr"
  unfolding get_glass_row_def row_bytes_def
  by (rule reads_eqI, rule reads_Cons, rule get_reads, rule reads_Cons) (use glass_piece_reads in \<open>fastforce intro: reads_Nil\<close>)+

lemma encode_glass_rows_ok:
  assumes "list_all (\<lambda>(k, row). seed_ok row) rows"
  shows "encode_glass_rows rows = Some (concat [put_u16 (of_nat (length rows)), concat (map row_bytes rows)])"
proof -
  have "those (map encode_glass_row rows) = Some (map row_bytes rows)"
    using assms
  proof (induction rows)
    case (Cons r rows)
    with glass_piece_reads [of "snd r"] show ?case
      by (auto simp: encode_glass_row_def row_bytes_def split: prod.splits)
  qed simp
  then show ?thesis by (simp add: encode_glass_rows_def)
qed

lemma loop_reads: "loop_ok row \<Longrightarrow> reads wr_pos (get_loop_sound True) (put_loop_sound row) row"
proof -
  assume ok: "loop_ok row"
  have e: "reads wr_pos (get_loop_entity True) (put_u32 (case ls_snd_ent row of None \<Rightarrow> 0xffffffff | Some n \<Rightarrow> n)) (ls_snd_ent row)"
  proof (cases "ls_snd_ent row")
    case None
    show ?thesis unfolding None get_loop_entity_def option.case if_True
      by (rule reads_bind_last, rule get_reads, simp add: reads_return)
  next
    case (Some n)
    with ok have "n \<le> 0x7fffffff" by (simp add: loop_ok_def)
    then have n: "n \<le> 0x7fffffff" "n \<noteq> 0xffffffff" by (auto simp: word_le_nat_alt)
    show ?thesis unfolding Some get_loop_entity_def option.case if_True
      by (rule reads_bind_last, rule get_reads) (simp add: n reads_return)
  qed
  show ?thesis unfolding get_loop_sound_def put_loop_sound_def
    by (rule reads_eqI, (rule fields get_reads e vector_reads)+) (cases row, simp)
qed

lemma loops_reads:
  assumes "length rows < 2 ^ 16" and "list_all loop_ok rows"
  shows "reads wr_pos (decode_destructible_loop_sounds True) (encode_destructible_loop_sounds rows) rows"
proof -
  have "reads wr_pos (rd_repeat (unat (of_nat (length rows) :: u16)) (get_loop_sound True)) (concat (map put_loop_sound rows)) rows"
    using assms by (intro counted_reads loop_reads) (auto simp: list_all_iff)
  then show ?thesis
    unfolding decode_destructible_loop_sounds_def encode_destructible_loop_sounds_def by - (rule reads_Cons, rule get_reads, simp)
qed

definition put_update_head :: "WorldObjectSnapshot \<Rightarrow> bytes list" where
  "put_update_head s = [put_i32 (ws_as_of_ms s), put_u32 (ws_map_round_epoch s), put_u32 (ws_fracture_profile_version s)]"

definition update_of :: "WorldObjectSnapshot \<Rightarrow> WorldObjectChange \<Rightarrow> WorldObjectUpdate" where
  "update_of s change = \<lparr>wu_as_of_ms = ws_as_of_ms s, wu_map_round_epoch = ws_map_round_epoch s,
     wu_fracture_profile_version = ws_fracture_profile_version s, wu_change = change\<rparr>"

lemma decode_sync_reads:
  assumes "reads wr_pos (get_change tag) bs change"
  shows "decode_sync (concat (put_update_head s @ [put_u8 tag, bs])) = Inr (update_of s change)"
proof -
  have "reads wr_pos decode_world_object_sync (concat (put_update_head s @ [put_u8 tag, bs])) (update_of s change)"
    unfolding decode_world_object_sync_def put_update_head_def append_Cons append_Nil update_of_def
    by (rule reads_eqI, (rule fields get_reads assms)+) simp
  from readsD [OF this, of "wr_new _" "[]"] wrd.pos_new obtain r' where
    "decode_world_object_sync (wr_new (concat (put_update_head s @ [put_u8 tag, bs]))) = Inr (update_of s change, r')" "wr_pos r' []"
    by (metis append_Nil2)
  then show ?thesis by (simp add: decode_sync_def wr_is_empty_iff)
qed

lemma full_reads:
  assumes "sync_ok s"
  shows "\<exists>bs. encode_world_object_full s = Some bs
    \<and> reads wr_pos (get_change 4) bs (Full (ws_glass_pieces s) (ws_destructible_loop_sounds s))"
proof -
  from assms have ok: "length (ws_glass_pieces s) < 2 ^ 16" "list_all (\<lambda>(k, row). seed_ok row) (ws_glass_pieces s)"
    "length (ws_destructible_loop_sounds s) < 2 ^ 16" "list_all loop_ok (ws_destructible_loop_sounds s)" by (auto simp: sync_ok_def)
  have rows: "reads wr_pos (rd_repeat (unat (of_nat (length (ws_glass_pieces s)) :: u16)) get_glass_row) (concat (map row_bytes (ws_glass_pieces s))) (ws_glass_pieces s)"
    using ok by (intro counted_reads glass_row_reads) (auto simp: list_all_iff)
  have "reads wr_pos (get_change 4) (concat [put_u16 (of_nat (length (ws_glass_pieces s))), concat (map row_bytes (ws_glass_pieces s)),
      encode_destructible_loop_sounds (ws_destructible_loop_sounds s)]) (Full (ws_glass_pieces s) (ws_destructible_loop_sounds s))"
    unfolding get_change_def using loops_reads [OF ok(3,4)]
    by (simp del: concat.simps) (rule reads_Cons, rule get_reads, rule reads_Cons, rule rows, rule reads_Cons, assumption, rule reads_Nil)
  then show ?thesis using encode_glass_rows_ok [OF ok(2)] by (simp add: encode_world_object_full_def)
qed

lemma delta_reads:
  assumes "sync_ok b" and "sync_ok s"
  shows "\<exists>bs. encode_world_object_delta b s = Some bs
    \<and> reads wr_pos (get_change 3) bs (Delta (world_object_delta b s) (ws_destructible_loop_sounds s))"
proof -
  let ?d = "world_object_delta b s"
  from assms have ok: "length (ws_destructible_loop_sounds s) < 2 ^ 16" "list_all loop_ok (ws_destructible_loop_sounds s)"
    by (auto simp: sync_ok_def)
  have "length (pd_changed ?d) \<le> length (ws_glass_pieces s)" "length (pd_removed ?d) \<le> length (ws_glass_pieces b)"
    using length_filter_le [of _ "map fst (ws_glass_pieces b)"] by (auto simp: world_object_delta_def pair_delta_def Let_def)
  with assms have len: "length (pd_changed ?d) < 2 ^ 16" "length (pd_removed ?d) < 2 ^ 16" by (auto simp: sync_ok_def)
  have seeds: "list_all (\<lambda>(k, row). seed_ok row) (pd_changed ?d)"
    using assms(2) by (auto simp: sync_ok_def list_all_iff world_object_delta_def pair_delta_def Let_def)
  have rows: "reads wr_pos (rd_repeat (unat (of_nat (length (pd_changed ?d)) :: u16)) get_glass_row) (concat (map row_bytes (pd_changed ?d))) (pd_changed ?d)"
    using len seeds by (intro counted_reads glass_row_reads) (auto simp: list_all_iff)
  have removed: "reads wr_pos (rd_repeat (unat (of_nat (length (pd_removed ?d)) :: u16)) get_u32) (concat (map put_u32 (pd_removed ?d))) (pd_removed ?d)"
    using len by (intro counted_reads get_reads) auto
  have "reads wr_pos (get_change 3) (concat [put_u16 (of_nat (length (pd_changed ?d))), concat (map row_bytes (pd_changed ?d)),
      put_u16 (of_nat (length (pd_removed ?d))), concat (map put_u32 (pd_removed ?d)),
      encode_destructible_loop_sounds (ws_destructible_loop_sounds s)]) (Delta ?d (ws_destructible_loop_sounds s))"
    unfolding get_change_def using loops_reads [OF ok]
    by (simp del: concat.simps) (rule reads_eqI, rule reads_Cons, rule get_reads, rule reads_Cons, rule rows, rule reads_Cons, rule get_reads,
        rule reads_Cons, rule removed, rule reads_Cons, assumption, rule reads_Nil, simp)
  then show ?thesis using encode_glass_rows_ok [OF seeds] by (simp add: encode_world_object_delta_def Let_def)
qed

section \<open>Staying in step\<close>

text \<open>Equal up to the equality of floating-point numbers, which the encoder uses to detect changes.\<close>

definition same_world :: "WorldObjectSnapshot \<Rightarrow> WorldObjectSnapshot \<Rightarrow> bool" where
  "same_world a b \<longleftrightarrow> ws_as_of_ms a = ws_as_of_ms b \<and> ws_map_round_epoch a = ws_map_round_epoch b
     \<and> ws_fracture_profile_version a = ws_fracture_profile_version b \<and> ws_glass_pieces a = ws_glass_pieces b
     \<and> (ws_destructible_loop_sounds a = ws_destructible_loop_sounds b
        \<or> list_all2 loop_eq (ws_destructible_loop_sounds a) (ws_destructible_loop_sounds b))"

definition in_step :: "WorldObjectSyncEncoder \<Rightarrow> WorldObjectSyncDecoder \<Rightarrow> bool" where
  "in_step e d \<longleftrightarrow> se_force_full e \<or> (se_baseline e = sd_state d \<and> sync_ok (se_baseline e))"

lemma pair_delta_empty:
  assumes "table_ok base" and "table_ok current" and "pd_is_empty (pair_delta base current)"
  shows "base = current"
proof -
  from assms(3) have "pair_delta base current = \<lparr>pd_changed = [], pd_removed = []\<rparr>"
    by (cases "pair_delta base current") (simp add: pd_is_empty_def)
  then have "apply_pair_delta base (pair_delta base current) = base"
    using sort_pairs_ok [OF assms(1)] by (simp add: apply_pair_delta_def Let_def sort_pairs_def)
  with pair_delta_leads [OF assms(1,2)] show ?thesis by simp
qed

lemma apply_wire_update: "decode_sync wire = Inr u \<Longrightarrow> apply_wire d wire = Inr (update_apply u (sd_state d), d\<lparr>sd_state := update_apply u (sd_state d)\<rparr>)"
  by (simp add: apply_wire_def decoder_apply_def Let_def)

lemma full_step:
  assumes "se_force_full e \<or> tick mod WORLD_SYNC_PERIOD_TICKS = 0" and "sync_ok s"
  shows "\<exists>wire. sync_encode e tick s = Some (wire, \<lparr>se_baseline = s, se_force_full = False\<rparr>) \<and> apply_wire d wire = Inr (s, d\<lparr>sd_state := s\<rparr>)"
proof -
  from full_reads [OF assms(2)] obtain bs where bs: "encode_world_object_full s = Some bs"
    "reads wr_pos (get_change 4) bs (Full (ws_glass_pieces s) (ws_destructible_loop_sounds s))" by blast
  have "update_apply (update_of s (Full (ws_glass_pieces s) (ws_destructible_loop_sounds s))) (sd_state d) = s"
    by (simp add: update_apply_def update_of_def)
  with apply_wire_update [OF decode_sync_reads [OF bs(2), of s], of d] assms(1) bs(1) show ?thesis
    by (simp add: sync_encode_def encode_sync_def put_update_head_def)
qed

lemma sync_step:
  assumes "in_step e d \<or> tick mod WORLD_SYNC_PERIOD_TICKS = 0" and s: "sync_ok s"
  shows "\<exists>wire e' d' snap. sync_encode e tick s = Some (wire, e') \<and> apply_wire d wire = Inr (snap, d')
    \<and> in_step e' d' \<and> sd_state d' = snap \<and> same_world snap s"
proof (cases "se_force_full e \<or> tick mod WORLD_SYNC_PERIOD_TICKS = 0")
  case True
  from full_step [OF this s, of d] s show ?thesis by (auto simp: in_step_def same_world_def)
next
  case False
  with assms(1) have b: "se_baseline e = sd_state d" "sync_ok (sd_state d)" by (auto simp: in_step_def)
  let ?b = "sd_state d"
  let ?same = "pd_is_empty (world_object_delta ?b s) \<and> list_all2 loop_eq (ws_destructible_loop_sounds ?b) (ws_destructible_loop_sounds s)"
  have t: "table_ok (ws_glass_pieces ?b)" "table_ok (ws_glass_pieces s)" using b(2) s by (simp_all add: sync_ok_def)
  show ?thesis
  proof (cases ?same)
    case True
    have "reads wr_pos (get_change 0) [] Unchanged" by (simp add: get_change_def reads_return)
    note u = apply_wire_update [OF decode_sync_reads [OF this, of s], of d]
    let ?n = "?b\<lparr>ws_as_of_ms := ws_as_of_ms s, ws_map_round_epoch := ws_map_round_epoch s, ws_fracture_profile_version := ws_fracture_profile_version s\<rparr>"
    have "ws_glass_pieces ?b = ws_glass_pieces s"
      using True pair_delta_empty [OF t] by (simp add: world_object_delta_def)
    moreover have "sync_ok ?n" using b(2) by (simp add: sync_ok_def)
    ultimately show ?thesis using True False u b
      by (simp add: sync_encode_def encode_sync_def put_update_head_def in_step_def same_world_def update_apply_def update_of_def)
  next
    case changed: False
    from delta_reads [OF b(2) s] obtain bs where bs: "encode_world_object_delta ?b s = Some bs"
      "reads wr_pos (get_change 3) bs (Delta (world_object_delta ?b s) (ws_destructible_loop_sounds s))" by blast
    have "update_apply (update_of s (Delta (world_object_delta ?b s) (ws_destructible_loop_sounds s))) ?b = s"
      using pair_delta_leads [OF t] by (simp add: update_apply_def update_of_def world_object_delta_def)
    with apply_wire_update [OF decode_sync_reads [OF bs(2), of s], of d]
    have a: "apply_wire d (concat (put_update_head s @ [put_u8 3, bs])) = Inr (s, d\<lparr>sd_state := s\<rparr>)" by simp
    have e: "sync_encode e tick s = Some (concat (put_update_head s @ [put_u8 3, bs]), \<lparr>se_baseline = s, se_force_full = False\<rparr>)"
    proof -
      have "encode_sync ?b s False = Some (concat (put_update_head s @ [put_u8 3, bs]), True)"
        unfolding encode_sync_def Let_def if_not_P [OF changed] by (simp add: bs(1) put_update_head_def)
      then show ?thesis using False by (simp add: sync_encode_def b(1))
    qed
    show ?thesis by (intro exI conjI, rule e, rule a) (simp_all add: in_step_def same_world_def s)
  qed
qed

text \<open>What a pair of encoder and decoder promises, and what follows for any number of messages.\<close>

locale synchroniser =
  fixes encode :: "'e \<Rightarrow> 'm \<Rightarrow> 's \<Rightarrow> ('w \<times> 'e) option"
    and receive :: "'d \<Rightarrow> 'w \<Rightarrow> 'x + ('s \<times> 'd)"
    and together :: "'e \<Rightarrow> 'd \<Rightarrow> bool"
    and sendable :: "'s \<Rightarrow> bool"
    and displays :: "'s \<Rightarrow> 's \<Rightarrow> bool"
  assumes follows: "together e d \<Longrightarrow> sendable s \<Longrightarrow> \<exists>wire e' d' snap. encode e m s = Some (wire, e')
    \<and> receive d wire = Inr (snap, d') \<and> together e' d' \<and> displays snap s"
begin

fun stays :: "'e \<Rightarrow> 'd \<Rightarrow> ('m \<times> 's) list \<Rightarrow> bool" where
  "stays e d [] \<longleftrightarrow> together e d"
| "stays e d ((m, s) # msgs) \<longleftrightarrow> (case encode e m s of None \<Rightarrow> False | Some (wire, e') \<Rightarrow>
     (case receive d wire of Inl x \<Rightarrow> False | Inr (snap, d') \<Rightarrow> displays snap s \<and> stays e' d' msgs))"

lemma stays_together: "together e d \<Longrightarrow> list_all (\<lambda>(m, s). sendable s) msgs \<Longrightarrow> stays e d msgs"
proof (induction msgs arbitrary: e d)
  case (Cons ms msgs)
  obtain m s where ms: "ms = (m, s)" by (cases ms)
  with follows [OF Cons.prems(1), of s m] Cons.prems(2) obtain wire e' d' snap where
    "encode e m s = Some (wire, e')" "receive d wire = Inr (snap, d')" "together e' d'" "displays snap s" by auto
  with Cons.IH [of e' d'] Cons.prems(2) show ?case by (simp add: ms)
qed simp

end

fun exchange :: "WorldObjectSyncEncoder \<Rightarrow> WorldObjectSyncDecoder \<Rightarrow> (u32 \<times> WorldObjectSnapshot) list
    \<Rightarrow> (WorldObjectSnapshot list \<times> WorldObjectSyncEncoder \<times> WorldObjectSyncDecoder) option" where
  "exchange e d [] = Some ([], e, d)"
| "exchange e d ((tick, s) # msgs) = (case sync_encode e tick s of None \<Rightarrow> None | Some (wire, e') \<Rightarrow>
     (case apply_wire d wire of Inl x \<Rightarrow> None | Inr (snap, d') \<Rightarrow>
       map_option (\<lambda>(snaps, e'', d''). (snap # snaps, e'', d'')) (exchange e' d' msgs)))"

interpretation ws: synchroniser sync_encode apply_wire in_step sync_ok same_world
  by unfold_locales (use sync_step in blast)

lemma exchange_stays:
  "ws.stays e d msgs \<Longrightarrow> \<exists>snaps e' d'. exchange e d msgs = Some (snaps, e', d') \<and> in_step e' d' \<and> list_all2 same_world snaps (map snd msgs)"
proof (induction msgs arbitrary: e d)
  case (Cons ms msgs)
  then show ?case by (cases ms) (fastforce split: option.splits sum.splits prod.splits)
qed simp

section \<open>The properties\<close>

text \<open>
  C27. The clients' world follows the server's. From an encoder and a decoder in step (both adopted
  the same baseline, or the encoder was reset), every sendable snapshot is encoded without a failed
  assertion and decoded without an error, and the decoder then shows that snapshot, whether it was
  sent in full, as a difference or as unchanged; they stay in step through any sequence of messages.
\<close>

theorem world_sync_follows:
  assumes "in_step e d" and "list_all (\<lambda>(tick, s). sync_ok s) msgs"
  shows "\<exists>snaps e' d'. exchange e d msgs = Some (snaps, e', d') \<and> in_step e' d' \<and> list_all2 same_world snaps (map snd msgs)"
  by (rule exchange_stays [OF ws.stays_together [OF assms]])

definition weakened_row :: GlassPieceSnapshot where
  "weakened_row = \<lparr>gp_state = Weakened, gp_revision = 1, gp_last_state_change_time = 50, gp_shatter_seed = None, gp_deterministic_seed = 0, gp_cause = Impact\<rparr>"

definition weakened_world :: WorldObjectSnapshot where
  "weakened_world = snapshot_default\<lparr>ws_glass_pieces := [(3, weakened_row), (8, weakened_row)]\<rparr>"

theorem world_sync_follows_witness:
  "\<exists>snaps e' d'. exchange \<lparr>se_baseline = snapshot_default, se_force_full = False\<rparr> \<lparr>sd_state = snapshot_default\<rparr>
      [(1, weakened_world), (2, weakened_world), (3, snapshot_default)] = Some (snaps, e', d')
    \<and> in_step e' d' \<and> list_all2 same_world snaps [weakened_world, weakened_world, snapshot_default]"
proof -
  have "sync_ok snapshot_default" "sync_ok weakened_world"
    by (simp_all add: sync_ok_def snapshot_default_def weakened_world_def table_ok_def seed_ok_def weakened_row_def)
  then show ?thesis
    using world_sync_follows [of "\<lparr>se_baseline = snapshot_default, se_force_full = False\<rparr>" "\<lparr>sd_state = snapshot_default\<rparr>"
        "[(1, weakened_world), (2, weakened_world), (3, snapshot_default)]"]
    by (simp add: in_step_def)
qed

text \<open>
  C30. A client that is out of step recovers: whatever encoder and decoder hold, the message of every
  200th tick, and the first after a reset, carries the whole state, and after it the two are in step
  and the decoder shows the snapshot exactly.
\<close>

theorem world_sync_recovers:
  assumes "se_force_full e \<or> tick mod WORLD_SYNC_PERIOD_TICKS = 0" and "sync_ok s"
  shows "\<exists>wire e'. sync_encode e tick s = Some (wire, e') \<and> apply_wire d wire = Inr (s, d\<lparr>sd_state := s\<rparr>) \<and> in_step e' (d\<lparr>sd_state := s\<rparr>)"
  using full_step [OF assms, of d] assms(2) by (auto simp: in_step_def)

theorem world_sync_recovers_witness:
  "\<exists>wire e'. sync_encode \<lparr>se_baseline = weakened_world, se_force_full = False\<rparr> 400 snapshot_default = Some (wire, e')
    \<and> apply_wire \<lparr>sd_state = weakened_world\<lparr>ws_map_round_epoch := 5\<rparr>\<rparr> wire = Inr (snapshot_default, \<lparr>sd_state = snapshot_default\<rparr>)
    \<and> in_step e' \<lparr>sd_state = snapshot_default\<rparr>"
  using world_sync_recovers [of "\<lparr>se_baseline = weakened_world, se_force_full = False\<rparr>" 400 snapshot_default "\<lparr>sd_state = weakened_world\<lparr>ws_map_round_epoch := 5\<rparr>\<rparr>"]
  by (simp add: sync_ok_def snapshot_default_def table_ok_def)

end
