(* ===== verification/Reliable_Queue.thy ===== *)
theory Reliable_Queue
  imports Rust_Std
begin

text \<open>
  Rows that must reach a client: \<^verbatim>\<open>crates/net/src/transport/reliable.rs\<close>. Each client has a queue of
  at most 64 rows with 16-bit sequence numbers that skip 0 and wrap around; an acknowledgement drops
  the rows up to it. Rows other than action outcomes are sounds, menus, events and the like; the
  queue does not look at them, so they are a type parameter.
\<close>

abbreviation (input) MAX_PENDING_RELIABLE :: nat where "MAX_PENDING_RELIABLE \<equiv> 64"

datatype ActionVerdict = Applied | Accepted | Refused | PayloadMismatch | Expired

fun verdict_tag :: "ActionVerdict \<Rightarrow> u8" where
  "verdict_tag Applied = 0" | "verdict_tag Accepted = 4" | "verdict_tag Refused = 1"
| "verdict_tag PayloadMismatch = 2" | "verdict_tag Expired = 3"

definition verdict_from_tag :: "u8 \<Rightarrow> ActionVerdict option" where
  "verdict_from_tag tag = (if tag = 0 then Some Applied else if tag = 4 then Some Accepted else if tag = 1 then Some Refused
     else if tag = 2 then Some PayloadMismatch else if tag = 3 then Some Expired else None)"

datatype 'p ReliableRow = Row 'p | ActionOutcome u32 ActionVerdict

record 'p ReliableEventQueue =
  rq_next_seq :: u16
  rq_ack_through :: u16
  rq_pending :: "(u16 \<times> 'p ReliableRow) list"
  rq_dropped_oldest :: u32

definition queue_new :: "'p ReliableEventQueue" where
  "queue_new = \<lparr>rq_next_seq = 1, rq_ack_through = 0, rq_pending = [], rq_dropped_oldest = 0\<rparr>"

definition saturating_succ :: "u32 \<Rightarrow> u32" where
  "saturating_succ n = (if n = 0xffffffff then n else n + 1)"

definition push_row :: "'p ReliableRow \<Rightarrow> 'p ReliableEventQueue \<Rightarrow> u16 \<times> 'p ReliableEventQueue" where
  "push_row row q =
     (if MAX_PENDING_RELIABLE \<le> length (rq_pending q)
      then (0, q\<lparr>rq_dropped_oldest := saturating_succ (rq_dropped_oldest q)\<rparr>)
      else let seq = (if rq_next_seq q = 0 then 1 else rq_next_seq q)
        in (seq, q\<lparr>rq_next_seq := seq + 1, rq_pending := rq_pending q @ [(seq, row)]\<rparr>))"

definition queue_push_outcome :: "u32 \<Rightarrow> ActionVerdict \<Rightarrow> 'p ReliableEventQueue \<Rightarrow> u16 \<times> 'p ReliableEventQueue" where
  "queue_push_outcome request_id verdict q = push_row (ActionOutcome request_id verdict) q"

definition seq_after :: "u16 \<Rightarrow> u16 \<Rightarrow> bool" where
  "seq_after a b \<longleftrightarrow> a \<noteq> b \<and> a - b < 0x8000"

definition queue_ack :: "u16 \<Rightarrow> 'p ReliableEventQueue \<Rightarrow> 'p ReliableEventQueue" where
  "queue_ack through q =
     (if through = 0 then q
      else let keep = (if seq_after through (rq_ack_through q) then through else rq_ack_through q)
        in q\<lparr>rq_ack_through := keep, rq_pending := filter (\<lambda>(seq, _). seq_after seq keep) (rq_pending q)\<rparr>)"

record 'p ReliablePayload =
  rp_ack_through :: u16
  rp_rows :: "(u16 \<times> 'p ReliableRow) list"
  rp_dropped_oldest :: u32

definition owes_nothing :: "'p ReliablePayload" where
  "owes_nothing = \<lparr>rp_ack_through = 0, rp_rows = [], rp_dropped_oldest = 0\<rparr>"

definition queue_payload :: "'p ReliableEventQueue \<Rightarrow> 'p ReliablePayload" where
  "queue_payload q = \<lparr>rp_ack_through = rq_ack_through q, rp_rows = rq_pending q, rp_dropped_oldest = rq_dropped_oldest q\<rparr>"

section \<open>One queue per client\<close>

type_synonym 'p ReliableEventHub = "(u32, 'p ReliableEventQueue) hash_map"

text \<open>\<open>queue_mut\<close>: the queue of a client, created on first use.\<close>

definition queue_mut :: "u32 \<Rightarrow> 'p ReliableEventHub \<Rightarrow> 'p ReliableEventQueue" where
  "queue_mut client hub = (case hm_get hub client of Some q \<Rightarrow> q | None \<Rightarrow> queue_new)"

definition hub_push_event :: "u32 \<Rightarrow> 'p \<Rightarrow> 'p ReliableEventHub \<Rightarrow> u16 \<times> 'p ReliableEventHub" where
  "hub_push_event client event hub = (let (seq, q) = push_row (Row event) (queue_mut client hub) in (seq, hm_insert client q hub))"

definition hub_push_outcome :: "u32 \<Rightarrow> u32 \<Rightarrow> ActionVerdict \<Rightarrow> 'p ReliableEventHub \<Rightarrow> u16 \<times> 'p ReliableEventHub" where
  "hub_push_outcome client request_id verdict hub =
     (let q = queue_mut client hub in
      case find (\<lambda>(_, row). row = ActionOutcome request_id verdict) (rq_pending q) of
        Some (seq, _) \<Rightarrow> (seq, hm_insert client q hub)
      | None \<Rightarrow> let (seq, q') = queue_push_outcome request_id verdict q in (seq, hm_insert client q' hub))"

definition hub_payload :: "u32 \<Rightarrow> 'p ReliableEventHub \<Rightarrow> 'p ReliablePayload" where
  "hub_payload client hub = (case hm_get hub client of None \<Rightarrow> owes_nothing | Some q \<Rightarrow> queue_payload q)"

definition hub_ack :: "u32 \<Rightarrow> u16 \<Rightarrow> 'p ReliableEventHub \<Rightarrow> 'p ReliableEventHub" where
  "hub_ack client through hub = (case hm_get hub client of None \<Rightarrow> hub | Some q \<Rightarrow> hm_insert client (queue_ack through q) hub)"

definition hub_ack_all :: "u32 \<Rightarrow> 'p ReliableEventHub \<Rightarrow> 'p ReliableEventHub" where
  "hub_ack_all client hub = (case hm_get hub client of None \<Rightarrow> hub
     | Some q \<Rightarrow> if rq_pending q = [] then hub else hm_insert client (queue_ack (fst (last (rq_pending q))) q) hub)"

definition hub_retire :: "u32 \<Rightarrow> 'p ReliableEventHub \<Rightarrow> 'p ReliableEventHub" where
  "hub_retire client hub = hm_remove client hub"

definition overflowed_clients :: "'p ReliableEventHub \<Rightarrow> u32 list" where
  "overflowed_clients hub = map fst (filter (\<lambda>(_, q). rq_dropped_oldest q \<noteq> 0) hub)"

section \<open>Sequence numbers\<close>

text \<open>The number of the \<open>n\<close>-th row, and the acknowledgement after \<open>n\<close> rows.\<close>

definition row_seq :: "nat \<Rightarrow> u16" where
  "row_seq n = of_nat (n mod 65535 + 1)"

definition ack_seq :: "nat \<Rightarrow> u16" where
  "ack_seq n = (if n = 0 then 0 else row_seq (n - 1))"

lemma unat_row_seq: "unat (row_seq n) = n mod 65535 + 1"
proof -
  have "n mod 65535 + 1 < 65536" by (simp add: less_Suc_eq_le)
  then show ?thesis unfolding row_seq_def by (rule unat_of_nat_u16)
qed

lemma row_seq_nonzero [simp]: "row_seq n \<noteq> 0"
  using unat_row_seq [of n] by auto

lemma unat_diff:
  "unat (a - b :: u16) = (if unat b \<le> unat a then unat a - unat b else 65536 + unat a - unat b)"
  using unat_sub_if' [of a b] by (simp split: if_splits)

text \<open>Within half the range, later rows come after earlier ones, also across the wrap-around.\<close>

lemma seq_after_rows:
  assumes "i < j" and "j \<le> i + 32000"
  shows "seq_after (row_seq j) (row_seq i)" and "\<not> seq_after (row_seq i) (row_seq j)"
proof -
  define d m where "d = j - i" and "m = i mod 65535"
  have d: "0 < d" "d \<le> 32000" "j = i + d" using assms by (auto simp: d_def)
  have m: "m < 65535" by (simp add: m_def)
  have "j mod 65535 = (m + d) mod 65535" by (simp add: d(3) m_def mod_add_left_eq)
  also have "\<dots> = (if m + d < 65535 then m + d else m + d - 65535)"
    using m d by (simp add: mod_if)
  finally have u: "unat (row_seq i) = m + 1" "unat (row_seq j) = (if m + d < 65535 then m + d else m + d - 65535) + 1"
    by (simp_all add: unat_row_seq m_def)
  show "seq_after (row_seq j) (row_seq i)" "\<not> seq_after (row_seq i) (row_seq j)"
    unfolding seq_after_def word_less_nat_alt unat_diff word_unat_eq_iff u using d m by (auto split: if_splits)
qed

lemma seq_after_ack:
  assumes "a \<le> j" and "j < a + 32000"
  shows "seq_after (row_seq j) (ack_seq a)"
proof (cases "a = 0")
  case True
  with assms have "unat (row_seq j) = j + 1" by (simp add: unat_row_seq)
  with assms True show ?thesis by (simp add: ack_seq_def seq_after_def word_less_nat_alt)
next
  case False
  with assms seq_after_rows(1) [of "a - 1" j] show ?thesis by (simp add: ack_seq_def)
qed

lemma not_after_old_ack: "n \<le> a \<Longrightarrow> a \<le> n + 32000 \<Longrightarrow> n \<noteq> 0 \<Longrightarrow> \<not> seq_after (ack_seq n) (ack_seq a)"
  using seq_after_rows(2) [of "n - 1" "a - 1"] by (cases "n = a") (auto simp: ack_seq_def seq_after_def)

section \<open>The queue as the list of unacknowledged rows\<close>

text \<open>
  The specification: how many rows were acknowledged, and the rows that were not. An acknowledgement
  names how many rows the client has, at most those sent; it may be late by 32000 rows.
\<close>

datatype 'p reliable_op = PushRow "'p ReliableRow" | AckRows nat

fun spec_step :: "'p reliable_op \<Rightarrow> nat \<times> 'p ReliableRow list \<Rightarrow> nat \<times> 'p ReliableRow list" where
  "spec_step (PushRow row) (acked, rows) = (acked, if length rows < MAX_PENDING_RELIABLE then rows @ [row] else rows)"
| "spec_step (AckRows n) (acked, rows) = (if n \<le> acked then (acked, rows) else (n, drop (n - acked) rows))"

fun spec_allows :: "nat \<times> 'p ReliableRow list \<Rightarrow> 'p reliable_op list \<Rightarrow> bool" where
  "spec_allows s [] \<longleftrightarrow> True"
| "spec_allows s (op # ops) \<longleftrightarrow> (case op of PushRow row \<Rightarrow> True
     | AckRows n \<Rightarrow> n \<le> fst s + length (snd s) \<and> fst s \<le> n + 32000) \<and> spec_allows (spec_step op s) ops"

fun queue_step :: "'p reliable_op \<Rightarrow> 'p ReliableEventQueue \<Rightarrow> 'p ReliableEventQueue" where
  "queue_step (PushRow row) q = snd (push_row row q)"
| "queue_step (AckRows n) q = queue_ack (ack_seq n) q"

definition numbered :: "nat \<Rightarrow> 'p ReliableRow list \<Rightarrow> (u16 \<times> 'p ReliableRow) list" where
  "numbered a rows = map (\<lambda>i. (row_seq (a + i), rows ! i)) [0..<length rows]"

definition represents :: "'p ReliableEventQueue \<Rightarrow> nat \<times> 'p ReliableRow list \<Rightarrow> bool" where
  "represents q = (\<lambda>(acked, rows). rq_ack_through q = ack_seq acked \<and> rq_pending q = numbered acked rows
     \<and> (if rq_next_seq q = 0 then 1 else rq_next_seq q) = row_seq (acked + length rows) \<and> length rows \<le> MAX_PENDING_RELIABLE)"

lemma row_seq_succ: "(if row_seq n + 1 = 0 then 1 else row_seq n + 1) = row_seq (Suc n)"
proof -
  have "row_seq n + 1 = 0 \<longleftrightarrow> n mod 65535 = 65534"
  proof -
    have "row_seq n + 1 = of_nat (n mod 65535 + 2)" by (simp add: row_seq_def)
    moreover have "n mod 65535 + 2 = 65536 \<or> n mod 65535 + 2 < 65536" using mod_less_divisor [of 65535 n] by linarith
    ultimately show ?thesis using unat_of_nat_u16 [of "n mod 65535 + 2"] by (auto simp: word_unat_eq_iff)
  qed
  then show ?thesis by (auto simp: row_seq_def mod_Suc)
qed

lemma length_numbered [simp]: "length (numbered a rows) = length rows"
  by (simp add: numbered_def)

lemma numbered_append: "numbered a (rows @ [row]) = numbered a rows @ [(row_seq (a + length rows), row)]"
  by (simp add: numbered_def nth_append)

lemma numbered_drop:
  assumes "k \<le> length rows" and "length rows \<le> 64" and "0 < k"
  shows "filter (\<lambda>(seq, _). seq_after seq (ack_seq (a + k))) (numbered a rows) = numbered (a + k) (drop k rows)"
proof -
  have split: "[0..<length rows] = [0..<k] @ map (\<lambda>i. i + k) [0..<length rows - k]"
    using assms(1) upt_add_eq_append [of 0 k "length rows - k"] map_add_upt [of k "length rows - k"] by simp
  have "\<not> seq_after (row_seq (a + i)) (ack_seq (a + k))" if "i < k" for i
    using that assms seq_after_rows(2) [of "a + i" "a + k - 1"]
    by (cases "i = k - 1") (auto simp: ack_seq_def seq_after_def)
  moreover have "seq_after (row_seq (a + (i + k))) (ack_seq (a + k))" if "i < length rows - k" for i
    using that assms by (intro seq_after_ack) auto
  ultimately show ?thesis
    by (simp add: numbered_def split filter_map comp_def ac_simps)
qed

lemma push_represents:
  assumes "represents q (acked, rows)"
  shows "represents (snd (push_row row q)) (spec_step (PushRow row) (acked, rows))"
    and "fst (push_row row q) = (if length rows < MAX_PENDING_RELIABLE then row_seq (acked + length rows) else 0)"
proof -
  show "represents (snd (push_row row q)) (spec_step (PushRow row) (acked, rows))"
    using assms row_seq_succ [of "acked + length rows"]
    by (auto simp: represents_def push_row_def Let_def numbered_append split: if_splits)
  show "fst (push_row row q) = (if length rows < MAX_PENDING_RELIABLE then row_seq (acked + length rows) else 0)"
    using assms by (auto simp: represents_def push_row_def Let_def)
qed

lemma ack_represents:
  assumes r: "represents q (acked, rows)" and n: "n \<le> acked + length rows" "acked \<le> n + 32000"
  shows "represents (queue_ack (ack_seq n) q) (spec_step (AckRows n) (acked, rows))"
proof (cases "n \<le> acked")
  case True
  have f: "filter (\<lambda>(seq, _). seq_after seq (ack_seq acked)) (numbered acked rows) = numbered acked rows"
    using r by (auto simp: filter_id_conv numbered_def represents_def intro!: seq_after_ack)
  show ?thesis
  proof (cases "n = 0")
    case False
    with not_after_old_ack [OF True n(2)] r f show ?thesis
      by (auto simp: queue_ack_def Let_def represents_def True)
  qed (use r in \<open>simp add: queue_ack_def ack_seq_def\<close>)
next
  case False
  define k where "k = n - acked"
  with False n(1) have k: "0 < k" "n = acked + k" "k \<le> length rows" by auto
  from r have len: "length rows \<le> 64" by (simp add: represents_def)
  have "ack_seq n = row_seq (acked + k - 1)" using k by (simp add: ack_seq_def)
  moreover have "seq_after (row_seq (acked + k - 1)) (ack_seq acked)"
    using k len by (intro seq_after_ack) auto
  ultimately show ?thesis using r k numbered_drop [OF k(3) len k(1), of acked]
    by (auto simp: queue_ack_def Let_def represents_def)
qed

lemma run_represents:
  assumes "represents q s" and "spec_allows s ops"
  shows "represents (fold queue_step ops q) (fold spec_step ops s)"
  using assms
proof (induction ops arbitrary: q s)
  case (Cons op ops)
  obtain acked rows where s: "s = (acked, rows)" by (cases s)
  have "represents (queue_step op q) (spec_step op s)"
    using Cons.prems unfolding s by (cases op) (simp_all add: push_represents ack_represents del: spec_step.simps)
  with Cons show ?case by (simp del: spec_step.simps)
qed simp

text \<open>
  C16. The queue implements the list of rows that the client does not have yet. Through any pushes and
  acknowledgements, however often the sequence numbers wrap around, the rows sent with the next frame
  are exactly the unacknowledged ones, in order and numbered without a gap; a row is refused only
  when 64 are pending, and late or repeated acknowledgements drop nothing.
\<close>

theorem reliable_queue_refines:
  assumes "spec_allows (0, []) ops" and "fold spec_step ops (0, []) = (acked, rows)"
  shows "rp_rows (queue_payload (fold queue_step ops queue_new)) = numbered acked rows \<and> length rows \<le> MAX_PENDING_RELIABLE
    \<and> fst (push_row row (fold queue_step ops queue_new)) = (if length rows < MAX_PENDING_RELIABLE then row_seq (acked + length rows) else 0)"
proof -
  have "represents queue_new (0, [])" by (simp add: represents_def queue_new_def ack_seq_def numbered_def row_seq_def)
  from run_represents [OF this assms(1)] have r: "represents (fold queue_step ops queue_new) (acked, rows)" by (simp add: assms(2))
  from r push_represents(2) [OF r, of row] show ?thesis by (simp add: represents_def queue_payload_def)
qed

theorem reliable_queue_refines_witness:
  "rp_rows (queue_payload (fold queue_step [PushRow (Row 5), PushRow (Row 6), AckRows 1, PushRow (ActionOutcome 9 Refused), AckRows 0] queue_new))
     = [(2, Row (6 :: nat)), (3, ActionOutcome 9 Refused)]"
  using reliable_queue_refines [of "[PushRow (Row (5 :: nat)), PushRow (Row 6), AckRows 1, PushRow (ActionOutcome 9 Refused), AckRows 0]"]
  by (simp add: numbered_def row_seq_def upt_rec)

end
