(* ===== verification/Acked_Baseline.thy ===== *)
theory Acked_Baseline
  imports Segment_Delta Sorted_Table
begin

text \<open>
  The frames a client may be sent differences against: \<^verbatim>\<open>crates/net/src/transport/acked_baseline.rs\<close>.
  The server remembers the frames it sent to a client until a later one is acknowledged and encodes
  the next frame against the highest acknowledged one. The simulation's snapshot is a type parameter
  of which only the tick is used, and \<open>tick_of\<close> reads it.
\<close>

record 's SentFrame =
  sf_snapshot :: 's
  sf_parts :: FrameParts

record 's AckedBaselineTable =
  ab_sent :: "(u32 \<times> 's SentFrame) list"
  ab_highest_acked :: "u32 option"
  ab_max_retained :: nat

definition table_new :: "nat \<Rightarrow> 's AckedBaselineTable" where
  "table_new max_retained = \<lparr>ab_sent = [], ab_highest_acked = None, ab_max_retained = max max_retained 1\<rparr>"

definition is_pinned :: "'s AckedBaselineTable \<Rightarrow> u32 \<Rightarrow> bool" where
  "is_pinned t seq = (if ab_highest_acked t = Some seq then True
     else if ab_sent t \<noteq> [] \<and> fst (last (ab_sent t)) = seq then True
     else ab_highest_acked t = None \<and> ab_sent t \<noteq> [] \<and> fst (hd (ab_sent t)) = seq)"

lemma bt_remove_length: "k \<in> fst ` set m \<Longrightarrow> length (bt_remove k m) < length m"
  unfolding bt_remove_def by (auto intro: length_filter_less)

function trim :: "'s AckedBaselineTable \<Rightarrow> 's AckedBaselineTable" where
  "trim t = (if ab_max_retained t < length (ab_sent t)
     then (case find (\<lambda>seq. \<not> is_pinned t seq) (map fst (ab_sent t)) of
         Some seq \<Rightarrow> trim (t\<lparr>ab_sent := bt_remove seq (ab_sent t)\<rparr>)
       | None \<Rightarrow> t)
     else t)"
  by pat_completeness auto
termination
proof (relation "measure (\<lambda>t. length (ab_sent t))", goal_cases)
  case (2 t seq)
  then have "seq \<in> set (map fst (ab_sent t))" by (auto simp: find_Some_iff)
  then show ?case by (simp add: bt_remove_length)
qed simp

declare trim.simps [simp del]

definition remember :: "u32 \<Rightarrow> 's \<Rightarrow> FrameParts \<Rightarrow> 's AckedBaselineTable \<Rightarrow> 's AckedBaselineTable" where
  "remember snapshot_seq snapshot parts t =
     trim (t\<lparr>ab_sent := bt_insert snapshot_seq \<lparr>sf_snapshot = snapshot, sf_parts = parts\<rparr> (ab_sent t)\<rparr>)"

definition ack :: "('s \<Rightarrow> u32) \<Rightarrow> u32 \<Rightarrow> 's AckedBaselineTable \<Rightarrow> u32 option \<times> 's AckedBaselineTable" where
  "ack tick_of snapshot_seq t = (case map_of (ab_sent t) snapshot_seq of
     None \<Rightarrow> (None, t)
   | Some f \<Rightarrow>
       let acked = (case ab_highest_acked t of Some prev \<Rightarrow> max prev snapshot_seq | None \<Rightarrow> snapshot_seq)
       in (Some (tick_of (sf_snapshot f)),
           t\<lparr>ab_highest_acked := Some acked, ab_sent := filter (\<lambda>(seq, _). acked \<le> seq) (ab_sent t)\<rparr>))"

definition baseline_seq_for_encode :: "'s AckedBaselineTable \<Rightarrow> u32" where
  "baseline_seq_for_encode t = (case ab_highest_acked t of
     Some seq \<Rightarrow> if map_of (ab_sent t) seq \<noteq> None then seq else 0 | None \<Rightarrow> 0)"

definition clear_missing_ack :: "'s AckedBaselineTable \<Rightarrow> bool \<times> 's AckedBaselineTable" where
  "clear_missing_ack t = (case ab_highest_acked t of
     Some seq \<Rightarrow> if map_of (ab_sent t) seq = None then (True, t\<lparr>ab_highest_acked := None\<rparr>) else (False, t)
   | None \<Rightarrow> (False, t))"

definition baseline_for_encode :: "'s AckedBaselineTable \<Rightarrow> 's option" where
  "baseline_for_encode t = Option.bind (ab_highest_acked t) (\<lambda>acked. map_option sf_snapshot (map_of (ab_sent t) acked))"

definition baseline_parts_for_encode :: "'s AckedBaselineTable \<Rightarrow> FrameParts option" where
  "baseline_parts_for_encode t = Option.bind (ab_highest_acked t) (\<lambda>acked. map_option sf_parts (map_of (ab_sent t) acked))"

definition may_encode_against :: "u32 \<Rightarrow> 's AckedBaselineTable \<Rightarrow> bool" where
  "may_encode_against baseline_seq t = (if baseline_seq = 0 then True
     else ab_highest_acked t = Some baseline_seq \<and> map_of (ab_sent t) baseline_seq \<noteq> None)"

section \<open>What the table keeps\<close>

text \<open>
  \<open>baseline_run hist t\<close>: the operations led to \<open>t\<close>, and \<open>hist\<close> gives the last frame sent under each
  number.
\<close>

inductive baseline_run :: "(u32 \<rightharpoonup> 's SentFrame) \<Rightarrow> 's AckedBaselineTable \<Rightarrow> bool" where
  start: "baseline_run Map.empty (table_new n)"
| send: "baseline_run hist t \<Longrightarrow> baseline_run (hist(seq \<mapsto> \<lparr>sf_snapshot = s, sf_parts = p\<rparr>)) (remember seq s p t)"
| acked: "baseline_run hist t \<Longrightarrow> baseline_run hist (snd (ack tick_of seq t))"
| resync: "baseline_run hist t \<Longrightarrow> baseline_run hist (snd (clear_missing_ack t))"

definition acked_kept :: "'s AckedBaselineTable \<Rightarrow> bool" where
  "acked_kept t \<longleftrightarrow> table_ok (ab_sent t) \<and> (\<forall>h. ab_highest_acked t = Some h \<longrightarrow> map_of (ab_sent t) h \<noteq> None)"

lemma trim_keeps:
  "acked_kept t \<Longrightarrow> acked_kept (trim t) \<and> map_of (ab_sent (trim t)) \<subseteq>\<^sub>m map_of (ab_sent t)
    \<and> ab_highest_acked (trim t) = ab_highest_acked t \<and> ab_max_retained (trim t) = ab_max_retained t"
proof (induction t rule: trim.induct)
  case (1 t)
  show ?case
  proof (cases "ab_max_retained t < length (ab_sent t) \<and> find (\<lambda>seq. \<not> is_pinned t seq) (map fst (ab_sent t)) \<noteq> None")
    case False
    then have "trim t = t" by (subst trim.simps) (auto split: option.splits)
    with "1.prems" show ?thesis by simp
  next
    case True
    then obtain seq where seq: "ab_max_retained t < length (ab_sent t)" "find (\<lambda>seq. \<not> is_pinned t seq) (map fst (ab_sent t)) = Some seq" by blast
    let ?t = "t\<lparr>ab_sent := bt_remove seq (ab_sent t)\<rparr>"
    have e: "trim t = trim ?t" using seq by (subst trim.simps) simp
    have "\<not> is_pinned t seq" using seq(2) by (auto simp: find_Some_iff)
    then have "ab_highest_acked t \<noteq> Some seq" by (auto simp: is_pinned_def)
    with "1.prems" have "acked_kept ?t" by (auto simp: acked_kept_def bt.ok_rem bt.look_rem)
    note IH = "1.IH" [OF seq this]
    have "map_of (bt_remove seq (ab_sent t)) \<subseteq>\<^sub>m map_of (ab_sent t)"
      using "1.prems" by (auto simp: acked_kept_def bt.look_rem map_le_def)
    with IH have "map_of (ab_sent (trim ?t)) \<subseteq>\<^sub>m map_of (ab_sent t)" by (auto intro: map_le_trans)
    with IH show ?thesis unfolding e by simp
  qed
qed

lemma pinned_few: "card {seq. is_pinned t seq} \<le> 2"
proof -
  have "{seq. is_pinned t seq} \<subseteq> {case ab_highest_acked t of Some h \<Rightarrow> h | None \<Rightarrow> fst (hd (ab_sent t)), fst (last (ab_sent t))}"
    by (auto simp: is_pinned_def split: option.splits if_splits)
  then have "card {seq. is_pinned t seq} \<le> card {case ab_highest_acked t of Some h \<Rightarrow> h | None \<Rightarrow> fst (hd (ab_sent t)), fst (last (ab_sent t))}"
    by (rule card_mono [rotated]) simp
  also have "\<dots> \<le> 2" by (simp add: card_insert_if)
  finally show ?thesis .
qed

lemma trim_bounded: "table_ok (ab_sent t) \<Longrightarrow> length (ab_sent (trim t)) \<le> max (ab_max_retained t) 2"
proof (induction t rule: trim.induct)
  case (1 t)
  show ?case
  proof (cases "ab_max_retained t < length (ab_sent t)")
    case False
    then show ?thesis by (subst trim.simps) simp
  next
    case True
    show ?thesis
    proof (cases "find (\<lambda>seq. \<not> is_pinned t seq) (map fst (ab_sent t))")
      case None
      then have "set (map fst (ab_sent t)) \<subseteq> {seq. is_pinned t seq}" by (auto simp: find_None_iff)
      then have "card (set (map fst (ab_sent t))) \<le> 2"
        using pinned_few [of t] card_mono [of "{seq. is_pinned t seq}"] by (meson finite order_trans)
      then have "length (ab_sent t) \<le> 2" using "1.prems" distinct_card [of "map fst (ab_sent t)"] by (simp add: table_ok_iff)
      with True None show ?thesis by (subst trim.simps) simp
    next
      case (Some seq)
      from "1.IH" [OF True Some] "1.prems" True Some show ?thesis by (subst trim.simps) (simp add: bt.ok_rem)
    qed
  qed
qed

lemma map_of_filter_le: "table_ok m \<Longrightarrow> map_of (filter (\<lambda>(k, _). P k) m) = (map_of m) |` {k. P k}"
  by (induction m) (auto simp: fun_eq_iff table_ok_def restrict_map_def)

lemma table_ok_filter: "table_ok m \<Longrightarrow> table_ok (filter (\<lambda>(k, _). P k) m)"
  by (auto simp: table_ok_iff distinct_map_filter sorted_filter)

definition baseline_inv :: "(u32 \<rightharpoonup> 's SentFrame) \<Rightarrow> 's AckedBaselineTable \<Rightarrow> bool" where
  "baseline_inv hist t \<longleftrightarrow> acked_kept t \<and> map_of (ab_sent t) \<subseteq>\<^sub>m hist \<and> length (ab_sent t) \<le> max (ab_max_retained t) 2"

lemma remember_inv:
  assumes "baseline_inv hist t"
  shows "baseline_inv (hist(seq \<mapsto> \<lparr>sf_snapshot = s, sf_parts = p\<rparr>)) (remember seq s p t)"
proof -
  let ?f = "\<lparr>sf_snapshot = s, sf_parts = p\<rparr>"
  let ?t = "t\<lparr>ab_sent := bt_insert seq ?f (ab_sent t)\<rparr>"
  have ok: "table_ok (ab_sent t)" and le: "map_of (ab_sent t) \<subseteq>\<^sub>m hist"
    using assms by (auto simp: baseline_inv_def acked_kept_def)
  have "acked_kept ?t" using assms by (auto simp: baseline_inv_def acked_kept_def bt.ok_ups bt.look_ups)
  note k = trim_keeps [OF this]
  have "map_of (ab_sent ?t) \<subseteq>\<^sub>m hist(seq \<mapsto> ?f)" using le by (simp add: bt.look_ups ok map_le_upd)
  with k have "map_of (ab_sent (trim ?t)) \<subseteq>\<^sub>m hist(seq \<mapsto> ?f)" by (blast intro: map_le_trans)
  with k trim_bounded [of ?t] show ?thesis by (simp add: baseline_inv_def remember_def bt.ok_ups ok)
qed

lemma ack_inv:
  assumes "baseline_inv hist t"
  shows "baseline_inv hist (snd (ack tick_of seq t))"
proof (cases "map_of (ab_sent t) seq")
  case None
  with assms show ?thesis by (simp add: ack_def)
next
  case (Some f)
  have len: "length (filter P (ab_sent t)) \<le> max (ab_max_retained t) 2" for P
    using assms le_trans [OF length_filter_le [of P "ab_sent t"]] by (simp add: baseline_inv_def)
  from assms Some len show ?thesis
    by (auto simp: ack_def baseline_inv_def acked_kept_def map_of_filter_le table_ok_filter map_le_def max_def
      restrict_map_def split: option.splits if_splits)
qed

lemma clear_missing_ack_idle: "acked_kept t \<Longrightarrow> clear_missing_ack t = (False, t)"
  by (auto simp: clear_missing_ack_def acked_kept_def split: option.splits)

lemma baseline_run_inv: "baseline_run hist t \<Longrightarrow> baseline_inv hist t"
proof (induction rule: baseline_run.induct)
  case (start n)
  then show ?case by (simp add: baseline_inv_def acked_kept_def table_new_def table_ok_def)
next
  case (resync hist t)
  then show ?case by (simp add: clear_missing_ack_idle baseline_inv_def)
qed (rule remember_inv ack_inv, assumption)+

lemma baseline_invD:
  assumes "baseline_inv hist t" and "ab_highest_acked t = Some h"
  shows "\<exists>f. map_of (ab_sent t) h = Some f \<and> hist h = Some f"
  using assms by (force simp: baseline_inv_def acked_kept_def map_le_def dom_def)

lemma ack_monotone:
  "ab_highest_acked t = Some h \<Longrightarrow> \<exists>h'. ab_highest_acked (snd (ack tick_of seq t)) = Some h' \<and> h \<le> h'"
  by (auto simp: ack_def split: option.splits)

section \<open>The properties\<close>

text \<open>
  C15. After any sequence of sends, acknowledgements and resynchronisations, the highest acknowledged
  frame is still held as it was last sent under its number, and is what the next frame is encoded
  against; so the resynchronisation branch finds nothing to clear, encoding is allowed against
  exactly frame 0 and that frame, further acknowledgements never move it back, and no more frames
  are held than the configured number (or two).
\<close>

theorem baseline_table_sound:
  assumes "baseline_run hist t"
  shows "(case ab_highest_acked t of
       None \<Rightarrow> baseline_seq_for_encode t = 0 \<and> baseline_for_encode t = None \<and> baseline_parts_for_encode t = None
     | Some h \<Rightarrow> baseline_seq_for_encode t = h \<and> hist h \<noteq> None
         \<and> baseline_for_encode t = map_option sf_snapshot (hist h) \<and> baseline_parts_for_encode t = map_option sf_parts (hist h)
         \<and> (\<exists>h'. ab_highest_acked (snd (ack tick_of seq t)) = Some h' \<and> h \<le> h'))
   \<and> clear_missing_ack t = (False, t)
   \<and> (may_encode_against s t \<longleftrightarrow> s = 0 \<or> ab_highest_acked t = Some s)
   \<and> length (ab_sent t) \<le> max (ab_max_retained t) 2"
proof (cases "ab_highest_acked t")
  case None
  with baseline_run_inv [OF assms] show ?thesis
    by (simp add: baseline_seq_for_encode_def baseline_for_encode_def baseline_parts_for_encode_def
      clear_missing_ack_def may_encode_against_def baseline_inv_def)
next
  case (Some h)
  note inv = baseline_run_inv [OF assms]
  from baseline_invD [OF inv Some] inv ack_monotone [OF Some] Some show ?thesis
    by (auto simp: baseline_seq_for_encode_def baseline_for_encode_def baseline_parts_for_encode_def
      clear_missing_ack_idle may_encode_against_def baseline_inv_def)
qed

definition sample_table :: "u32 AckedBaselineTable" where
  "sample_table = snd (ack id 2 (remember 3 13 (sample_parts 0 2) (remember 2 12 (sample_parts 4 0) (table_new 2))))"

definition sample_hist :: "u32 \<rightharpoonup> u32 SentFrame" where
  "sample_hist = [2 \<mapsto> \<lparr>sf_snapshot = 12, sf_parts = sample_parts 4 0\<rparr>, 3 \<mapsto> \<lparr>sf_snapshot = 13, sf_parts = sample_parts 0 2\<rparr>]"

lemma sample_table_run: "baseline_run sample_hist sample_table"
  unfolding sample_table_def sample_hist_def by (intro baseline_run.intros)

lemma sample_table_acked: "ab_highest_acked sample_table = Some 2"
  by (simp add: sample_table_def ack_def remember_def trim.simps table_new_def)

theorem baseline_table_sound_witness: "baseline_seq_for_encode sample_table = 2 \<and> \<not> may_encode_against 3 sample_table"
  using baseline_table_sound [OF sample_table_run, of id 3 3] by (simp add: sample_table_acked)

text \<open>
  C14. The frames of the table and the differences between frames fit together: after any sequence
  of operations, a difference encoded against what the table offers is decoded to the new frame by a
  client that holds the bytes of the frame it acknowledged, whatever patches the encoder has cached.
\<close>

theorem acked_delta_arrives:
  assumes "baseline_run hist t" and "ab_highest_acked t = Some h" and "zstd_ok z"
    and "baseline_parts_for_encode t = Some base"
    and "encode_delta z store new base (cache_after z store pairs) = (delta, cache)"
    and "length delta \<le> MAX_DELTA_INSTRUCTION_BYTES"
    and "length (to_raw store base) \<le> MAX_RECONSTRUCTED_FRAME_BYTES"
    and "length (to_raw store new) \<le> MAX_RECONSTRUCTED_FRAME_BYTES"
  shows "\<exists>f. hist h = Some f \<and> decode_delta z delta (to_raw store (sf_parts f)) (map length (frame_segments store (sf_parts f)))
    = Some (to_raw store new)"
proof -
  from baseline_invD [OF baseline_run_inv [OF assms(1)] assms(2)] assms(2,4)
  obtain f where "hist h = Some f" "base = sf_parts f" by (auto simp: baseline_parts_for_encode_def)
  with delta_decodes [OF assms(3,5,6,7,8)] show ?thesis by blast
qed


theorem acked_delta_arrives_witness:
  "\<exists>f. sample_hist 2 = Some f \<and> decode_delta stored_zstd
      [1, 1, 1, 1, 2, 0, 0, 0, 0, 0, 0, 0, 0, 0, 0, 1, 1, 0, 1, 9, 2, 2, 7, 7, 0]
      (to_raw sample_meta (sf_parts f)) (map length (frame_segments sample_meta (sf_parts f))) = Some (to_raw sample_meta (sample_parts 9 2))"
proof -
  have z: "zstd_ok stored_zstd" by (simp add: zstd_ok_def stored_zstd_def)
  have b: "baseline_parts_for_encode sample_table = Some (sample_parts 4 0)"
    by (simp add: sample_table_def ack_def remember_def trim.simps table_new_def baseline_parts_for_encode_def)
  obtain delta cache where e: "encode_delta stored_zstd sample_meta (sample_parts 9 2) (sample_parts 4 0)
      (cache_after stored_zstd sample_meta []) = (delta, cache)" by fastforce
  with sample_delta [of "[]"] have d: "delta = [1, 1, 1, 1, 2, 0, 0, 0, 0, 0, 0, 0, 0, 0, 0, 1, 1, 0, 1, 9, 2, 2, 7, 7, 0]" by simp
  show ?thesis
    by (rule acked_delta_arrives [OF sample_table_run sample_table_acked z b e [unfolded d]])
      (simp_all add: to_raw_def sample_segments sample_world)
qed

end
