(* ===== verification/Command_Inbox.thy ===== *)
theory Command_Inbox
  imports Client_Actions "HOL-Library.Option_ord"
begin

text \<open>
  The commands of the clients on the authority: \<open>ClientCommandInbox\<close> of
  \<^verbatim>\<open>crates/net/src/authority/inbox.rs\<close>. Commands arrive with sequence numbers, repeated and out of
  order; every tick takes the runnable ones of each client, in order, and reports what is
  acknowledged. Times are signed 32-bit milliseconds; plain subtraction wraps, as in the profiles the
  repository ships.
\<close>

section \<open>Times\<close>

type_synonym i32 = "32 word"

definition clamp_i32 :: "int \<Rightarrow> i32" where
  "clamp_i32 i = word_of_int (max (- 2147483648) (min 2147483647 i))"

definition saturating_add :: "i32 \<Rightarrow> i32 \<Rightarrow> i32" where
  "saturating_add a b = clamp_i32 (sint a + sint b)"

definition saturating_sub :: "i32 \<Rightarrow> i32 \<Rightarrow> i32" where
  "saturating_sub a b = clamp_i32 (sint a - sint b)"

definition saturating_mul :: "i32 \<Rightarrow> i32 \<Rightarrow> i32" where
  "saturating_mul a b = clamp_i32 (sint a * sint b)"

definition i32_clamp :: "i32 \<Rightarrow> i32 \<Rightarrow> i32 \<Rightarrow> i32" where
  "i32_clamp a lo hi = (if sint a < sint lo then lo else if sint hi < sint a then hi else a)"

definition i32_min :: "i32 \<Rightarrow> i32 \<Rightarrow> i32" where
  "i32_min a b = (if sint b < sint a then b else a)"

abbreviation (input) AUTHORITY_MS :: i32 where "AUTHORITY_MS \<equiv> 50"
abbreviation (input) MAX_QUEUED_COMMANDS_PER_PEER :: nat where "MAX_QUEUED_COMMANDS_PER_PEER \<equiv> 256"
abbreviation (input) MAX_QUEUED_COMMAND_MS :: i32 where "MAX_QUEUED_COMMAND_MS \<equiv> 1000"
abbreviation (input) COMMAND_TIME_STEP_MS :: i32 where "COMMAND_TIME_STEP_MS \<equiv> 200"
abbreviation (input) MAX_COMMAND_STALL_MS :: i32 where "MAX_COMMAND_STALL_MS \<equiv> 1000"
abbreviation (input) LOST_COMMAND_HOLD_MS :: i32 where "LOST_COMMAND_HOLD_MS \<equiv> 250"
abbreviation (input) MAX_COMMAND_LEAD_MS :: i32 where "MAX_COMMAND_LEAD_MS \<equiv> 200"
abbreviation (input) MAX_COMMANDS_PER_PEER_PER_FRAME :: nat where "MAX_COMMANDS_PER_PEER_PER_FRAME \<equiv> 32"

definition server_time_from_tick :: "u32 \<Rightarrow> i32" where
  "server_time_from_tick tick = saturating_mul (if uint tick \<le> 2147483647 then tick else 0) AUTHORITY_MS"

record AuthorityClock =
  ac_tick :: u32
  ac_time_ms :: i32

definition clock_advance :: "AuthorityClock \<Rightarrow> u32 \<times> AuthorityClock" where
  "clock_advance c = (ac_tick c + 1, c\<lparr>ac_time_ms := ac_time_ms c + AUTHORITY_MS, ac_tick := ac_tick c + 1\<rparr>)"

section \<open>The inbox\<close>

datatype InputBacklogFault = QueueCount nat | NoProgress i32

record PlayerCommand =
  pc_client :: u32
  pc_command :: UserCmd
  pc_sequence :: "u32 option"

definition unsequenced :: "u32 \<Rightarrow> UserCmd \<Rightarrow> PlayerCommand" where
  "unsequenced client command = \<lparr>pc_client = client, pc_command = command, pc_sequence = None\<rparr>"

record GatheredCommands =
  gc_cmds :: "PlayerCommand list"
  gc_acks :: "(u32 \<times> u32) list"
  gc_proxied :: "u32 list"
  gc_samples :: "(u32 \<times> i32 \<times> ShotSampleProvenance) list"
  gc_backlog_faults :: "(u32 \<times> InputBacklogFault) list"

definition gathered_default :: GatheredCommands where
  "gathered_default = \<lparr>gc_cmds = [], gc_acks = [], gc_proxied = [], gc_samples = [], gc_backlog_faults = []\<rparr>"

type_synonym cmd_row = "u32 option \<times> UserCmd \<times> ShotSampleProvenance"

record ClientCommandInbox =
  ci_queued :: "(u32, cmd_row list) hash_map"
  ci_last_consumed :: "(u32, UserCmd) hash_map"
  ci_last_acked_seq :: "(u32, u32) hash_map"
  ci_blocked_head :: "(u32, u32 \<times> i32) hash_map"

definition inbox_default :: ClientCommandInbox where
  "inbox_default = \<lparr>ci_queued = [], ci_last_consumed = [], ci_last_acked_seq = [], ci_blocked_head = []\<rparr>"

definition NO_CLAIM :: ShotSampleProvenance where
  "NO_CLAIM = \<lparr>ss_left = 0, ss_right = 0, ss_alpha = 0, ss_quality = QNone\<rparr>"

definition queue_of :: "ClientCommandInbox \<Rightarrow> u32 \<Rightarrow> cmd_row list" where
  "queue_of ib cid = (case hm_get (ci_queued ib) cid of Some q \<Rightarrow> q | None \<Rightarrow> [])"

definition is_repeat :: "u32 \<Rightarrow> u32 \<Rightarrow> ClientCommandInbox \<Rightarrow> bool" where
  "is_repeat cid s ib \<longleftrightarrow> (case hm_get (ci_last_acked_seq ib) cid of Some acked \<Rightarrow> s \<le> acked | None \<Rightarrow> False)
     \<or> list_ex (\<lambda>(qs, _). qs = Some s) (queue_of ib cid)"

definition insert_row :: "cmd_row \<Rightarrow> cmd_row list \<Rightarrow> cmd_row list" where
  "insert_row row queue = (case fst row of
     Some sequence \<Rightarrow>
       let before = takeWhile (\<lambda>(other, _). \<not> (case other of Some o' \<Rightarrow> sequence < o' | None \<Rightarrow> False)) queue
       in before @ row # drop (length before) queue
   | None \<Rightarrow> queue @ [row])"

definition inbox_push :: "u32 \<Rightarrow> u32 option \<Rightarrow> UserCmd \<Rightarrow> ShotSampleProvenance option \<Rightarrow> ClientCommandInbox \<Rightarrow> ClientCommandInbox" where
  "inbox_push cid seq cmd sample ib =
     (if (case seq of Some s \<Rightarrow> is_repeat cid s ib | None \<Rightarrow> False) then ib
      else if MAX_QUEUED_COMMANDS_PER_PEER < length (queue_of ib cid) then ib
      else let row = (seq, cmd, case sample of Some s \<Rightarrow> s | None \<Rightarrow> NO_CLAIM)
        in ib\<lparr>ci_queued := hm_insert cid (insert_row row (queue_of ib cid)) (ci_queued ib)\<rparr>)"

definition inbox_clear :: "ClientCommandInbox \<Rightarrow> ClientCommandInbox" where
  "inbox_clear ib = inbox_default"

definition inbox_retire_client :: "u32 \<Rightarrow> ClientCommandInbox \<Rightarrow> ClientCommandInbox" where
  "inbox_retire_client cid ib = \<lparr>ci_queued = hm_remove cid (ci_queued ib), ci_last_consumed = hm_remove cid (ci_last_consumed ib),
     ci_last_acked_seq = hm_remove cid (ci_last_acked_seq ib), ci_blocked_head = hm_remove cid (ci_blocked_head ib)\<rparr>"

text \<open>The sequence numbers of a queue, in its order.\<close>

definition seqs_of :: "cmd_row list \<Rightarrow> u32 list" where
  "seqs_of q = List.map_filter fst q"

definition backlog_fault :: "u32 \<Rightarrow> i32 \<Rightarrow> ClientCommandInbox \<Rightarrow> InputBacklogFault option \<times> ClientCommandInbox" where
  "backlog_fault cid time_ms ib = (case hm_get (ci_queued ib) cid of None \<Rightarrow> (None, ib) | Some queue \<Rightarrow>
     let sequenced = length queue - length (filter (\<lambda>(seq, _). seq = None) queue) in
     if sequenced = 0 then (None, ib)
     else if MAX_QUEUED_COMMANDS_PER_PEER < sequenced then (Some (QueueCount sequenced), ib)
     else (case seqs_of queue of [] \<Rightarrow> (None, ib)
       | head # _ \<Rightarrow>
         let entry = (case hm_get (ci_blocked_head ib) cid of Some b \<Rightarrow> b | None \<Rightarrow> (head, time_ms));
             blocked = (if fst entry \<noteq> head then (head, time_ms) else entry);
             ib' = ib\<lparr>ci_blocked_head := hm_insert cid blocked (ci_blocked_head ib)\<rparr>;
             stalled_ms = saturating_sub time_ms (snd blocked)
         in if sint MAX_COMMAND_STALL_MS < sint stalled_ms then (Some (NoProgress stalled_ms), ib') else (None, ib')))"

fun sum_steps :: "i32 option \<Rightarrow> i32 list \<Rightarrow> i32 \<Rightarrow> i32" where
  "sum_steps previous [] queued_ms = queued_ms"
| "sum_steps previous (t # ts) queued_ms =
     sum_steps (Some t) ts (case previous of
       Some p \<Rightarrow> saturating_add queued_ms (i32_clamp (saturating_sub t p) 0 COMMAND_TIME_STEP_MS)
     | None \<Rightarrow> queued_ms)"

definition queued_ms :: "u32 \<Rightarrow> i32 \<Rightarrow> ClientCommandInbox \<Rightarrow> i32" where
  "queued_ms cid time_ms ib = (case hm_get (ci_queued ib) cid of None \<Rightarrow> 0 | Some queue \<Rightarrow>
     let sequenced = map (\<lambda>(_, cmd, _). uc_server_time cmd) (filter (\<lambda>(seq, _). seq \<noteq> None) queue);
         previous = (case hm_get (ci_last_consumed ib) cid of Some cmd \<Rightarrow> Some (uc_server_time cmd)
           | None \<Rightarrow> (case sequenced of [] \<Rightarrow> None | t # _ \<Rightarrow> Some (i32_min time_ms t)))
     in sum_steps previous sequenced 0)"

definition shed_row :: "u32 \<Rightarrow> cmd_row \<Rightarrow> cmd_row list \<Rightarrow> ClientCommandInbox \<Rightarrow> ClientCommandInbox" where
  "shed_row cid row rest ib = (case row of (seq, cmd, _) \<Rightarrow>
     let ib' = ib\<lparr>ci_queued := hm_insert cid rest (ci_queued ib)\<rparr> in
     (case seq of None \<Rightarrow> ib'
      | Some s \<Rightarrow> ib'\<lparr>ci_last_acked_seq := hm_insert cid s (ci_last_acked_seq ib'),
          ci_last_consumed := hm_insert cid cmd (ci_last_consumed ib')\<rparr>))"

lemma ci_queued_shed_row [simp]: "ci_queued (shed_row cid row rest ib) = hm_insert cid rest (ci_queued ib)"
  by (auto simp: shed_row_def Let_def split: prod.splits option.splits)

function shed_excess :: "u32 \<Rightarrow> i32 \<Rightarrow> ClientCommandInbox \<Rightarrow> ClientCommandInbox" where
  "shed_excess cid time_ms ib =
     (if sint MAX_QUEUED_COMMAND_MS < sint (queued_ms cid time_ms ib)
      then (case queue_of ib cid of [] \<Rightarrow> ib | row # rest \<Rightarrow> shed_excess cid time_ms (shed_row cid row rest ib))
      else ib)"
  by pat_completeness auto
termination
  by (relation "measure (\<lambda>(cid, _, ib). length (queue_of ib cid))") (auto simp: queue_of_def hm_simps split: option.splits)

declare shed_excess.simps [simp del]

definition known_clients :: "ClientCommandInbox \<Rightarrow> u32 list" where
  "known_clients ib = remdups_adj (sort (hm_keys (ci_queued ib) @ hm_keys (ci_last_consumed ib)))"

definition clamp_lead :: "i32 \<Rightarrow> UserCmd \<Rightarrow> UserCmd" where
  "clamp_lead time_ms cmd = (if sint (saturating_add time_ms MAX_COMMAND_LEAD_MS) < sint (uc_server_time cmd)
     then cmd\<lparr>uc_server_time := time_ms\<rparr> else cmd)"

definition clamp_queue :: "u32 \<Rightarrow> i32 \<Rightarrow> ClientCommandInbox \<Rightarrow> ClientCommandInbox" where
  "clamp_queue cid time_ms ib = (case hm_get (ci_queued ib) cid of None \<Rightarrow> ib
     | Some queue \<Rightarrow> ib\<lparr>ci_queued := hm_insert cid (map (\<lambda>(seq, cmd, sample). (seq, clamp_lead time_ms cmd, sample)) queue) (ci_queued ib)\<rparr>)"

text \<open>How many rows at the front of the queue may run, given the next expected number.\<close>

fun runnable :: "i32 \<Rightarrow> u32 \<Rightarrow> cmd_row list \<Rightarrow> nat" where
  "runnable time_ms expected [] = 0"
| "runnable time_ms expected ((None, _) # rows) = Suc (runnable time_ms expected rows)"
| "runnable time_ms expected ((Some seq, cmd, _) # rows) =
     (let lost = expected < seq \<and> sint (uc_server_time cmd) \<le> sint (time_ms - LOST_COMMAND_HOLD_MS) in
      if (seq \<noteq> expected \<and> \<not> lost) \<or> sint time_ms < sint (uc_server_time cmd) then 0
      else Suc (runnable time_ms (seq + 1) rows))"

definition drain_front :: "nat \<Rightarrow> cmd_row list \<Rightarrow> cmd_row list" where
  "drain_front n queue =
     (let drained = take n queue;
          kept = (if list_all (\<lambda>(seq, _). seq = None) drained \<and> 1 < length drained then [last drained] else drained)
      in sort_key fst kept)"

definition idle_client :: "u32 \<Rightarrow> i32 \<Rightarrow> ClientCommandInbox \<Rightarrow> GatheredCommands \<times> ClientCommandInbox" where
  "idle_client cid time_ms ib =
     (let (fault, ib') = backlog_fault cid time_ms (shed_excess cid time_ms ib) in
      case fault of Some f \<Rightarrow> (gathered_default\<lparr>gc_backlog_faults := [(cid, f)]\<rparr>, ib')
      | None \<Rightarrow>
        (case hm_get (ci_last_acked_seq ib') cid of Some acked \<Rightarrow> (gathered_default\<lparr>gc_acks := [(cid, acked)]\<rparr>, ib')
         | None \<Rightarrow>
           (case hm_get (ci_last_consumed ib') cid of None \<Rightarrow> (gathered_default, ib')
            | Some consumed \<Rightarrow>
                let cmd = consumed\<lparr>uc_server_time := time_ms\<rparr> in
                (gathered_default\<lparr>gc_proxied := [cid], gc_cmds := [unsequenced cid cmd]\<rparr>,
                 ib'\<lparr>ci_last_consumed := hm_insert cid cmd (ci_last_consumed ib')\<rparr>))))"

definition run_row :: "u32 \<Rightarrow> i32 \<Rightarrow> cmd_row \<Rightarrow> GatheredCommands \<times> ClientCommandInbox \<Rightarrow> GatheredCommands \<times> ClientCommandInbox" where
  "run_row cid time_ms row go = (case row of (seq, cmd0, sample) \<Rightarrow> case go of (out, ib) \<Rightarrow>
     let cmd = (if seq \<noteq> None then cmd0 else cmd0\<lparr>uc_server_time := time_ms\<rparr>);
         ib1 = ib\<lparr>ci_last_consumed := hm_insert cid cmd (ci_last_consumed ib)\<rparr>;
         ib2 = (case seq of None \<Rightarrow> ib1 | Some s \<Rightarrow> ib1\<lparr>ci_last_acked_seq := hm_insert cid s (ci_last_acked_seq ib1)\<rparr>)
     in (out\<lparr>gc_samples := gc_samples out @ [(cid, uc_server_time cmd, sample)],
             gc_cmds := gc_cmds out @ [\<lparr>pc_client = cid, pc_command = cmd, pc_sequence = seq\<rparr>]\<rparr>, ib2))"

definition run_client :: "u32 \<Rightarrow> i32 \<Rightarrow> cmd_row list \<Rightarrow> ClientCommandInbox \<Rightarrow> GatheredCommands \<times> ClientCommandInbox" where
  "run_client cid time_ms drained ib =
     (let (out, ib1) = fold (run_row cid time_ms) drained
            (gathered_default, ib\<lparr>ci_blocked_head := hm_remove cid (ci_blocked_head ib)\<rparr>);
          acks = (if seqs_of drained = [] then [] else [(cid, last (seqs_of drained))]);
          (fault, ib2) = backlog_fault cid time_ms (shed_excess cid time_ms ib1)
      in (out\<lparr>gc_acks := acks, gc_backlog_faults := (case fault of Some f \<Rightarrow> [(cid, f)] | None \<Rightarrow> [])\<rparr>, ib2))"

text \<open>The body of the loop of \<open>take_for_tick\<close>: what it adds to the result, and the inbox after it.\<close>

definition take_client :: "i32 \<Rightarrow> u32 \<Rightarrow> ClientCommandInbox \<Rightarrow> GatheredCommands \<times> ClientCommandInbox" where
  "take_client time_ms cid ib =
     (let (fault, ib1) = backlog_fault cid time_ms (clamp_queue cid time_ms ib) in
      case fault of Some f \<Rightarrow> (gathered_default\<lparr>gc_backlog_faults := [(cid, f)]\<rparr>, ib1)
      | None \<Rightarrow>
        let expected = (case hm_get (ci_last_acked_seq ib1) cid of Some a \<Rightarrow> a | None \<Rightarrow> 0) + 1;
            queue = queue_of ib1 cid;
            n = min MAX_COMMANDS_PER_PEER_PER_FRAME (runnable time_ms expected queue);
            ib2 = (if hm_contains (ci_queued ib1) cid then ib1\<lparr>ci_queued := hm_insert cid (drop n queue) (ci_queued ib1)\<rparr> else ib1);
            drained = drain_front n queue
        in if drained = [] then idle_client cid time_ms ib2 else run_client cid time_ms drained ib2)"

definition gather_append :: "GatheredCommands \<Rightarrow> GatheredCommands \<Rightarrow> GatheredCommands" where
  "gather_append a b = \<lparr>gc_cmds = gc_cmds a @ gc_cmds b, gc_acks = gc_acks a @ gc_acks b, gc_proxied = gc_proxied a @ gc_proxied b,
     gc_samples = gc_samples a @ gc_samples b, gc_backlog_faults = gc_backlog_faults a @ gc_backlog_faults b\<rparr>"

definition take_for_tick :: "i32 \<Rightarrow> ClientCommandInbox \<Rightarrow> GatheredCommands \<times> ClientCommandInbox" where
  "take_for_tick time_ms ib =
     fold (\<lambda>cid (out, ib). let (more, ib') = take_client time_ms cid ib in (gather_append out more, ib'))
       (known_clients ib) (gathered_default, ib)"

section \<open>What the operations keep\<close>

abbreviation acked_of :: "ClientCommandInbox \<Rightarrow> u32 \<Rightarrow> u32 option" where
  "acked_of ib cid \<equiv> hm_get (ci_last_acked_seq ib) cid"

text \<open>The numbers of a queue increase and are beyond what is acknowledged (nothing is below any number).\<close>

definition client_ok :: "u32 option \<Rightarrow> cmd_row list \<Rightarrow> bool" where
  "client_ok acked q \<longleftrightarrow> sorted_wrt (<) (seqs_of q) \<and> (\<forall>s \<in> set (seqs_of q). acked < Some s)
     \<and> length q \<le> Suc MAX_QUEUED_COMMANDS_PER_PEER"

definition inbox_ok :: "ClientCommandInbox \<Rightarrow> bool" where
  "inbox_ok ib \<longleftrightarrow> (\<forall>cid. client_ok (acked_of ib cid) (queue_of ib cid))"

lemma queue_of_simps [simp]:
  "queue_of (ib\<lparr>ci_queued := hm_insert c q m\<rparr>) cid = (if cid = c then q else queue_of (ib\<lparr>ci_queued := m\<rparr>) cid)"
  "queue_of (ib\<lparr>ci_last_consumed := lc\<rparr>) cid = queue_of ib cid"
  "queue_of (ib\<lparr>ci_last_acked_seq := la\<rparr>) cid = queue_of ib cid"
  "queue_of (ib\<lparr>ci_blocked_head := bh\<rparr>) cid = queue_of ib cid"
  "ci_queued ib = m \<Longrightarrow> queue_of (ib\<lparr>ci_queued := m\<rparr>) cid = queue_of ib cid"
  by (auto simp: queue_of_def hm_simps)

lemma seqs_of_simps [simp]:
  "seqs_of [] = []" "seqs_of ((None, x) # q) = seqs_of q" "seqs_of ((Some s, x) # q) = s # seqs_of q"
  "seqs_of (p @ q) = seqs_of p @ seqs_of q"
  by (simp_all add: seqs_of_def List.map_filter_def)

lemma set_seqs_of: "s \<in> set (seqs_of q) \<longleftrightarrow> (\<exists>x. (Some s, x) \<in> set q)"
  by (induction q) (auto simp: seqs_of_def List.map_filter_def)

lemma length_seqs_of: "length (seqs_of q) = length q - length (filter (\<lambda>(seq, _). seq = None) q)"
proof (induction q)
  case (Cons row q)
  then show ?case using length_filter_le [of "\<lambda>(seq, _). seq = None" q] by (cases row; cases "fst row") (auto simp: Suc_diff_le)
qed simp

text \<open>
  \<open>moves cid es ib ib'\<close>: the client's numbers \<open>es\<close> ran, in order; they came from its queue, all beyond
  what was acknowledged before and none beyond what is acknowledged after.
\<close>

definition moves :: "u32 \<Rightarrow> u32 list \<Rightarrow> ClientCommandInbox \<Rightarrow> ClientCommandInbox \<Rightarrow> bool" where
  "moves cid es ib ib' \<longleftrightarrow> client_ok (acked_of ib' cid) (queue_of ib' cid) \<and> sorted_wrt (<) es
     \<and> (\<forall>e \<in> set es. acked_of ib cid < Some e \<and> Some e \<le> acked_of ib' cid) \<and> acked_of ib cid \<le> acked_of ib' cid
     \<and> set es \<union> set (seqs_of (queue_of ib' cid)) \<subseteq> set (seqs_of (queue_of ib cid))"

lemma moves_trans:
  assumes "moves cid es ib ib1" and "moves cid fs ib1 ib2"
  shows "moves cid (es @ fs) ib ib2"
proof -
  have le: "acked_of ib cid \<le> acked_of ib1 cid" "acked_of ib1 cid \<le> acked_of ib2 cid" using assms by (auto simp: moves_def)
  have es: "acked_of ib cid < Some e \<and> Some e \<le> acked_of ib1 cid" if "e \<in> set es" for e using assms(1) that by (simp add: moves_def)
  have fs: "acked_of ib1 cid < Some f \<and> Some f \<le> acked_of ib2 cid" if "f \<in> set fs" for f using assms(2) that by (simp add: moves_def)
  have "e < f" if "e \<in> set es" "f \<in> set fs" for e f
    using es [OF that(1)] fs [OF that(2)] le_less_trans [of "Some e"] by (metis less_option_Some)
  moreover have "acked_of ib cid < Some e \<and> Some e \<le> acked_of ib2 cid" if "e \<in> set es \<union> set fs" for e
    using that es [of e] fs [of e] le by (meson UnE le_less_trans order_trans)
  ultimately show ?thesis using assms le order_trans [OF le] unfolding moves_def sorted_wrt_append by auto
qed

lemma moves_same:
  "client_ok (acked_of ib cid) (queue_of ib cid) \<Longrightarrow> queue_of ib' cid = queue_of ib cid \<Longrightarrow> acked_of ib' cid = acked_of ib cid
    \<Longrightarrow> moves cid [] ib ib'"
  by (simp add: moves_def)

lemma moves_okD: "moves cid es ib ib' \<Longrightarrow> client_ok (acked_of ib' cid) (queue_of ib' cid)"
  by (simp add: moves_def)

lemma backlog_fault_keeps [simp]:
  "ci_queued (snd (backlog_fault c t ib)) = ci_queued ib" "ci_last_consumed (snd (backlog_fault c t ib)) = ci_last_consumed ib"
  "ci_last_acked_seq (snd (backlog_fault c t ib)) = ci_last_acked_seq ib" "queue_of (snd (backlog_fault c t ib)) cid = queue_of ib cid"
proof -
  show "ci_queued (snd (backlog_fault c t ib)) = ci_queued ib" "ci_last_consumed (snd (backlog_fault c t ib)) = ci_last_consumed ib"
    "ci_last_acked_seq (snd (backlog_fault c t ib)) = ci_last_acked_seq ib"
    by (auto simp: backlog_fault_def Let_def split: option.splits list.splits)
  then show "queue_of (snd (backlog_fault c t ib)) cid = queue_of ib cid" by (simp add: queue_of_def)
qed

lemma clamp_queue_keeps [simp]:
  "seqs_of (queue_of (clamp_queue c t ib) cid) = seqs_of (queue_of ib cid)" "length (queue_of (clamp_queue c t ib) cid) = length (queue_of ib cid)"
  "ci_last_acked_seq (clamp_queue c t ib) = ci_last_acked_seq ib" "ci_last_consumed (clamp_queue c t ib) = ci_last_consumed ib"
  "cid \<noteq> c \<Longrightarrow> queue_of (clamp_queue c t ib) cid = queue_of ib cid"
proof -
  have "seqs_of (map (\<lambda>(seq, cmd, sample). (seq, f cmd, sample)) q) = seqs_of q" for f q
    by (induction q) (auto simp: seqs_of_def List.map_filter_def split: option.splits)
  then show "seqs_of (queue_of (clamp_queue c t ib) cid) = seqs_of (queue_of ib cid)"
    by (auto simp: clamp_queue_def queue_of_def hm_simps split: option.splits)
qed (auto simp: clamp_queue_def queue_of_def hm_simps split: option.splits)

lemma client_ok_tl: "client_ok a ((s, x) # q) \<Longrightarrow> client_ok a q"
  by (cases s) (auto simp: client_ok_def)

lemma client_ok_drop: "client_ok a q \<Longrightarrow> client_ok a (drop n q)"
proof (induction n arbitrary: q)
  case (Suc n)
  then show ?case by (cases q) (auto dest: client_ok_tl)
qed simp

lemma queue_of_shed_row [simp]: "queue_of (shed_row cid row rest ib) cid = rest"
  by (simp add: queue_of_def hm_simps)

lemma shed_row_moves:
  "client_ok (acked_of ib cid) (queue_of ib cid) \<Longrightarrow> queue_of ib cid = row # rest \<Longrightarrow> moves cid [] ib (shed_row cid row rest ib)"
  by (cases row; cases "fst row") (auto simp: moves_def shed_row_def client_ok_def hm_simps)

text \<open>What \<open>shed_excess\<close> does holds if it holds of doing nothing and of shedding one row first.\<close>

lemma shed_excess_rule:
  assumes "P ib" and "\<And>ib row rest. P ib \<Longrightarrow> queue_of ib cid = row # rest \<Longrightarrow> P (shed_row cid row rest ib)"
  shows "P (shed_excess cid t ib)"
  using assms
proof (induction cid t ib rule: shed_excess.induct)
  case (1 cid t ib)
  show ?case
  proof (cases "sint MAX_QUEUED_COMMAND_MS < sint (queued_ms cid t ib)")
    case False
    with "1.prems" show ?thesis by (subst shed_excess.simps) simp
  next
    case True
    show ?thesis
    proof (cases "queue_of ib cid")
      case (Cons row rest)
      from "1.IH" [OF True this] "1.prems" Cons True show ?thesis by (subst shed_excess.simps) simp
    qed (use "1.prems" True in \<open>subst shed_excess.simps, simp\<close>)
  qed
qed

lemma shed_excess_moves:
  assumes "client_ok (acked_of ib cid) (queue_of ib cid)"
  shows "moves cid [] ib (shed_excess cid t ib)"
proof (rule shed_excess_rule)
  show "moves cid [] ib ib" using assms by (simp add: moves_same)
  show "moves cid [] ib (shed_row cid row rest ib1)" if "moves cid [] ib ib1" "queue_of ib1 cid = row # rest" for ib1 row rest
    using moves_trans [OF that(1) shed_row_moves [OF moves_okD [OF that(1)] that(2)]] by simp
qed

text \<open>An operation on one client leaves everything of the other clients as it is.\<close>

definition client_view :: "ClientCommandInbox \<Rightarrow> u32 \<Rightarrow> cmd_row list option \<times> UserCmd option \<times> u32 option \<times> (u32 \<times> i32) option" where
  "client_view ib d = (hm_get (ci_queued ib) d, hm_get (ci_last_consumed ib) d, acked_of ib d, hm_get (ci_blocked_head ib) d)"

definition only_client :: "u32 \<Rightarrow> ClientCommandInbox \<Rightarrow> ClientCommandInbox \<Rightarrow> bool" where
  "only_client cid ib ib' \<longleftrightarrow> (\<forall>d. d \<noteq> cid \<longrightarrow> client_view ib' d = client_view ib d)"

lemma view_eqD: "client_view ib d = client_view ib' d \<Longrightarrow> queue_of ib d = queue_of ib' d \<and> acked_of ib d = acked_of ib' d"
  by (simp add: client_view_def queue_of_def)

lemma only_refl [simp]: "only_client cid ib ib"
  by (simp add: only_client_def)

lemma only_trans: "only_client cid ib ib1 \<Longrightarrow> only_client cid ib1 ib2 \<Longrightarrow> only_client cid ib ib2"
  by (simp add: only_client_def)

lemmas only_defs = only_client_def client_view_def hm_simps

lemma only_backlog_fault [simp]: "only_client cid ib (snd (backlog_fault cid t ib)) "
  by (auto simp: backlog_fault_def Let_def only_defs split: option.splits list.splits)

lemma only_clamp [simp]: "only_client cid ib (clamp_queue cid t ib)"
  by (auto simp: clamp_queue_def only_defs split: option.splits)

lemma only_shed [simp]: "only_client cid ib (shed_excess cid t ib)"
proof (rule shed_excess_rule)
  show "only_client cid ib (shed_row cid row rest ib1)" if "only_client cid ib ib1" for ib1 row rest
    using that by (cases row; cases "fst row") (simp_all add: shed_row_def Let_def only_defs)
qed simp

section \<open>Running the commands of a tick\<close>

definition executed :: "u32 \<Rightarrow> GatheredCommands \<Rightarrow> u32 list" where
  "executed cid out = List.map_filter pc_sequence (filter (\<lambda>p. pc_client p = cid) (gc_cmds out))"

definition row_command :: "u32 \<Rightarrow> i32 \<Rightarrow> cmd_row \<Rightarrow> PlayerCommand" where
  "row_command cid t row = (case row of (seq, cmd, _) \<Rightarrow>
     \<lparr>pc_client = cid, pc_command = (if seq \<noteq> None then cmd else cmd\<lparr>uc_server_time := t\<rparr>), pc_sequence = seq\<rparr>)"

lemma run_rows:
  assumes "fold (run_row cid t) rows (out, ib) = (out', ib')"
  shows "gc_cmds out' = gc_cmds out @ map (row_command cid t) rows" and "ci_queued ib' = ci_queued ib"
    and "acked_of ib' d = (if d = cid \<and> seqs_of rows \<noteq> [] then Some (last (seqs_of rows)) else acked_of ib d)"
proof -
  have "gc_cmds out' = gc_cmds out @ map (row_command cid t) rows \<and> ci_queued ib' = ci_queued ib
    \<and> acked_of ib' d = (if d = cid \<and> seqs_of rows \<noteq> [] then Some (last (seqs_of rows)) else acked_of ib d)"
    using assms
  proof (induction rows arbitrary: out ib)
    case (Cons row rows)
    obtain seq cmd sample where row: "row = (seq, cmd, sample)" by (cases row)
    obtain out1 ib1 where 1: "run_row cid t row (out, ib) = (out1, ib1)" by fastforce
    from Cons.IH [of out1 ib1] Cons.prems 1 show ?case
      by (cases seq) (auto simp: row run_row_def row_command_def Let_def hm_simps)
  qed simp
  then show "gc_cmds out' = gc_cmds out @ map (row_command cid t) rows" "ci_queued ib' = ci_queued ib"
    "acked_of ib' d = (if d = cid \<and> seqs_of rows \<noteq> [] then Some (last (seqs_of rows)) else acked_of ib d)" by auto
qed

lemma seqs_of_commands: "List.map_filter pc_sequence (map (row_command cid t) rows) = seqs_of rows"
  by (induction rows) (auto simp: List.map_filter_def seqs_of_def row_command_def)

lemma seqs_of_sort: "seqs_of (sort_key fst q) = sort (seqs_of q)"
proof (induction q)
  case (Cons row q)
  have ins: "seqs_of (insort_key fst row q) = (case fst row of None \<Rightarrow> seqs_of q | Some s \<Rightarrow> insort s (seqs_of q))"
    if "sorted (map fst q)" for row :: cmd_row and q
    using that
  proof (induction q)
    case Nil
    then show ?case by (cases row; cases "fst row") auto
  next
    case (Cons r q)
    then show ?case by (cases row; cases r; cases "fst row"; cases "fst r") (auto split: option.splits)
  qed
  obtain s x where row: "row = (s, x)" by (cases row)
  show ?case using Cons ins [of "sort_key fst q" row] by (cases s) (simp_all add: row)
qed simp

lemma seqs_of_drain:
  assumes "sorted_wrt (<) (seqs_of q)"
  shows "seqs_of (drain_front n q) = seqs_of (take n q)"
proof -
  have "sorted_wrt (<) (seqs_of (take n q @ drop n q))" using assms by simp
  then have s: "sorted (seqs_of (take n q))"
    by (simp add: sorted_wrt_append strict_sorted_imp_sorted del: append_take_drop_id)
  have e: "seqs_of rows = []" if "list_all (\<lambda>(seq, _). seq = None) rows" for rows :: "cmd_row list"
    using that by (induction rows) auto
  have "seqs_of [last (take n q)] = []"
    if "list_all (\<lambda>(seq, _). seq = None) (take n q)" "1 < length (take n q)"
    using that e [of "[last (take n q)]"] last_in_set [of "take n q"] by (fastforce simp: list_all_iff)
  with s e [of "take n q"] show ?thesis by (auto simp: drain_front_def Let_def seqs_of_sort sorted_sort_id)
qed

lemma idle_client_moves:
  assumes "client_ok (acked_of ib cid) (queue_of ib cid)"
  shows "moves cid [] ib (snd (idle_client cid t ib))" and "executed d (fst (idle_client cid t ib)) = []"
proof -
  obtain f ib' where f: "backlog_fault cid t (shed_excess cid t ib) = (f, ib')" by fastforce
  have k: "queue_of ib' d = queue_of (shed_excess cid t ib) d" "acked_of ib' d = acked_of (shed_excess cid t ib) d" for d
    using backlog_fault_keeps [of cid t "shed_excess cid t ib"] f by simp_all
  have s: "queue_of (snd (idle_client cid t ib)) d = queue_of ib' d" "acked_of (snd (idle_client cid t ib)) d = acked_of ib' d" for d
    by (simp_all add: idle_client_def f Let_def split: option.splits)
  show "moves cid [] ib (snd (idle_client cid t ib))"
    using shed_excess_moves [OF assms, of t] by (simp add: moves_def s k)
  show "executed d (fst (idle_client cid t ib)) = []"
    by (auto simp: idle_client_def f Let_def executed_def gathered_default_def unsequenced_def List.map_filter_def split: option.splits)
qed

lemma only_idle: "only_client cid ib (snd (idle_client cid t ib))"
proof -
  obtain f ib' where f: "backlog_fault cid t (shed_excess cid t ib) = (f, ib')" by fastforce
  have "only_client cid ib ib'" using only_backlog_fault [of cid "shed_excess cid t ib" t] only_shed [of cid ib t] f only_trans by fastforce
  then show ?thesis by (simp add: idle_client_def f Let_def only_defs split: option.splits)
qed

lemma run_client_parts:
  assumes "run_client cid t rows ib = (out, ib')"
  shows "gc_cmds out = map (row_command cid t) rows"
    and "\<exists>ib1. ci_queued ib1 = ci_queued ib
      \<and> (\<forall>d. acked_of ib1 d = (if d = cid \<and> seqs_of rows \<noteq> [] then Some (last (seqs_of rows)) else acked_of ib d))
      \<and> (\<forall>d. queue_of ib' d = queue_of (shed_excess cid t ib1) d \<and> acked_of ib' d = acked_of (shed_excess cid t ib1) d)"
    and "only_client cid ib ib'"
proof -
  obtain out1 ib1 where 1: "fold (run_row cid t) rows (gathered_default, ib\<lparr>ci_blocked_head := hm_remove cid (ci_blocked_head ib)\<rparr>) = (out1, ib1)"
    by fastforce
  obtain f ib2 where f: "backlog_fault cid t (shed_excess cid t ib1) = (f, ib2)" by fastforce
  have e: "gc_cmds out = gc_cmds out1" "ib' = ib2" using assms by (auto simp: run_client_def 1 f)
  note r = run_rows [OF 1]
  show "gc_cmds out = map (row_command cid t) rows" using r(1) e by (simp add: gathered_default_def)
  have "queue_of ib' d = queue_of (shed_excess cid t ib1) d" "acked_of ib' d = acked_of (shed_excess cid t ib1) d" for d
    using backlog_fault_keeps [of cid t "shed_excess cid t ib1"] f e by simp_all
  with r(2,3) show "\<exists>ib1. ci_queued ib1 = ci_queued ib
      \<and> (\<forall>d. acked_of ib1 d = (if d = cid \<and> seqs_of rows \<noteq> [] then Some (last (seqs_of rows)) else acked_of ib d))
      \<and> (\<forall>d. queue_of ib' d = queue_of (shed_excess cid t ib1) d \<and> acked_of ib' d = acked_of (shed_excess cid t ib1) d)"
    by (intro exI [of _ ib1]) simp
  have "only_client cid ib0 (snd (fold (run_row cid t) rows (out0, ib0)))" for out0 ib0
  proof (induction rows arbitrary: out0 ib0)
    case (Cons row rows)
    obtain o1 i1 where 1: "run_row cid t row (out0, ib0) = (o1, i1)" by fastforce
    then have "only_client cid ib0 i1" by (cases row) (auto simp: run_row_def Let_def only_defs split: option.splits)
    with Cons [of i1 o1] show ?case by (simp add: 1 only_trans)
  qed simp
  from this [of "ib\<lparr>ci_blocked_head := hm_remove cid (ci_blocked_head ib)\<rparr>" gathered_default]
  have "only_client cid (ib\<lparr>ci_blocked_head := hm_remove cid (ci_blocked_head ib)\<rparr>) ib1" using 1 by simp
  then have "only_client cid ib ib1" by (rule only_trans [rotated]) (simp add: only_defs)
  moreover have "only_client cid ib1 ib2"
    using only_backlog_fault [of cid "shed_excess cid t ib1" t] only_shed [of cid ib1 t] f only_trans by fastforce
  ultimately show "only_client cid ib ib'" using e(2) only_trans by blast
qed

lemma executed_commands:
  assumes "gc_cmds out = map (row_command cid t) rows"
  shows "executed d out = (if d = cid then seqs_of rows else [])"
proof -
  have "filter (\<lambda>p. pc_client p = d) (map (row_command cid t) rows) = (if d = cid then map (row_command cid t) rows else [])"
    by (induction rows) (auto simp: row_command_def)
  then show ?thesis unfolding executed_def assms by (simp add: seqs_of_commands) 
qed

lemma strict_sorted_last: "sorted_wrt (<) xs \<Longrightarrow> x \<in> set xs \<Longrightarrow> x \<le> last xs" for x :: "'a::linorder"
  by (induction xs rule: rev_induct) (auto simp: sorted_wrt_append)

lemma moves_take:
  assumes "client_ok (acked_of ib cid) (queue_of ib cid)" and "seqs_of (queue_of ib1 cid) = seqs_of (drop n q)"
    and "seqs_of (queue_of ib cid) = seqs_of q" and "length (queue_of ib1 cid) \<le> length (queue_of ib cid)"
    and "acked_of ib1 cid = (if seqs_of (take n q) = [] then acked_of ib cid else Some (last (seqs_of (take n q))))"
  shows "moves cid (seqs_of (take n q)) ib ib1"
proof -
  have q: "seqs_of (queue_of ib cid) = seqs_of (take n q) @ seqs_of (drop n q)"
    unfolding assms(3) seqs_of_simps(4) [symmetric] append_take_drop_id ..
  have s: "sorted_wrt (<) (seqs_of (take n q))" "sorted_wrt (<) (seqs_of (drop n q))"
    "\<And>a b. a \<in> set (seqs_of (take n q)) \<Longrightarrow> b \<in> set (seqs_of (drop n q)) \<Longrightarrow> a < b"
    using assms(1) by (auto simp: client_ok_def q sorted_wrt_append)
  have last: "e \<le> last (seqs_of (take n q))" if "e \<in> set (seqs_of (take n q))" for e
    by (rule strict_sorted_last [OF s(1) that])
  show ?thesis
  proof (cases "seqs_of (take n q) = []")
    case True
    with assms q show ?thesis by (simp add: moves_def client_ok_def)
  next
    case False
    then have l: "last (seqs_of (take n q)) \<in> set (seqs_of (take n q))" by simp
    have below: "acked_of ib cid < Some e" if "e \<in> set (seqs_of (take n q))" for e
      using assms(1) that by (auto simp: client_ok_def q)
    have len: "length (queue_of ib1 cid) \<le> Suc MAX_QUEUED_COMMANDS_PER_PEER" using assms(1,4) by (simp add: client_ok_def)
    have "acked_of ib1 cid = Some (last (seqs_of (take n q)))" using assms(5) False by simp
    then show ?thesis unfolding moves_def client_ok_def assms(2) q
      using s last below below [OF l] s(3) [OF l] len by (auto intro: less_imp_le)
  qed
qed

abbreviation led_queue :: "u32 \<Rightarrow> i32 \<Rightarrow> ClientCommandInbox \<Rightarrow> cmd_row list" where
  "led_queue cid t ib \<equiv> queue_of (clamp_queue cid t ib) cid"

definition take_count :: "u32 \<Rightarrow> i32 \<Rightarrow> ClientCommandInbox \<Rightarrow> nat" where
  "take_count cid t ib = min MAX_COMMANDS_PER_PEER_PER_FRAME
     (runnable t ((case acked_of ib cid of Some a \<Rightarrow> a | None \<Rightarrow> 0) + 1) (led_queue cid t ib))"

lemma take_client_cases:
  assumes "take_client t cid ib = (out, ib')"
  obtains (fault) f where "fst (backlog_fault cid t (clamp_queue cid t ib)) = Some f" "gc_cmds out = []" "gc_acks out = []"
      "queue_of ib' cid = led_queue cid t ib" "acked_of ib' cid = acked_of ib cid" "only_client cid ib ib'"
  | (idle) ib2 where "drain_front (take_count cid t ib) (led_queue cid t ib) = []" "idle_client cid t ib2 = (out, ib')"
      "queue_of ib2 cid = drop (take_count cid t ib) (led_queue cid t ib)" "acked_of ib2 cid = acked_of ib cid" "only_client cid ib ib2"
  | (run) ib2 where "run_client cid t (drain_front (take_count cid t ib) (led_queue cid t ib)) ib2 = (out, ib')"
      "queue_of ib2 cid = drop (take_count cid t ib) (led_queue cid t ib)" "acked_of ib2 cid = acked_of ib cid" "only_client cid ib ib2"
proof -
  obtain f ib1 where f: "backlog_fault cid t (clamp_queue cid t ib) = (f, ib1)" by fastforce
  have k: "queue_of ib1 cid = led_queue cid t ib" "acked_of ib1 cid = acked_of ib cid"
    using backlog_fault_keeps [of cid t "clamp_queue cid t ib"] f by simp_all
  have o1: "only_client cid ib ib1"
    using only_backlog_fault [of cid "clamp_queue cid t ib" t] only_clamp [of cid ib t] f only_trans by fastforce
  show thesis
  proof (cases f)
    case (Some flt)
    with assms f k o1 fault [of flt] show thesis by (auto simp: take_client_def gathered_default_def)
  next
    case None
    define q where "q = led_queue cid t ib"
    define n where "n = take_count cid t ib"
    define ib2 where "ib2 = (if hm_contains (ci_queued ib1) cid then ib1\<lparr>ci_queued := hm_insert cid (drop n q) (ci_queued ib1)\<rparr> else ib1)"
    have t: "take_client t cid ib = (if drain_front n q = [] then idle_client cid t ib2 else run_client cid t (drain_front n q) ib2)"
      using None by (simp add: take_client_def f Let_def n_def q_def ib2_def take_count_def k)
    have "q = []" if "hm_get (ci_queued ib1) cid = None" using that unfolding q_def k(1) [symmetric] by (simp add: queue_of_def)
    then have q2: "queue_of ib2 cid = drop n q" "acked_of ib2 cid = acked_of ib cid" by (auto simp: ib2_def k) (simp add: q_def)
    have o2: "only_client cid ib ib2" using o1 by (simp add: ib2_def only_defs)
    from assms t q2 o2 idle [of ib2] run [of ib2] show thesis unfolding n_def q_def by (simp split: if_splits)
  qed
qed

lemma take_client_moves:
  assumes ok: "client_ok (acked_of ib cid) (queue_of ib cid)" and "take_client t cid ib = (out, ib')"
  shows "moves cid (executed cid out) ib ib'"
proof -
  let ?q = "led_queue cid t ib" and ?n = "take_count cid t ib"
  have drain: "seqs_of (drain_front ?n ?q) = seqs_of (take ?n ?q)"
    using ok by (intro seqs_of_drain) (simp add: client_ok_def)
  have mv: "moves cid (seqs_of (take ?n ?q)) ib ib3"
    if "queue_of ib3 cid = drop ?n ?q" "acked_of ib3 cid = (if seqs_of (take ?n ?q) = [] then acked_of ib cid else Some (last (seqs_of (take ?n ?q))))" for ib3
    using that ok by (intro moves_take) simp_all
  from assms(2) show ?thesis
  proof (cases rule: take_client_cases)
    case (fault f)
    with ok show ?thesis by (auto simp: moves_def client_ok_def executed_def List.map_filter_def)
  next
    case (idle ib2)
    have m2: "moves cid [] ib ib2" using mv [of ib2] idle drain by simp
    note i = idle_client_moves [OF moves_okD [OF m2], where t = t]
    from moves_trans [OF m2 i(1)] i(2) [where d = cid] idle(2) show ?thesis by auto
  next
    case (run ib2)
    note p = run_client_parts [OF run(1)]
    from p(2) obtain ib3 where ib3: "ci_queued ib3 = ci_queued ib2"
      "\<And>d. acked_of ib3 d = (if d = cid \<and> seqs_of (drain_front ?n ?q) \<noteq> [] then Some (last (seqs_of (drain_front ?n ?q))) else acked_of ib2 d)"
      "\<And>d. queue_of ib' d = queue_of (shed_excess cid t ib3) d \<and> acked_of ib' d = acked_of (shed_excess cid t ib3) d" by blast
    have "queue_of ib3 cid = queue_of ib2 cid" using ib3(1) by (simp add: queue_of_def)
    then have m3: "moves cid (seqs_of (take ?n ?q)) ib ib3" using run ib3(2) drain by (intro mv) auto
    from moves_trans [OF m3 shed_excess_moves [OF moves_okD [OF m3], of t]]
    have "moves cid (seqs_of (take ?n ?q)) ib ib'" by (simp add: moves_def ib3(3))
    then show ?thesis using executed_commands [OF p(1)] drain by simp
  qed
qed

lemma take_client_only:
  assumes "take_client t cid ib = (out, ib')"
  shows "only_client cid ib ib'" and "(d, a) \<in> set (gc_acks out) \<Longrightarrow> d = cid"
proof -
  from assms have "only_client cid ib ib' \<and> ((d, a) \<in> set (gc_acks out) \<longrightarrow> d = cid)"
  proof (cases rule: take_client_cases)
    case (idle ib2)
    have "only_client cid ib2 ib'" using only_idle [of cid ib2 t] idle(2) by simp
    moreover have "(d, a) \<in> set (gc_acks out) \<longrightarrow> d = cid"
      using idle(2) by (auto simp: idle_client_def Let_def gathered_default_def split: prod.splits option.splits)
    ultimately show ?thesis using only_trans [OF idle(5)] by blast
  next
    case (run ib2)
    have "(d, a) \<in> set (gc_acks out) \<longrightarrow> d = cid"
      using run(1) by (auto simp: run_client_def Let_def split: prod.splits if_splits)
    with only_trans [OF run(4) run_client_parts(3) [OF run(1)]] show ?thesis by blast
  qed simp
  then show "only_client cid ib ib'" "(d, a) \<in> set (gc_acks out) \<Longrightarrow> d = cid" by auto
qed

text \<open>What runs comes from the queue: the same input, with at most its time changed.\<close>

definition same_input :: "UserCmd \<Rightarrow> UserCmd \<Rightarrow> bool" where
  "same_input c d \<longleftrightarrow> c\<lparr>uc_server_time := 0\<rparr> = d\<lparr>uc_server_time := 0\<rparr>"

definition row_from :: "cmd_row list \<Rightarrow> u32 option \<Rightarrow> UserCmd \<Rightarrow> bool" where
  "row_from q seq cmd \<longleftrightarrow> (\<exists>cmd0 sample. (seq, cmd0, sample) \<in> set q \<and> same_input cmd cmd0)"

lemma same_input_simps [simp]:
  "same_input c c" "same_input (c\<lparr>uc_server_time := t\<rparr>) d = same_input c d"
  by (simp_all add: same_input_def)

lemma same_input_lead [simp]: "same_input (clamp_lead t c) d = same_input c d"
  by (simp add: clamp_lead_def)

lemma row_from_led: "(seq, cmd, sample) \<in> set (led_queue cid t ib) \<Longrightarrow> same_input c cmd \<Longrightarrow> row_from (queue_of ib cid) seq c"
proof -
  assume row: "(seq, cmd, sample) \<in> set (led_queue cid t ib)" and c: "same_input c cmd"
  from row obtain cmd0 where 0: "(seq, cmd0, sample) \<in> set (queue_of ib cid)" and e: "cmd = clamp_lead t cmd0"
    by (cases "hm_get (ci_queued ib) cid") (auto simp: clamp_queue_def queue_of_def hm_simps)
  from c e have "same_input c cmd0" by (simp add: clamp_lead_def same_input_def split: if_splits)
  with 0 show ?thesis unfolding row_from_def by blast
qed

lemma set_drain_front: "set (drain_front n q) \<subseteq> set (take n q)"
proof -
  have "last (take n q) \<in> set (take n q)" if "1 < length (take n q)" using that by (intro last_in_set) auto
  then show ?thesis by (auto simp: drain_front_def Let_def)
qed

lemma length_drain_front: "length (drain_front n q) \<le> n"
  by (auto simp: drain_front_def Let_def min_def)

lemma shed_queue: "set (queue_of (shed_excess cid t ib) cid) \<subseteq> set (queue_of ib cid)"
  by (rule shed_excess_rule) auto

lemma idle_client_queue: "set (queue_of (snd (idle_client cid t ib)) cid) \<subseteq> set (queue_of ib cid)"
proof -
  obtain f ib' where f: "backlog_fault cid t (shed_excess cid t ib) = (f, ib')" by fastforce
  then have "queue_of ib' cid = queue_of (shed_excess cid t ib) cid" using backlog_fault_keeps(4) [of cid t "shed_excess cid t ib" cid] by simp
  then show ?thesis using shed_queue [of cid t ib] by (auto simp: idle_client_def f Let_def split: option.splits)
qed

lemma take_client_queue:
  assumes "take_client t cid ib = (out, ib')" and "(seq, cmd, sample) \<in> set (queue_of ib' cid)"
  shows "row_from (queue_of ib cid) seq cmd"
proof -
  from assms(1) have "set (queue_of ib' cid) \<subseteq> set (led_queue cid t ib)"
  proof (cases rule: take_client_cases)
    case (idle ib2)
    with idle_client_queue [of cid t ib2] show ?thesis by (auto dest: in_set_dropD)
  next
    case (run ib2)
    from run_client_parts(2) [OF run(1)] obtain ib3 where "ci_queued ib3 = ci_queued ib2" "queue_of ib' cid = queue_of (shed_excess cid t ib3) cid" by blast
    moreover from this(1) have "queue_of ib3 cid = queue_of ib2 cid" by (simp add: queue_of_def)
    ultimately show ?thesis using shed_queue [of cid t ib3] run(2) by (auto dest: in_set_dropD)
  qed simp
  with assms(2) show ?thesis by (intro row_from_led) auto
qed

lemma take_client_cmds:
  assumes "take_client t cid ib = (out, ib')"
  shows "length (gc_cmds out) \<le> MAX_COMMANDS_PER_PEER_PER_FRAME" and "p \<in> set (gc_cmds out) \<Longrightarrow> pc_client p = cid"
    and "p \<in> set (gc_cmds out) \<Longrightarrow> pc_sequence p = Some s \<Longrightarrow> row_from (queue_of ib cid) (Some s) (pc_command p)"
proof -
  let ?rows = "drain_front (take_count cid t ib) (led_queue cid t ib)"
  have len: "length ?rows \<le> MAX_COMMANDS_PER_PEER_PER_FRAME" using length_drain_front [of "take_count cid t ib"] by (simp add: take_count_def)
  have rf: "row_from (queue_of ib cid) (Some s) (pc_command p)" if "p \<in> set (map (row_command cid t) ?rows)" "pc_sequence p = Some s" for p s
  proof -
    from that obtain cmd sample where "(Some s, cmd, sample) \<in> set ?rows" "pc_command p = cmd" by (auto simp: row_command_def)
    moreover have "set ?rows \<subseteq> set (led_queue cid t ib)" using set_drain_front set_take_subset by fast
    ultimately show ?thesis by (intro row_from_led) auto
  qed
  have alt: "gc_cmds out = [] \<or> (\<exists>cmd. gc_cmds out = [unsequenced cid cmd]) \<or> gc_cmds out = map (row_command cid t) ?rows"
    using assms
  proof (cases rule: take_client_cases)
    case (idle ib2)
    then show ?thesis by (auto simp: idle_client_def Let_def gathered_default_def split: prod.splits option.splits)
  next
    case (run ib2)
    then show ?thesis using run_client_parts(1) by blast
  qed simp
  show "length (gc_cmds out) \<le> MAX_COMMANDS_PER_PEER_PER_FRAME" using alt len by (elim disjE exE) simp_all
  show "p \<in> set (gc_cmds out) \<Longrightarrow> pc_client p = cid" using alt by (elim disjE exE) (auto simp: unsequenced_def row_command_def)
  show "p \<in> set (gc_cmds out) \<Longrightarrow> pc_sequence p = Some s \<Longrightarrow> row_from (queue_of ib cid) (Some s) (pc_command p)"
    using alt rf [of p s] by (elim disjE exE) (simp_all add: unsequenced_def)
qed

text \<open>An acknowledgement covers what ran and is never behind an earlier one.\<close>

lemma take_client_acks:
  assumes ok: "client_ok (acked_of ib cid) (queue_of ib cid)" and "take_client t cid ib = (out, ib')"
  shows "gc_acks out = [] \<or> (\<exists>a. gc_acks out = [(cid, a)] \<and> acked_of ib cid \<le> Some a \<and> Some a \<le> acked_of ib' cid
    \<and> (\<forall>e \<in> set (executed cid out). e \<le> a))"
  using assms(2)
proof (cases rule: take_client_cases)
  case (idle ib2)
  have "gc_acks out = [] \<or> (\<exists>a. gc_acks out = [(cid, a)] \<and> acked_of ib' cid = Some a)"
    using idle(2) by (auto simp: idle_client_def Let_def gathered_default_def split: prod.splits option.splits)
  with take_client_moves [OF assms] show ?thesis by (auto simp: moves_def)
next
  case (run ib2)
  let ?es = "seqs_of (drain_front (take_count cid t ib) (led_queue cid t ib))"
  have "gc_acks out = (if ?es = [] then [] else [(cid, last ?es)])"
    using run(1) by (auto simp: run_client_def Let_def split: prod.splits)
  moreover have "executed cid out = ?es" using executed_commands [OF run_client_parts(1) [OF run(1)]] by simp
  moreover note m = take_client_moves [OF assms]
  moreover have "e \<le> last (executed cid out)" if "e \<in> set (executed cid out)" for e
    using m that by (intro strict_sorted_last) (auto simp: moves_def)
  moreover have "acked_of ib cid \<le> Some e \<and> Some e \<le> acked_of ib' cid" if "e \<in> set (executed cid out)" for e
    using m that by (auto simp: moves_def less_imp_le)
  ultimately show ?thesis using last_in_set [of ?es] by (cases "?es = []") simp_all
qed simp

section \<open>A tick\<close>

definition cmds_of :: "u32 \<Rightarrow> GatheredCommands \<Rightarrow> PlayerCommand list" where
  "cmds_of cid out = filter (\<lambda>p. pc_client p = cid) (gc_cmds out)"

definition acks_of :: "u32 \<Rightarrow> GatheredCommands \<Rightarrow> u32 list" where
  "acks_of cid out = map snd (filter (\<lambda>(d, _). d = cid) (gc_acks out))"

lemma of_append [simp]:
  "cmds_of cid (gather_append a b) = cmds_of cid a @ cmds_of cid b" "acks_of cid (gather_append a b) = acks_of cid a @ acks_of cid b"
  "cmds_of cid gathered_default = []" "acks_of cid gathered_default = []"
  by (simp_all add: cmds_of_def acks_of_def gather_append_def gathered_default_def)

lemma executed_cmds_of: "executed cid out = List.map_filter pc_sequence (cmds_of cid out)"
  by (simp add: executed_def cmds_of_def)

lemma take_client_of:
  assumes "take_client t d ib = (out, ib')"
  shows "cmds_of cid out = (if cid = d then gc_cmds out else [])" and "acks_of cid out = (if cid = d then map snd (gc_acks out) else [])"
proof -
  have "\<forall>p \<in> set (gc_cmds out). pc_client p = d" using take_client_cmds(2) [OF assms] by blast
  then show "cmds_of cid out = (if cid = d then gc_cmds out else [])" by (auto simp: cmds_of_def filter_empty_conv intro!: filter_True)
  have "\<forall>x \<in> set (gc_acks out). fst x = d" using take_client_only(2) [OF assms] by auto
  then show "acks_of cid out = (if cid = d then map snd (gc_acks out) else [])"
    by (auto simp: acks_of_def filter_empty_conv case_prod_beta intro!: arg_cong [of _ _ "map snd"] filter_True)
qed

abbreviation take_clients :: "i32 \<Rightarrow> u32 list \<Rightarrow> GatheredCommands \<times> ClientCommandInbox \<Rightarrow> GatheredCommands \<times> ClientCommandInbox" where
  "take_clients t ids \<equiv> fold (\<lambda>cid (out, ib). let (more, ib') = take_client t cid ib in (gather_append out more, ib')) ids"

lemma take_clients_others:
  assumes "take_clients t ids (out, ib) = (out', ib')" and "cid \<notin> set ids"
  shows "cmds_of cid out' = cmds_of cid out \<and> acks_of cid out' = acks_of cid out \<and> client_view ib' cid = client_view ib cid"
  using assms
proof (induction ids arbitrary: out ib)
  case (Cons d ids)
  obtain more ib1 where 1: "take_client t d ib = (more, ib1)" by fastforce
  have "client_view ib1 cid = client_view ib cid" using take_client_only(1) [OF 1] Cons.prems(2) by (simp add: only_client_def)
  with Cons.IH [of "gather_append out more" ib1] Cons.prems show ?case by (simp add: 1 take_client_of [OF 1])
qed simp

text \<open>In a tick each client's turn is its own step, on its own part of the inbox.\<close>

lemma take_clients_turn:
  assumes "take_clients t ids (out, ib) = (out', ib')" and "distinct ids" and "cid \<in> set ids"
  shows "\<exists>ib0 more ib1. client_view ib0 cid = client_view ib cid \<and> take_client t cid ib0 = (more, ib1)
    \<and> cmds_of cid out' = cmds_of cid out @ gc_cmds more \<and> acks_of cid out' = acks_of cid out @ map snd (gc_acks more)
    \<and> client_view ib' cid = client_view ib1 cid"
  using assms
proof (induction ids arbitrary: out ib)
  case (Cons d ids)
  obtain more ib1 where 1: "take_client t d ib = (more, ib1)" by fastforce
  have r: "take_clients t ids (gather_append out more, ib1) = (out', ib')" using Cons.prems(1) by (simp add: 1)
  show ?case
  proof (cases "cid = d")
    case True
    with take_clients_others [OF r, of cid] Cons.prems(2) 1 show ?thesis
      by (intro exI [of _ ib] exI [of _ more] exI [of _ ib1]) (simp add: take_client_of [OF 1])
  next
    case False
    then have "client_view ib1 cid = client_view ib cid" using take_client_only(1) [OF 1] by (simp add: only_client_def)
    with Cons.IH [OF r] Cons.prems(2,3) False show ?thesis by (simp add: take_client_of [OF 1])
  qed
qed simp

lemma known_clients_set: "distinct (known_clients ib)" "set (known_clients ib) = set (hm_keys (ci_queued ib)) \<union> set (hm_keys (ci_last_consumed ib))"
proof -
  have "distinct (remdups_adj xs)" if "sorted xs" for xs :: "u32 list"
    using that by (induction xs rule: remdups_adj.induct) auto
  then show "distinct (known_clients ib)" by (simp add: known_clients_def)
qed (simp add: known_clients_def)

lemma queued_known: "queue_of ib cid \<noteq> [] \<Longrightarrow> cid \<in> set (known_clients ib)"
  by (cases "hm_get (ci_queued ib) cid") (auto simp: known_clients_set queue_of_def dest: map_of_SomeD intro: rev_image_eqI)

lemma take_for_tick_turn:
  assumes "take_for_tick t ib = (out, ib')"
  shows "(cmds_of cid out = [] \<and> acks_of cid out = [] \<and> client_view ib' cid = client_view ib cid \<and> cid \<notin> set (known_clients ib))
   \<or> (\<exists>ib0 more ib1. client_view ib0 cid = client_view ib cid \<and> take_client t cid ib0 = (more, ib1)
    \<and> cmds_of cid out = gc_cmds more \<and> acks_of cid out = map snd (gc_acks more) \<and> client_view ib' cid = client_view ib1 cid)"
  using take_clients_others [of t "known_clients ib" gathered_default ib out ib' cid]
    take_clients_turn [of t "known_clients ib" gathered_default ib out ib' cid] assms
  by (cases "cid \<in> set (known_clients ib)") (simp_all add: take_for_tick_def known_clients_set(1))

section \<open>Arrivals and ticks in any order\<close>

lemma seqs_of_insert_row: "sorted_wrt (<) (seqs_of q) \<Longrightarrow> s \<notin> set (seqs_of q) \<Longrightarrow> seqs_of (insert_row (Some s, x) q) = insort s (seqs_of q)"
proof (induction q)
  case (Cons row q)
  obtain r y where row: "row = (r, y)" by (cases row)
  have "insort_key (\<lambda>x. x) s (seqs_of q) = s # seqs_of q" if "\<forall>b \<in> set (seqs_of q). s < b"
    using that by (cases "seqs_of q") (auto simp: less_imp_le)
  with Cons show ?case by (cases r) (auto simp: row insert_row_def Let_def)
qed (simp add: insert_row_def)

lemma set_insert_row: "set (insert_row row q) = insert row (set q)" "length (insert_row row q) = Suc (length q)"
proof -
  have "set (takeWhile P q) \<union> set (drop (length (takeWhile P q)) q) = set q" for P
    by (metis dropWhile_eq_drop set_append takeWhile_dropWhile_id)
  then show "set (insert_row row q) = insert row (set q)" by (auto simp: insert_row_def Let_def split: option.splits)
  have "length (takeWhile P q) \<le> length q" for P by (rule length_takeWhile_le)
  then show "length (insert_row row q) = Suc (length q)" by (simp add: insert_row_def Let_def split: option.splits)
qed

lemma inbox_push_ok:
  assumes "client_ok (acked_of ib cid) (queue_of ib cid)"
  shows "client_ok (acked_of (inbox_push d seq cmd sample ib) cid) (queue_of (inbox_push d seq cmd sample ib) cid)"
    and "acked_of (inbox_push d seq cmd sample ib) cid = acked_of ib cid"
    and "r \<in> set (queue_of (inbox_push d seq cmd sample ib) cid) \<Longrightarrow> r \<in> set (queue_of ib cid) \<or> (cid = d \<and> (\<exists>y. r = (seq, cmd, y)))"
proof -
  show a: "acked_of (inbox_push d seq cmd sample ib) cid = acked_of ib cid" by (simp add: inbox_push_def Let_def)
  show "r \<in> set (queue_of (inbox_push d seq cmd sample ib) cid) \<Longrightarrow> r \<in> set (queue_of ib cid) \<or> (cid = d \<and> (\<exists>y. r = (seq, cmd, y)))"
    by (auto simp: inbox_push_def Let_def set_insert_row split: if_splits)
  have "client_ok (acked_of ib cid) (insert_row (seq, y) (queue_of ib cid))"
    if "\<not> (case seq of Some s \<Rightarrow> is_repeat cid s ib | None \<Rightarrow> False)" "length (queue_of ib cid) \<le> MAX_QUEUED_COMMANDS_PER_PEER" for y
  proof (cases seq)
    case None
    with assms that show ?thesis by (simp add: client_ok_def insert_row_def)
  next
    case (Some s)
    with that have "acked_of ib cid < Some s" "s \<notin> set (seqs_of (queue_of ib cid))"
      by (auto simp: is_repeat_def set_seqs_of list_ex_iff not_le split: option.splits)
    moreover from this assms have "sorted_wrt (<) (insort s (seqs_of (queue_of ib cid)))"
      by (simp add: client_ok_def strict_sorted_iff sorted_insort distinct_insort)
    ultimately show ?thesis using assms that Some by (simp add: client_ok_def seqs_of_insert_row set_insert_row set_insort_key)
  qed
  with assms show "client_ok (acked_of (inbox_push d seq cmd sample ib) cid) (queue_of (inbox_push d seq cmd sample ib) cid)"
    unfolding a by (auto simp: inbox_push_def Let_def)
qed

datatype inbox_op = CommandArrives u32 "u32 option" UserCmd "ShotSampleProvenance option" | TickStarts i32 | ClientRetires u32 | InboxClears

fun inbox_step :: "inbox_op \<Rightarrow> ClientCommandInbox \<Rightarrow> GatheredCommands \<times> ClientCommandInbox" where
  "inbox_step (CommandArrives cid seq cmd sample) ib = (gathered_default, inbox_push cid seq cmd sample ib)"
| "inbox_step (TickStarts t) ib = take_for_tick t ib"
| "inbox_step (ClientRetires cid) ib = (gathered_default, inbox_retire_client cid ib)"
| "inbox_step InboxClears ib = (gathered_default, inbox_clear ib)"

fun inbox_run :: "inbox_op list \<Rightarrow> ClientCommandInbox \<Rightarrow> GatheredCommands list \<times> ClientCommandInbox" where
  "inbox_run [] ib = ([], ib)"
| "inbox_run (op # ops) ib = (let (out, ib1) = inbox_step op ib; (outs, ib2) = inbox_run ops ib1 in (out # outs, ib2))"

definition keeps_client :: "u32 \<Rightarrow> inbox_op \<Rightarrow> bool" where
  "keeps_client cid op \<longleftrightarrow> op \<noteq> ClientRetires cid \<and> op \<noteq> InboxClears"

lemma client_ok_empty [simp]: "client_ok a []"
  by (simp add: client_ok_def)

lemma take_client_view:
  assumes "client_view ib0 cid = client_view ib cid" and "client_view ib' cid = client_view ib1 cid"
  shows "moves cid es ib0 ib1 \<longleftrightarrow> moves cid es ib ib'"
  using view_eqD [OF assms(1)] view_eqD [OF assms(2)] by (simp add: moves_def)

text \<open>
  What one step does for a client: commands of its queue run in order, acknowledgements do not go
  back, and its queue gains only the input that the step brings, \<open>new\<close>.
\<close>

definition client_turn :: "u32 \<Rightarrow> (u32 option \<Rightarrow> UserCmd \<Rightarrow> bool) \<Rightarrow> ClientCommandInbox \<Rightarrow> GatheredCommands \<Rightarrow> ClientCommandInbox \<Rightarrow> bool" where
  "client_turn cid new ib out ib' \<longleftrightarrow> client_ok (acked_of ib' cid) (queue_of ib' cid) \<and> length (cmds_of cid out) \<le> MAX_COMMANDS_PER_PEER_PER_FRAME
     \<and> sorted_wrt (<) (executed cid out) \<and> acked_of ib cid \<le> acked_of ib' cid
     \<and> (\<forall>e \<in> set (executed cid out). acked_of ib cid < Some e \<and> Some e \<le> acked_of ib' cid)
     \<and> (acks_of cid out = [] \<or> (\<exists>a. acks_of cid out = [a] \<and> acked_of ib cid \<le> Some a \<and> Some a \<le> acked_of ib' cid
          \<and> (\<forall>e \<in> set (executed cid out). e \<le> a)))
     \<and> (\<forall>p \<in> set (cmds_of cid out). \<forall>s. pc_sequence p = Some s \<longrightarrow> row_from (queue_of ib cid) (Some s) (pc_command p))
     \<and> (\<forall>seq cmd. row_from (queue_of ib' cid) seq cmd \<longrightarrow> row_from (queue_of ib cid) seq cmd \<or> new seq cmd)"

lemma turn_nothing:
  assumes "client_ok (acked_of ib cid) (queue_of ib cid)" and "cmds_of cid out = []" and "acks_of cid out = []"
    and "queue_of ib' cid = queue_of ib cid" and "acked_of ib' cid = acked_of ib cid"
  shows "client_turn cid new ib out ib'"
  using assms by (simp add: client_turn_def executed_cmds_of List.map_filter_def)

lemma turn_take:
  assumes ok: "client_ok (acked_of ib cid) (queue_of ib cid)" and t: "take_client t cid ib = (out, ib')"
  shows "client_turn cid new ib out ib'"
proof -
  note m = take_client_moves [OF ok t, unfolded moves_def] and c = take_client_cmds [OF t] and o = take_client_of [OF t, of cid]
  have "row_from (queue_of ib cid) seq cmd" if "row_from (queue_of ib' cid) seq cmd" for seq cmd
  proof -
    from that obtain cmd0 sample where 0: "(seq, cmd0, sample) \<in> set (queue_of ib' cid)" "same_input cmd cmd0" by (auto simp: row_from_def)
    from take_client_queue [OF t 0(1)] 0(2) show ?thesis by (auto simp: row_from_def same_input_def)
  qed
  moreover have "acks_of cid out = [] \<or> (\<exists>a. acks_of cid out = [a] \<and> acked_of ib cid \<le> Some a \<and> Some a \<le> acked_of ib' cid
          \<and> (\<forall>e \<in> set (executed cid out). e \<le> a))"
    using take_client_acks [OF ok t] o by auto
  ultimately show ?thesis unfolding client_turn_def using m c o by simp
qed

lemma turn_view:
  assumes "client_turn cid new ib0 out0 ib1" and "client_view ib0 cid = client_view ib cid" and "client_view ib' cid = client_view ib1 cid"
    and "cmds_of cid out = cmds_of cid out0" and "acks_of cid out = acks_of cid out0"
  shows "client_turn cid new ib out ib'"
  using assms view_eqD [OF assms(2)] view_eqD [OF assms(3)] by (simp add: client_turn_def executed_cmds_of)

lemma turn_tick:
  assumes ok: "client_ok (acked_of ib cid) (queue_of ib cid)" and "take_for_tick t ib = (out, ib')"
  shows "client_turn cid new ib out ib'"
  using take_for_tick_turn [OF assms(2), of cid]
proof (elim disjE exE conjE)
  assume "cmds_of cid out = []" "acks_of cid out = []" "client_view ib' cid = client_view ib cid"
  with view_eqD [OF this(3)] ok show ?thesis by (intro turn_nothing) simp_all
next
  fix ib0 more ib1
  assume v: "client_view ib0 cid = client_view ib cid" "client_view ib' cid = client_view ib1 cid"
    and t: "take_client t cid ib0 = (more, ib1)" and o: "cmds_of cid out = gc_cmds more" "acks_of cid out = map snd (gc_acks more)"
  from ok view_eqD [OF v(1)] have "client_ok (acked_of ib0 cid) (queue_of ib0 cid)" by simp
  from turn_take [OF this t] v show ?thesis by (rule turn_view) (simp_all add: o take_client_of [OF t])
qed

lemma turn_push:
  assumes "client_ok (acked_of ib cid) (queue_of ib cid)"
  shows "client_turn cid (\<lambda>s c. d = cid \<and> s = seq \<and> same_input c cmd) ib gathered_default (inbox_push d seq cmd sample ib)"
proof -
  note p = inbox_push_ok [OF assms, where d = d and seq = seq and cmd = cmd and sample = sample]
  have "row_from (queue_of ib cid) s c \<or> (d = cid \<and> s = seq \<and> same_input c cmd)"
    if "row_from (queue_of (inbox_push d seq cmd sample ib) cid) s c" for s c
    using that p(3) by (fastforce simp: row_from_def)
  with p(1,2) show ?thesis by (simp add: client_turn_def executed_cmds_of List.map_filter_def)
qed

fun brings :: "u32 \<Rightarrow> inbox_op \<Rightarrow> u32 option \<Rightarrow> UserCmd \<Rightarrow> bool" where
  "brings cid (CommandArrives d seq cmd sample) s c = (d = cid \<and> s = seq \<and> same_input c cmd)"
| "brings cid _ s c = False"

lemma inbox_step_ok:
  assumes "client_ok (acked_of ib cid) (queue_of ib cid)" and "inbox_step op ib = (out, ib')"
  shows "client_ok (acked_of ib' cid) (queue_of ib' cid)" and "length (cmds_of cid out) \<le> MAX_COMMANDS_PER_PEER_PER_FRAME"
    and "keeps_client cid op \<Longrightarrow> client_turn cid (brings cid op) ib out ib'"
proof -
  have "client_turn cid (brings cid op) ib out ib' \<or> (out = gathered_default \<and> queue_of ib' cid = [] \<and> \<not> keeps_client cid op)"
  proof (cases op)
    case (CommandArrives d seq cmd sample)
    then have "brings cid op = (\<lambda>s c. d = cid \<and> s = seq \<and> same_input c cmd)" by (intro ext) simp
    with CommandArrives assms turn_push [OF assms(1), of d seq cmd sample] show ?thesis by auto
  next
    case (TickStarts t)
    with assms turn_tick [OF assms(1)] show ?thesis by simp
  next
    case (ClientRetires d)
    then have "out = gathered_default" "ib' = inbox_retire_client d ib" using assms(2) by auto
    then show ?thesis using assms(1) ClientRetires
      by (cases "d = cid") (auto intro!: turn_nothing simp: inbox_retire_client_def queue_of_def keeps_client_def hm_simps)
  next
    case InboxClears
    with assms show ?thesis by (auto simp: inbox_clear_def inbox_default_def queue_of_def keeps_client_def)
  qed
  then show "client_ok (acked_of ib' cid) (queue_of ib' cid)" "length (cmds_of cid out) \<le> MAX_COMMANDS_PER_PEER_PER_FRAME"
    "keeps_client cid op \<Longrightarrow> client_turn cid (brings cid op) ib out ib'"
    by (auto simp: client_turn_def)
qed

section \<open>A due command runs\<close>

lemma sint_clamp_i32: "sint (clamp_i32 i) = max (- 2147483648) (min 2147483647 i)"
  unfolding clamp_i32_def by (simp add: sint_sbintrunc' signed_take_bit_int_eq_self_iff)

lemma lead_due: "sint (uc_server_time cmd) \<le> sint t \<Longrightarrow> clamp_lead t cmd = cmd"
proof -
  have "sint t \<le> sint (saturating_add t MAX_COMMAND_LEAD_MS)"
    using sint_lt [of t] sint_ge [of t] by (auto simp: saturating_add_def sint_clamp_i32)
  then show "sint (uc_server_time cmd) \<le> sint t \<Longrightarrow> clamp_lead t cmd = cmd" by (simp add: clamp_lead_def)
qed

lemma backlog_fault_view:
  assumes "hm_get (ci_blocked_head ib) cid = hm_get (ci_blocked_head ib0) cid" and "hm_contains (ci_queued ib) cid = hm_contains (ci_queued ib0) cid"
    and "seqs_of (queue_of ib cid) = seqs_of (queue_of ib0 cid)" and "length (queue_of ib cid) = length (queue_of ib0 cid)"
  shows "fst (backlog_fault cid t ib) = fst (backlog_fault cid t ib0)"
proof (cases "hm_get (ci_queued ib) cid")
  case None
  with assms(2) show ?thesis by (auto simp: backlog_fault_def)
next
  case (Some q)
  with assms obtain q0 where q0: "hm_get (ci_queued ib0) cid = Some q0" by auto
  with Some assms(3) have "seqs_of q = seqs_of q0" by (simp add: queue_of_def)
  with Some q0 assms(1) show ?thesis by (auto simp: backlog_fault_def length_seqs_of [symmetric] Let_def split: list.splits)
qed

lemma backlog_fault_clamp: "fst (backlog_fault cid t (clamp_queue cid t ib)) = fst (backlog_fault cid t ib)"
  by (rule backlog_fault_view) (simp_all, auto simp: clamp_queue_def hm_simps split: option.splits)

lemma take_client_due:
  assumes "queue_of ib cid = (Some s, cmd, sample) # rest" and "s = (case acked_of ib cid of Some a \<Rightarrow> a | None \<Rightarrow> 0) + 1"
    and "sint (uc_server_time cmd) \<le> sint t" and "fst (backlog_fault cid t ib) = None" and "take_client t cid ib = (out, ib')"
  shows "\<lparr>pc_client = cid, pc_command = cmd, pc_sequence = Some s\<rparr> \<in> set (gc_cmds out)"
proof -
  have "\<exists>q. led_queue cid t ib = (Some s, cmd, sample) # q"
    using assms(1) lead_due [OF assms(3)] by (auto simp: clamp_queue_def queue_of_def hm_simps split: option.splits)
  then obtain q where q: "led_queue cid t ib = (Some s, cmd, sample) # q" ..
  then have "0 < take_count cid t ib" using assms(2,3) by (auto simp: take_count_def split: option.splits)
  then obtain n where n: "take_count cid t ib = Suc n" by (cases "take_count cid t ib") auto
  have row: "(Some s, cmd, sample) \<in> set (drain_front (take_count cid t ib) (led_queue cid t ib))"
    by (simp add: drain_front_def Let_def n q set_insort_key)
  from assms(5) show ?thesis
  proof (cases rule: take_client_cases)
    case (fault f)
    with assms(4) show ?thesis by (simp add: backlog_fault_clamp)
  next
    case (idle ib2)
    with row show ?thesis by simp
  next
    case (run ib2)
    from row show ?thesis unfolding run_client_parts(1) [OF run(1)] by (force simp: row_command_def)
  qed
qed

lemma shed_enough: "sint (queued_ms cid t (shed_excess cid t ib)) \<le> sint MAX_QUEUED_COMMAND_MS"
proof (induction cid t ib rule: shed_excess.induct)
  case (1 cid t ib)
  show ?case
  proof (cases "sint MAX_QUEUED_COMMAND_MS < sint (queued_ms cid t ib)")
    case False
    then show ?thesis by (subst shed_excess.simps) simp
  next
    case True
    then have "queue_of ib cid \<noteq> []" by (auto simp: queued_ms_def queue_of_def split: option.splits)
    then obtain row rest where "queue_of ib cid = row # rest" by (cases "queue_of ib cid") auto
    from "1.IH" [OF True this] this True show ?thesis by (subst shed_excess.simps) simp
  qed
qed

section \<open>The properties\<close>

definition sent_input :: "u32 \<Rightarrow> inbox_op list \<Rightarrow> PlayerCommand \<Rightarrow> bool" where
  "sent_input cid ops p \<longleftrightarrow> pc_sequence p = None \<or> list_ex (\<lambda>op. brings cid op (pc_sequence p) (pc_command p)) ops"

lemma inbox_run_client:
  assumes "client_ok (acked_of ib cid) (queue_of ib cid)" and "list_all (keeps_client cid) ops" and "inbox_run ops ib = (outs, ib')"
  shows "sorted_wrt (<) (concat (map (executed cid) outs)) \<and> (\<forall>e \<in> set (concat (map (executed cid) outs)). acked_of ib cid < Some e)
    \<and> sorted (concat (map (acks_of cid) outs)) \<and> (\<forall>a \<in> set (concat (map (acks_of cid) outs)). acked_of ib cid \<le> Some a)
    \<and> (\<forall>p \<in> set (concat (map (cmds_of cid) outs)). sent_input cid ops p \<or> row_from (queue_of ib cid) (pc_sequence p) (pc_command p))"
  using assms
proof (induction ops arbitrary: ib outs)
  case (Cons op ops)
  obtain out ib1 outs' where 1: "inbox_step op ib = (out, ib1)" and 2: "inbox_run ops ib1 = (outs', ib')" and o: "outs = out # outs'"
    using Cons.prems(3) by (auto simp: Let_def split: prod.splits)
  have k: "keeps_client cid op" "list_all (keeps_client cid) ops" using Cons.prems(2) by auto
  note s = inbox_step_ok [OF Cons.prems(1) 1]
  note turn = s(3) [OF k(1), unfolded client_turn_def]
  note IH = Cons.IH [OF s(1) k(2) 2]
  have le: "acked_of ib cid \<le> acked_of ib1 cid" using turn by blast
  have es: "e < f" if "e \<in> set (executed cid out)" "f \<in> set (concat (map (executed cid) outs'))" for e f
  proof -
    from that(1) turn have "Some e \<le> acked_of ib1 cid" by blast
    also from that(2) IH have "\<dots> < Some f" by blast
    finally show ?thesis by simp
  qed
  have as: "a \<le> b" if "a \<in> set (acks_of cid out)" "b \<in> set (concat (map (acks_of cid) outs'))" for a b
  proof -
    from that(1) turn have "Some a \<le> acked_of ib1 cid" by fastforce
    also from that(2) IH have "\<dots> \<le> Some b" by blast
    finally show ?thesis by simp
  qed
  have "acked_of ib cid < Some e" if "e \<in> set (executed cid out) \<union> set (concat (map (executed cid) outs'))" for e
    using le that IH turn le_less_trans by blast
  moreover have "acked_of ib cid \<le> Some a" if "a \<in> set (acks_of cid out) \<union> set (concat (map (acks_of cid) outs'))" for a
  proof -
    have "acked_of ib cid \<le> Some a" if "a \<in> set (acks_of cid out)" using turn that by fastforce
    with that le IH show ?thesis using order_trans by blast
  qed
  moreover have "sorted (acks_of cid out)" using turn by auto
  moreover have "sent_input cid (op # ops) p \<or> row_from (queue_of ib cid) (pc_sequence p) (pc_command p)"
    if "p \<in> set (cmds_of cid out) \<union> set (concat (map (cmds_of cid) outs'))" for p
    using that IH turn by (cases "pc_sequence p") (fastforce simp: sent_input_def)+
  ultimately show ?case
    using es as IH turn unfolding o list.map concat.simps set_append sorted_wrt_append sorted_append by (intro conjI) blast+
qed (simp add: sent_input_def)

text \<open>
  C17. Each numbered command runs at most once and in order, and is what was sent. However arrivals
  (repeated, reordered, of any client) and ticks interleave, as long as the client is not retired,
  the numbers that run for it strictly increase over all ticks, acknowledgements never go back,
  and every numbered command that runs is one that arrived with that number, changed at most in its
  time.
\<close>

theorem commands_run_once:
  assumes "list_all (keeps_client cid) ops" and "inbox_run ops inbox_default = (outs, ib)"
  shows "sorted_wrt (<) (concat (map (executed cid) outs)) \<and> sorted (concat (map (acks_of cid) outs))
    \<and> list_all (sent_input cid ops) (concat (map (cmds_of cid) outs))"
proof -
  have e: "queue_of inbox_default cid = []" by (simp add: queue_of_def inbox_default_def)
  then have "client_ok (acked_of inbox_default cid) (queue_of inbox_default cid)" by simp
  from inbox_run_client [OF this assms] show ?thesis by (auto simp: e row_from_def list_all_iff)
qed

definition sample_cmd :: "i32 \<Rightarrow> UserCmd" where
  "sample_cmd t = \<lparr>uc_server_time = t, uc_buttons = 0, uc_angles = (0, 0, 0), uc_gun_angle_offset = (0, 0), uc_weapon = 0,
     uc_weapon_mapped = 0, uc_off_hand_index = 0, uc_forwardmove = 0, uc_rightmove = 0, uc_melee_charge_yaw = 0,
     uc_melee_charge_dist = 0, uc_selected_location = (0, 0, 0), uc_remote_control = (0, 0)\<rparr>"

definition sample_ops :: "inbox_op list" where
  "sample_ops = [CommandArrives 7 (Some 2) (sample_cmd 60) None, CommandArrives 7 (Some 1) (sample_cmd 50) None, TickStarts 50,
     CommandArrives 7 (Some 1) (sample_cmd 50) None, CommandArrives 7 (Some 3) (sample_cmd 70) None, TickStarts 100]"

lemma sample_run: "map (executed 7) (fst (inbox_run sample_ops inbox_default)) = [[], [], [1], [], [], [2, 3]]"
  by code_simp

theorem commands_run_once_witness:
  "concat (map (executed 7) (fst (inbox_run sample_ops inbox_default))) = [1, 2, 3]
    \<and> list_all (sent_input 7 sample_ops) (concat (map (cmds_of 7) (fst (inbox_run sample_ops inbox_default))))"
proof -
  obtain outs ib where r: "inbox_run sample_ops inbox_default = (outs, ib)" by fastforce
  have "list_all (keeps_client 7) sample_ops" by (simp add: sample_ops_def keeps_client_def)
  from commands_run_once [OF this r] sample_run r show ?thesis by simp
qed

text \<open>
  The inbox is bounded. After any arrivals, ticks and retirements a client has at most 257
  queued commands, and in every single step at most 32 commands run for it; shedding ends and
  leaves at most one second of queued command time.
\<close>

lemma inbox_bounded:
  "length (queue_of (snd (inbox_run ops inbox_default)) cid) \<le> 257
   \<and> list_all (\<lambda>out. length (cmds_of cid out) \<le> 32) (fst (inbox_run ops inbox_default))
   \<and> sint (queued_ms cid t (shed_excess cid t ib)) \<le> 1000"
proof -
  have "client_ok (acked_of (snd (inbox_run ops ib)) cid) (queue_of (snd (inbox_run ops ib)) cid)
      \<and> list_all (\<lambda>out. length (cmds_of cid out) \<le> 32) (fst (inbox_run ops ib))"
    if "client_ok (acked_of ib cid) (queue_of ib cid)" for ib
    using that
  proof (induction ops arbitrary: ib)
    case (Cons op ops)
    obtain out ib1 where 1: "inbox_step op ib = (out, ib1)" by fastforce
    note s = inbox_step_ok(1,2) [OF Cons.prems 1]
    from Cons.IH [OF s(1)] s(2) show ?case by (simp add: 1 Let_def case_prod_beta)
  qed simp
  moreover have "client_ok (acked_of inbox_default cid) (queue_of inbox_default cid)" by (simp add: queue_of_def inbox_default_def)
  ultimately show ?thesis using shed_enough [of cid t ib] by (simp add: client_ok_def)
qed

text \<open>
  C18. A due command runs. When the command at the head of a client's queue is the one after the last
  acknowledged, its time has come and the client is not reported for its backlog, the next tick
  runs it, whatever else is queued for it and for other clients.
\<close>

theorem due_command_runs:
  assumes "queue_of ib cid = (Some s, cmd, sample) # rest" and "s = (case acked_of ib cid of Some a \<Rightarrow> a | None \<Rightarrow> 0) + 1"
    and "sint (uc_server_time cmd) \<le> sint t" and "fst (backlog_fault cid t ib) = None"
  shows "\<lparr>pc_client = cid, pc_command = cmd, pc_sequence = Some s\<rparr> \<in> set (gc_cmds (fst (take_for_tick t ib)))"
proof -
  obtain out ib' where r: "take_for_tick t ib = (out, ib')" by fastforce
  from take_for_tick_turn [OF r, of cid] queued_known [of ib cid] assms(1)
  obtain ib0 out0 ib1 where v: "client_view ib0 cid = client_view ib cid" and t: "take_client t cid ib0 = (out0, ib1)"
    and o: "cmds_of cid out = gc_cmds out0" by auto
  from view_eqD [OF v] assms(1,2) have q: "queue_of ib0 cid = (Some s, cmd, sample) # rest" "s = (case acked_of ib0 cid of Some a \<Rightarrow> a | None \<Rightarrow> 0) + 1"
    by simp_all
  have "fst (backlog_fault cid t ib0) = fst (backlog_fault cid t ib)"
    using v view_eqD [OF v] by (intro backlog_fault_view) (simp_all add: client_view_def)
  from take_client_due [OF q assms(3) this [unfolded assms(4)] t] show ?thesis
    unfolding o [symmetric] by (simp add: cmds_of_def r)
qed

theorem due_command_runs_witness:
  "\<lparr>pc_client = 7, pc_command = sample_cmd 50, pc_sequence = Some 1\<rparr>
    \<in> set (gc_cmds (fst (take_for_tick 60 (inbox_push 7 (Some 1) (sample_cmd 50) None inbox_default))))"
proof (rule due_command_runs)
  show "queue_of (inbox_push 7 (Some 1) (sample_cmd 50) None inbox_default) 7 = (Some 1, sample_cmd 50, NO_CLAIM) # []"
    "(1 :: u32) = (case acked_of (inbox_push 7 (Some 1) (sample_cmd 50) None inbox_default) 7 of Some a \<Rightarrow> a | None \<Rightarrow> 0) + 1"
    "sint (uc_server_time (sample_cmd 50)) \<le> sint (60 :: i32)"
    "fst (backlog_fault 7 60 (inbox_push 7 (Some 1) (sample_cmd 50) None inbox_default)) = None"
    by code_simp+
qed

end
