(* ===== verification/Action_Inbox.thy ===== *)
theory Action_Inbox
  imports Client_Actions
begin

text \<open>
  Requests of the clients (joining, choosing a class, chatting and the like) until they are resolved:
  \<open>ClientActionInbox\<close> of \<^verbatim>\<open>crates/net/src/authority/inbox.rs\<close>. Points in time are numbers of
  nanoseconds; the clock is an argument where the source reads it.
\<close>

section \<open>Equality of actions\<close>

text \<open>The derived \<open>PartialEq\<close>: floating-point numbers compare as such, so NaN differs from itself.\<close>

definition action_eq :: "ClientAction \<Rightarrow> ClientAction \<Rightarrow> bool" where
  "action_eq a b = (case a of
     Move r o1 a1 \<Rightarrow> (case b of Move s o2 a2 \<Rightarrow> r = s \<and> vec3_eq o1 o2 \<and> vec3_eq a1 a2 | _ \<Rightarrow> False)
   | BeginScriptMoverRotateVelocity r v \<Rightarrow> (case b of BeginScriptMoverRotateVelocity s w \<Rightarrow> r = s \<and> f32_eq v w | _ \<Rightarrow> False)
   | ForceSpawn r p \<Rightarrow> (case b of ForceSpawn s q \<Rightarrow>
        r = s \<and> (case p of Seeded m \<Rightarrow> p = q | At o1 y1 \<Rightarrow> (case q of At o2 y2 \<Rightarrow> vec3_eq o1 o2 \<and> f32_eq y1 y2 | Seeded n \<Rightarrow> False))
      | _ \<Rightarrow> False)
   | _ \<Rightarrow> a = b)"

lemma action_eq_id: "action_eq a b \<Longrightarrow> action_request_id a = action_request_id b"
  by (simp add: action_eq_def split: ClientAction.splits)

section \<open>The inbox\<close>

abbreviation (input) MAX_PENDING_ACTIONS_PER_CLIENT :: nat where "MAX_PENDING_ACTIONS_PER_CLIENT \<equiv> 32"

datatype ActionEnqueueError = QueueFull nat | DuplicateRequestId u32

record ClientActionInbox =
  ai_pending :: "(u32 \<times> ClientAction) list"
  ai_started :: "(u32 \<times> u32, nanos) hash_map"
  ai_received :: "(u32 \<times> ClientAction) list"
  ai_overflowed :: "u32 list"

definition actions_default :: ClientActionInbox where
  "actions_default = \<lparr>ai_pending = [], ai_started = [], ai_received = [], ai_overflowed = []\<rparr>"

definition held_by :: "u32 \<Rightarrow> (u32 \<times> ClientAction) list \<Rightarrow> nat" where
  "held_by cid rows = length (filter (\<lambda>(owner, _). owner = cid) rows)"

definition push_action :: "u32 \<Rightarrow> ClientAction \<Rightarrow> ClientActionInbox \<Rightarrow> (ActionEnqueueError + unit) \<times> ClientActionInbox" where
  "push_action cid action ib =
     (case find (\<lambda>(owner, existing). owner = cid \<and> action_request_id existing = action_request_id action) (ai_pending ib) of
        Some (_, existing) \<Rightarrow>
          if action_eq existing action then (Inr (), ib) else (Inl (DuplicateRequestId (action_request_id action)), ib)
      | None \<Rightarrow>
          let held = held_by cid (ai_pending ib) in
          if MAX_PENDING_ACTIONS_PER_CLIENT \<le> held then (Inl (QueueFull held), ib)
          else (Inr (), ib\<lparr>ai_pending := ai_pending ib @ [(cid, action)]\<rparr>))"

definition mark_dispatched :: "nanos \<Rightarrow> u32 \<Rightarrow> u32 \<Rightarrow> ClientActionInbox \<Rightarrow> ClientActionInbox" where
  "mark_dispatched now cid request_id ib =
     (if list_ex (\<lambda>(owner, action). owner = cid \<and> action_request_id action = request_id) (ai_pending ib)
         \<and> \<not> hm_contains (ai_started ib) (cid, request_id)
      then ib\<lparr>ai_started := hm_insert (cid, request_id) now (ai_started ib)\<rparr> else ib)"

definition push_from_peer :: "u32 \<Rightarrow> ClientAction \<Rightarrow> ClientActionInbox \<Rightarrow> ClientActionInbox" where
  "push_from_peer cid action ib =
     (if list_ex (\<lambda>(owner, a). owner = cid \<and> action_eq a action) (ai_received ib) then ib
      else if MAX_PENDING_ACTIONS_PER_CLIENT \<le> held_by cid (ai_received ib)
      then ib\<lparr>ai_overflowed := List.insert cid (ai_overflowed ib)\<rparr>
      else ib\<lparr>ai_received := ai_received ib @ [(cid, action)]\<rparr>)"

definition take_overflowed :: "ClientActionInbox \<Rightarrow> u32 list \<times> ClientActionInbox" where
  "take_overflowed ib = (ai_overflowed ib, ib\<lparr>ai_overflowed := []\<rparr>)"

definition timed_out :: "nanos \<Rightarrow> ClientActionInbox \<Rightarrow> bool" where
  "timed_out now ib \<longleftrightarrow> list_ex (\<lambda>(_, at). 8000000000 < now - at) (ai_started ib)"

definition pending_for :: "u32 \<Rightarrow> ClientActionInbox \<Rightarrow> ClientAction list" where
  "pending_for cid ib = map snd (filter (\<lambda>(owner, _). owner = cid) (ai_pending ib))"

definition retire_action :: "u32 \<Rightarrow> u32 \<Rightarrow> ClientActionInbox \<Rightarrow> bool \<times> ClientActionInbox" where
  "retire_action cid request_id ib =
     (let kept = filter (\<lambda>(owner, action). owner \<noteq> cid \<or> action_request_id action \<noteq> request_id) (ai_pending ib)
      in (length kept \<noteq> length (ai_pending ib), ib\<lparr>ai_started := hm_remove (cid, request_id) (ai_started ib), ai_pending := kept\<rparr>))"

definition actions_retire_client :: "u32 \<Rightarrow> ClientActionInbox \<Rightarrow> ClientActionInbox" where
  "actions_retire_client cid ib =
     \<lparr>ai_pending = filter (\<lambda>(owner, _). owner \<noteq> cid) (ai_pending ib), ai_started = filter (\<lambda>((owner, _), _). owner \<noteq> cid) (ai_started ib),
      ai_received = filter (\<lambda>(owner, _). owner \<noteq> cid) (ai_received ib), ai_overflowed = filter (\<lambda>owner. owner \<noteq> cid) (ai_overflowed ib)\<rparr>"

definition actions_clear :: "ClientActionInbox \<Rightarrow> ClientActionInbox" where
  "actions_clear ib = actions_default"

definition gather_actions :: "nanos \<Rightarrow> ClientActionInbox \<Rightarrow> (u32 \<times> ClientAction) list \<times> ClientActionInbox" where
  "gather_actions now ib =
     (let out = ai_pending ib;
          ib' = fold (\<lambda>(cid, action). mark_dispatched now cid (action_request_id action)) out ib
      in (out @ ai_received ib', ib'\<lparr>ai_received := []\<rparr>))"

section \<open>What the inbox keeps\<close>

definition request_key :: "u32 \<times> ClientAction \<Rightarrow> u32 \<times> u32" where
  "request_key row = (fst row, action_request_id (snd row))"

definition actions_ok :: "ClientActionInbox \<Rightarrow> bool" where
  "actions_ok ib \<longleftrightarrow> distinct (map request_key (ai_pending ib)) \<and> hm_ok (ai_started ib)
     \<and> fst ` set (ai_started ib) \<subseteq> request_key ` set (ai_pending ib)
     \<and> (\<forall>cid. held_by cid (ai_pending ib) \<le> MAX_PENDING_ACTIONS_PER_CLIENT)
     \<and> (\<forall>cid. held_by cid (ai_received ib) \<le> MAX_PENDING_ACTIONS_PER_CLIENT) \<and> distinct (ai_overflowed ib)"

datatype action_op = PushAction u32 ClientAction | PeerAction u32 ClientAction | Dispatch nanos u32 u32 | TakeOverflowed
  | RetireAction u32 u32 | RetireOwner u32 | ClearActions | Gather nanos

fun action_step :: "action_op \<Rightarrow> ClientActionInbox \<Rightarrow> ClientActionInbox" where
  "action_step (PushAction cid action) ib = snd (push_action cid action ib)"
| "action_step (PeerAction cid action) ib = push_from_peer cid action ib"
| "action_step (Dispatch now cid request_id) ib = mark_dispatched now cid request_id ib"
| "action_step TakeOverflowed ib = snd (take_overflowed ib)"
| "action_step (RetireAction cid request_id) ib = snd (retire_action cid request_id ib)"
| "action_step (RetireOwner cid) ib = actions_retire_client cid ib"
| "action_step ClearActions ib = actions_clear ib"
| "action_step (Gather now) ib = snd (gather_actions now ib)"

lemma held_by_simps [simp]:
  "held_by cid [] = 0" "held_by cid (xs @ [(c, a)]) = held_by cid xs + (if c = cid then 1 else 0)"
  by (auto simp: held_by_def)

lemma held_by_filter: "held_by cid (filter P xs) \<le> held_by cid xs"
  unfolding held_by_def by (induction xs) auto

lemma key_pending: "list_ex (\<lambda>(owner, action). owner = cid \<and> action_request_id action = r) rows \<longleftrightarrow> (cid, r) \<in> request_key ` set rows"
  by (force simp: list_ex_iff request_key_def)

lemma push_action_ok: "actions_ok ib \<Longrightarrow> actions_ok (snd (push_action cid action ib))"
proof (cases "find (\<lambda>(owner, existing). owner = cid \<and> action_request_id existing = action_request_id action) (ai_pending ib)")
  case None
  then have "(cid, action_request_id action) \<notin> request_key ` set (ai_pending ib)"
    by (force simp: find_None_iff request_key_def)
  with None show "actions_ok ib \<Longrightarrow> actions_ok (snd (push_action cid action ib))"
    by (auto simp: push_action_def actions_ok_def Let_def request_key_def)
qed (auto simp: push_action_def)

lemma started_keys: "hm_contains (ai_started ib) k \<longleftrightarrow> k \<in> fst ` set (ai_started ib)"
  by (simp add: map_of_eq_None_iff)

lemma mark_dispatched_ok: "actions_ok ib \<Longrightarrow> actions_ok (mark_dispatched now cid r ib)"
  by (auto simp: mark_dispatched_def actions_ok_def key_pending hm_simps started_keys dom_update)

lemma gather_keeps:
  "ai_pending (fold (\<lambda>(cid, action). mark_dispatched now cid (action_request_id action)) rows ib) = ai_pending ib"
  "ai_received (fold (\<lambda>(cid, action). mark_dispatched now cid (action_request_id action)) rows ib) = ai_received ib"
  by (induction rows arbitrary: ib) (auto simp: mark_dispatched_def)

lemma gather_marks_ok: "actions_ok ib \<Longrightarrow> actions_ok (fold (\<lambda>(cid, action). mark_dispatched now cid (action_request_id action)) rows ib)"
  by (induction rows arbitrary: ib) (auto simp: mark_dispatched_ok)

lemma actions_ok_filter:
  assumes "actions_ok ib" and "\<And>row. row \<in> set (ai_pending ib) \<Longrightarrow> P row \<longleftrightarrow> Q (request_key row)"
    and "ai_pending ib' = filter P (ai_pending ib)" and "set (ai_started ib') \<subseteq> {x \<in> set (ai_started ib). Q (fst x)}" and "hm_ok (ai_started ib')"
    and "ai_received ib' = filter R (ai_received ib)" and "distinct (ai_overflowed ib')"
  shows "actions_ok ib'"
proof -
  have "k \<in> request_key ` set (ai_pending ib')" if k: "k \<in> fst ` set (ai_started ib')" for k
  proof -
    from k assms(4) have "k \<in> fst ` set (ai_started ib)" "Q k" by auto
    with assms(1) obtain row where "row \<in> set (ai_pending ib)" "k = request_key row" by (auto simp: actions_ok_def)
    with \<open>Q k\<close> assms(2,3) show ?thesis by auto
  qed
  then have k: "fst ` set (ai_started ib') \<subseteq> request_key ` set (ai_pending ib')" by blast
  have "held_by cid (ai_pending ib') \<le> MAX_PENDING_ACTIONS_PER_CLIENT" "held_by cid (ai_received ib') \<le> MAX_PENDING_ACTIONS_PER_CLIENT" for cid
    using assms(1) order_trans [OF held_by_filter] by (simp_all add: assms(3,6) actions_ok_def)
  with assms(1,5,7) k show ?thesis unfolding actions_ok_def by (simp add: assms(3) distinct_map_filter)
qed

lemma retire_action_ok: "actions_ok ib \<Longrightarrow> actions_ok (snd (retire_action cid r ib))"
  by (rule actions_ok_filter [where P = "\<lambda>(owner, action). owner \<noteq> cid \<or> action_request_id action \<noteq> r"
        and Q = "\<lambda>k. k \<noteq> (cid, r)" and R = "\<lambda>_. True"])
    (auto simp: retire_action_def Let_def request_key_def actions_ok_def AList.delete_eq distinct_map_filter)

lemma actions_retire_client_ok: "actions_ok ib \<Longrightarrow> actions_ok (actions_retire_client cid ib)"
  by (rule actions_ok_filter [where P = "\<lambda>(owner, _). owner \<noteq> cid" and Q = "\<lambda>k. fst k \<noteq> cid" and R = "\<lambda>(owner, _). owner \<noteq> cid"])
    (auto simp: actions_retire_client_def request_key_def actions_ok_def distinct_map_filter)

lemma action_step_ok: "actions_ok ib \<Longrightarrow> actions_ok (action_step op ib)"
proof (cases op)
  case (PeerAction cid action)
  then show "actions_ok ib \<Longrightarrow> actions_ok (action_step op ib)" by (auto simp: push_from_peer_def actions_ok_def)
next
  case (Gather now)
  then show "actions_ok ib \<Longrightarrow> actions_ok (action_step op ib)"
    using gather_marks_ok [of ib now "ai_pending ib"] by (auto simp: gather_actions_def Let_def actions_ok_def)
next
  case TakeOverflowed
  then show "actions_ok ib \<Longrightarrow> actions_ok (action_step op ib)" by (simp add: take_overflowed_def actions_ok_def)
next
  case ClearActions
  then show "actions_ok ib \<Longrightarrow> actions_ok (action_step op ib)" by (simp add: actions_clear_def actions_ok_def actions_default_def)
qed (simp_all add: push_action_ok mark_dispatched_ok retire_action_ok actions_retire_client_ok)

section \<open>The property\<close>

text \<open>
  C19. Under any sequence of operations at most one request of a client with a given identifier is
  unresolved, a client has at most 32 unresolved and 32 received requests, and only unresolved
  requests count towards the deadline. Sending a request again changes nothing, a resolved request
  is gone together with its deadline, and gathering hands out all unresolved requests followed by
  the received ones, which it forgets.
\<close>

theorem action_inbox_sound:
  fixes now :: nanos
  assumes "ib = fold action_step ops actions_default"
  shows "distinct (map request_key (ai_pending ib)) \<and> held_by cid (ai_pending ib) \<le> 32 \<and> held_by cid (ai_received ib) \<le> 32
    \<and> fst ` set (ai_started ib) \<subseteq> request_key ` set (ai_pending ib)
    \<and> (fst (push_action cid action ib) = Inr () \<and> action_eq action action
        \<longrightarrow> push_action cid action (snd (push_action cid action ib)) = (Inr (), snd (push_action cid action ib)))
    \<and> (cid, request) \<notin> request_key ` set (ai_pending (snd (retire_action cid request ib)))
    \<and> \<not> hm_contains (ai_started (snd (retire_action cid request ib))) (cid, request)
    \<and> fst (gather_actions now ib) = ai_pending ib @ ai_received ib \<and> ai_received (snd (gather_actions now ib)) = []"
proof -
  have "actions_ok (fold action_step ops s)" if "actions_ok s" for s
    using that by (induction ops arbitrary: s) (simp_all add: action_step_ok)
  then have ok: "actions_ok ib" unfolding assms by (simp add: actions_ok_def actions_default_def)
  have again: "push_action cid action (snd (push_action cid action ib)) = (Inr (), snd (push_action cid action ib))"
    if "fst (push_action cid action ib) = Inr ()" "action_eq action action"
    using that by (auto simp: push_action_def Let_def find_append split: option.splits if_splits)
  have "(cid, request) \<notin> request_key ` set (ai_pending (snd (retire_action cid request ib)))"
    by (auto simp: retire_action_def Let_def request_key_def)
  moreover have "\<not> hm_contains (ai_started (snd (retire_action cid request ib))) (cid, request)"
    by (simp add: retire_action_def Let_def hm_simps)
  moreover have "fst (gather_actions now ib) = ai_pending ib @ ai_received ib \<and> ai_received (snd (gather_actions now ib)) = []"
    by (simp add: gather_actions_def Let_def gather_keeps)
  ultimately show ?thesis using ok again unfolding actions_ok_def by blast
qed

theorem action_inbox_sound_witness:
  "held_by 3 (ai_pending (fold action_step [PushAction 3 (JoinMatch 1), PeerAction 3 (JoinMatch 1), Gather 5, PushAction 3 (JoinMatch 1)] actions_default)) \<le> 32"
  using action_inbox_sound [OF refl, where cid = 3 and request = 1 and now = 9 and action = "JoinMatch 1"] by blast

end
