(* ===== verification/Session_Core.thy ===== *)
theory Session_Core
  imports Bootstrap_Lane
begin

text \<open>
  The match of a session on its host and on a client: \<^verbatim>\<open>crates/net/src/session_core.rs\<close>, with the keys
  of \<^verbatim>\<open>crates/frame/src/session.rs\<close>. Every event is a function of the state that returns what is to
  be done and the next state. The log line of a transition is not modelled; its reason is. Times are
  milliseconds; \<open>saturating_sub\<close> on \<open>u64\<close> is subtraction of natural numbers. The transport limits are
  an argument.
\<close>

section \<open>Keys\<close>

record MatchKey =
  mk_session_id :: array16
  mk_match_epoch :: u32

definition MATCH_NONE :: MatchKey where
  "MATCH_NONE = \<lparr>mk_session_id = array_of (replicate 16 0), mk_match_epoch = 0\<rparr>"

definition key_is_none :: "MatchKey \<Rightarrow> bool" where
  "key_is_none k \<longleftrightarrow> mk_match_epoch k = 0"

record LocalLoadKey =
  lk_incarnation :: u64
  lk_match_key :: MatchKey
  lk_local_load_request_id :: u64

definition belongs_to :: "LocalLoadKey \<Rightarrow> MatchKey \<Rightarrow> bool" where
  "belongs_to lk k \<longleftrightarrow> \<not> key_is_none k \<and> lk_match_key lk = k"

record AdmissionKey =
  ak_match_key :: MatchKey
  ak_member_id :: array16
  ak_connection_id :: u64
  ak_bootstrap_id :: u32

section \<open>Progress\<close>

type_synonym millis = nat

definition as_millis :: "nanos \<Rightarrow> millis" where
  "as_millis d = d div 1000000"

datatype ProgressPhase = ProgressIdle | ProgressLoading | ProgressRunning

record ProgressWatch =
  pw_phase :: ProgressPhase
  pw_phase_started_at :: millis
  pw_last_progress_ms :: millis

definition progress_default :: ProgressWatch where
  "progress_default = \<lparr>pw_phase = ProgressIdle, pw_phase_started_at = 0, pw_last_progress_ms = 0\<rparr>"

definition progress_beat :: "millis \<Rightarrow> ProgressWatch \<Rightarrow> ProgressWatch" where
  "progress_beat now_ms w = (if pw_last_progress_ms w < now_ms then w\<lparr>pw_last_progress_ms := now_ms\<rparr> else w)"

definition progress_set_phase :: "ProgressPhase \<Rightarrow> millis \<Rightarrow> ProgressWatch \<Rightarrow> ProgressWatch" where
  "progress_set_phase p now_ms w = \<lparr>pw_phase = p, pw_phase_started_at = now_ms, pw_last_progress_ms = now_ms\<rparr>"

definition progress_expired :: "TransportBudget \<Rightarrow> millis \<Rightarrow> ProgressWatch \<Rightarrow> bool" where
  "progress_expired limits now_ms w = (case pw_phase w of ProgressIdle \<Rightarrow> False
     | ProgressLoading \<Rightarrow> as_millis (loading limits) \<le> now_ms - pw_phase_started_at w
     | ProgressRunning \<Rightarrow> as_millis (silence limits) \<le> now_ms - pw_last_progress_ms w)"

datatype FailStage = FailTransport | FailLoad | FailAuthority | FailAdmission | FailAdvertLease | FailOverload

record SessionFail =
  fl_stage :: FailStage
  fl_source :: string
  fl_match_key :: MatchKey

record HostWorldReady =
  hw_epoch :: u32
  hw_map :: u64
  hw_weapons :: u64
  hw_classes :: u64

definition map_loaded_matches_host :: "u32 \<Rightarrow> HostWorldReady option \<Rightarrow> HostWorldReady \<Rightarrow> bool" where
  "map_loaded_matches_host live_epoch hw loaded = (case hw of None \<Rightarrow> False
     | Some h \<Rightarrow> epoch_applies (hw_epoch loaded) live_epoch \<and> epoch_applies (hw_epoch h) live_epoch \<and> h = loaded)"

definition match_boundary_applies :: "u32 \<Rightarrow> u32 \<Rightarrow> bool" where
  "match_boundary_applies torn_epoch live_epoch = (if torn_epoch = 0 then live_epoch = 0 else torn_epoch = live_epoch)"

definition match_key_boundary_applies :: "MatchKey \<Rightarrow> MatchKey \<Rightarrow> bool" where
  "match_key_boundary_applies torn live = (if key_is_none torn then key_is_none live else torn = live)"

definition class_select_allowed :: "bool \<Rightarrow> bool \<Rightarrow> bool \<Rightarrow> bool \<Rightarrow> bool \<Rightarrow> bool" where
  "class_select_allowed open_session installed_belongs_to_match presentation_ready admitted failed \<longleftrightarrow>
     open_session \<and> installed_belongs_to_match \<and> presentation_ready \<and> admitted \<and> \<not> failed"

definition confirm_keyed_world_ready :: "bool \<Rightarrow> bool \<Rightarrow> bool \<Rightarrow> HostWorldReady \<Rightarrow> HostWorldReady option" where
  "confirm_keyed_world_ready installed authority_hold belongs ready =
     (if \<not> installed \<or> authority_hold \<or> \<not> belongs \<or> hw_epoch ready = 0 then None else Some ready)"

section \<open>The match on the host\<close>

datatype SessionMatchPhase = PhaseNone | PhaseLoading | PhaseRunning | PhaseEnding

datatype PeerPhase = Waiting | Syncing u32 | Admitted u32 | PeerFailed | PeerGone

record PeerAdmission =
  pa_phase :: PeerPhase
  pa_map_loaded :: "HostWorldReady option"
  pa_started_at_ms :: "millis option"
  pa_connection_id :: "u64 option"

definition peer_default :: PeerAdmission where
  "peer_default = \<lparr>pa_phase = Waiting, pa_map_loaded = None, pa_started_at_ms = None, pa_connection_id = None\<rparr>"

datatype HostMatchEvent =
    Start MatchKey millis
  | PeerRoster MatchKey "MemberId list" millis
  | AuthorityReady HostWorldReady millis
  | AuthorityProgress millis
  | MapLoaded MemberId HostWorldReady millis
  | BootstrapPrepared MatchKey MemberId u32 "u64 option"
  | BootstrapApplied MatchKey MemberId u32 "u64 option"
  | HostMatchEnded MatchKey
  | PeerCancelled MemberId
  | HostClose
  | HostTick millis

datatype HostMatchEffect =
    PublishReady MatchKey HostWorldReady
  | PublishEnd MatchKey
  | FlushBootstraps MemberId
  | Enter MemberId u32 MatchKey
  | CancelPeer MemberId AdmissionFailure MatchKey
  | HostFail SessionFail

record HostMatchApply =
  ha_accepted :: bool
  ha_effects :: "HostMatchEffect list"
  ha_reason :: string

record HostMatchCore =
  hc_session_open :: bool
  hc_match_key :: MatchKey
  hc_phase :: SessionMatchPhase
  hc_host_world :: "HostWorldReady option"
  hc_authority_ready :: bool
  hc_peers :: "(MemberId, PeerAdmission) hash_map"
  hc_progress :: ProgressWatch
  hc_incarnation :: u64
  hc_local_load_id :: "u64 option"

definition host_default :: HostMatchCore where
  "host_default = \<lparr>hc_session_open = True, hc_match_key = MATCH_NONE, hc_phase = PhaseNone, hc_host_world = None,
     hc_authority_ready = False, hc_peers = [], hc_progress = progress_default, hc_incarnation = 0, hc_local_load_id = None\<rparr>"

definition peer_ready_effect :: "MatchKey \<Rightarrow> HostWorldReady \<Rightarrow> MemberId \<Rightarrow> PeerAdmission \<Rightarrow> HostMatchEffect option \<times> PeerAdmission" where
  "peer_ready_effect match_key hw member peer =
     (if (case pa_phase peer of PeerFailed \<Rightarrow> True | PeerGone \<Rightarrow> True | Admitted _ \<Rightarrow> True | _ \<Rightarrow> False) then (None, peer)
      else case pa_map_loaded peer of None \<Rightarrow> (None, peer)
      | Some loaded \<Rightarrow>
        if \<not> epoch_applies (hw_epoch loaded) (mk_match_epoch match_key) then (None, peer)
        else let reason = (if hw_map hw \<noteq> hw_map loaded then Some (MapContent (hw_map hw) (hw_map loaded))
                 else if hw_weapons hw \<noteq> hw_weapons loaded then Some (WeaponRegistry (hw_weapons hw) (hw_weapons loaded))
                 else if hw_classes hw \<noteq> hw_classes loaded then Some (ClassRegistry (hw_classes hw) (hw_classes loaded))
                 else None)
          in case reason of
               Some r \<Rightarrow> (Some (CancelPeer member r match_key), peer\<lparr>pa_phase := PeerFailed\<rparr>)
             | None \<Rightarrow> (Some (FlushBootstraps member), peer))"

definition host_finish :: "string \<Rightarrow> HostMatchEffect list \<Rightarrow> HostMatchCore \<Rightarrow> HostMatchApply \<times> HostMatchCore" where
  "host_finish reason effects h = (\<lparr>ha_accepted = True, ha_effects = effects, ha_reason = reason\<rparr>, h)"

definition host_reject :: "string \<Rightarrow> HostMatchCore \<Rightarrow> HostMatchApply \<times> HostMatchCore" where
  "host_reject reason h = (\<lparr>ha_accepted = False, ha_effects = [], ha_reason = reason\<rparr>, h)"

definition live_phase :: "SessionMatchPhase \<Rightarrow> bool" where
  "live_phase p \<longleftrightarrow> p = PhaseLoading \<or> p = PhaseRunning"

definition host_start :: "MatchKey \<Rightarrow> millis \<Rightarrow> HostMatchCore \<Rightarrow> HostMatchApply \<times> HostMatchCore" where
  "host_start match_key now_ms h =
     (if key_is_none match_key then host_reject ''start without match key'' h
      else if hc_phase h = PhaseLoading \<and> hc_match_key h = match_key then host_finish ''start already loading'' [] h
      else if hc_phase h = PhaseRunning \<and> hc_match_key h = match_key then host_finish ''start already running'' [] h
      else host_finish ''start loading'' []
        (h\<lparr>hc_match_key := match_key, hc_phase := PhaseLoading, hc_host_world := None, hc_authority_ready := False,
           hc_peers := [], hc_progress := progress_set_phase ProgressLoading now_ms (hc_progress h)\<rparr>))"

definition roster_entry :: "millis \<Rightarrow> MemberId \<Rightarrow> (MemberId, PeerAdmission) hash_map \<Rightarrow> (MemberId, PeerAdmission) hash_map" where
  "roster_entry now_ms member peers =
     (if hm_contains peers member then peers else hm_insert member (peer_default\<lparr>pa_started_at_ms := Some now_ms\<rparr>) peers)"

definition host_roster :: "MatchKey \<Rightarrow> MemberId list \<Rightarrow> millis \<Rightarrow> HostMatchCore \<Rightarrow> HostMatchApply \<times> HostMatchCore" where
  "host_roster match_key ms now_ms h =
     (if match_key \<noteq> hc_match_key h \<or> \<not> live_phase (hc_phase h) \<or> unat MAX_SESSION_MEMBERS < length ms
      then host_reject ''stale or invalid peer roster'' h
      else host_finish ''peer roster'' []
        (h\<lparr>hc_peers := fold (roster_entry now_ms) ms (filter (\<lambda>(member, _). member \<in> set ms) (hc_peers h))\<rparr>))"

definition host_authority_ready :: "HostWorldReady \<Rightarrow> millis \<Rightarrow> HostMatchCore \<Rightarrow> HostMatchApply \<times> HostMatchCore" where
  "host_authority_ready ready now_ms h =
     (if \<not> epoch_applies (hw_epoch ready) (mk_match_epoch (hc_match_key h)) then host_reject ''stale host world'' h
      else if hc_phase h \<noteq> PhaseLoading \<and> hc_phase h \<noteq> PhaseRunning then host_reject ''host world without match'' h
      else
        let h1 = h\<lparr>hc_host_world := Some ready, hc_authority_ready := True\<rparr>;
            h2 = (if hc_phase h1 = PhaseLoading
              then h1\<lparr>hc_phase := PhaseRunning, hc_progress := progress_set_phase ProgressRunning now_ms (hc_progress h1),
                      hc_peers := map (\<lambda>(member, peer). (member, peer\<lparr>pa_started_at_ms := Some now_ms\<rparr>)) (hc_peers h1)\<rparr>
              else h1);
            visits = map (\<lambda>(member, peer). (member, peer_ready_effect (hc_match_key h2) ready member peer)) (hc_peers h2)
        in host_finish ''authority ready'' (List.map_filter (\<lambda>(_, effect, _). effect) visits)
             (h2\<lparr>hc_peers := map (\<lambda>(member, _, peer). (member, peer)) visits\<rparr>))"

definition host_authority_progress :: "millis \<Rightarrow> HostMatchCore \<Rightarrow> HostMatchApply \<times> HostMatchCore" where
  "host_authority_progress now_ms h = host_finish ''authority progress'' []
     (if hc_phase h = PhaseRunning then h\<lparr>hc_progress := progress_beat now_ms (hc_progress h)\<rparr> else h)"

definition host_map_loaded :: "MemberId \<Rightarrow> HostWorldReady \<Rightarrow> millis \<Rightarrow> HostMatchCore \<Rightarrow> HostMatchApply \<times> HostMatchCore" where
  "host_map_loaded member loaded now_ms h =
     (if \<not> epoch_applies (hw_epoch loaded) (mk_match_epoch (hc_match_key h)) \<or> \<not> live_phase (hc_phase h)
      then host_reject ''stale map loaded'' h
      else case hm_get (hc_peers h) member of None \<Rightarrow> host_reject ''map loaded outside peer roster'' h
      | Some peer \<Rightarrow>
        if pa_phase peer = PeerFailed \<or> pa_phase peer = PeerGone then host_reject ''map loaded after admission ended'' h
        else
          let peer1 = (if hc_phase h = PhaseRunning \<and> pa_started_at_ms peer = None then peer\<lparr>pa_started_at_ms := Some now_ms\<rparr> else peer);
              peer2 = peer1\<lparr>pa_map_loaded := Some loaded\<rparr>;
              (effect, peer3) = (case hc_host_world h of None \<Rightarrow> (None, peer2)
                | Some hw \<Rightarrow> peer_ready_effect (hc_match_key h) hw member peer2)
          in host_finish ''client map loaded'' (case effect of None \<Rightarrow> [] | Some e \<Rightarrow> [e])
               (h\<lparr>hc_peers := hm_insert member peer3 (hc_peers h)\<rparr>))"

definition host_prepared :: "MatchKey \<Rightarrow> MemberId \<Rightarrow> u32 \<Rightarrow> u64 option \<Rightarrow> HostMatchCore \<Rightarrow> HostMatchApply \<times> HostMatchCore" where
  "host_prepared match_key member bootstrap_id connection_id h =
     (if match_key \<noteq> hc_match_key h \<or> key_is_none match_key \<or> \<not> live_phase (hc_phase h)
      then host_reject ''stale bootstrap completion'' h
      else case hm_get (hc_peers h) member of None \<Rightarrow> host_reject ''bootstrap for unknown peer'' h
      | Some peer \<Rightarrow>
        if (case pa_phase peer of Admitted _ \<Rightarrow> True | PeerFailed \<Rightarrow> True | PeerGone \<Rightarrow> True | _ \<Rightarrow> False)
        then host_reject ''bootstrap after admission ended'' h
        else
          let peer1 = (if connection_id \<noteq> None then peer\<lparr>pa_connection_id := connection_id\<rparr> else peer)
          in host_finish ''bootstrap prepared'' []
               (h\<lparr>hc_peers := hm_insert member (peer1\<lparr>pa_phase := Syncing bootstrap_id\<rparr>) (hc_peers h)\<rparr>))"

definition host_applied :: "MatchKey \<Rightarrow> MemberId \<Rightarrow> u32 \<Rightarrow> u64 option \<Rightarrow> HostMatchCore \<Rightarrow> HostMatchApply \<times> HostMatchCore" where
  "host_applied match_key member bootstrap_id connection_id h =
     (if match_key \<noteq> hc_match_key h \<or> key_is_none match_key then host_reject ''stale applied'' h
      else if \<not> live_phase (hc_phase h) then host_reject ''applied without match'' h
      else case hm_get (hc_peers h) member of None \<Rightarrow> host_reject ''applied unknown peer'' h
      | Some peer \<Rightarrow>
        if (case pa_connection_id peer of Some expected \<Rightarrow> connection_id \<noteq> Some expected | None \<Rightarrow> False)
        then host_reject ''applied connection mismatch'' h
        else
          let enter = (\<lambda>reason.
                let peer1 = (if connection_id \<noteq> None then peer\<lparr>pa_connection_id := connection_id\<rparr> else peer)
                in host_finish reason [Enter member bootstrap_id match_key]
                     (h\<lparr>hc_peers := hm_insert member (peer1\<lparr>pa_phase := Admitted bootstrap_id\<rparr>) (hc_peers h)\<rparr>))
          in if pa_phase peer = Syncing bootstrap_id then enter ''enter committed''
             else if pa_phase peer = Admitted bootstrap_id then enter ''duplicate applied repeats enter''
             else host_reject ''applied mismatch'' h)"

definition host_match_ended :: "MatchKey \<Rightarrow> HostMatchCore \<Rightarrow> HostMatchApply \<times> HostMatchCore" where
  "host_match_ended match_key h =
     (if \<not> match_key_boundary_applies match_key (hc_match_key h) \<or> \<not> live_phase (hc_phase h)
      then host_reject ''stale match end'' h
      else host_finish ''end match'' []
        (h\<lparr>hc_phase := PhaseNone, hc_authority_ready := False, hc_host_world := None, hc_peers := [],
           hc_progress := progress_set_phase ProgressIdle 0 (hc_progress h)\<rparr>))"

definition host_peer_cancelled :: "MemberId \<Rightarrow> HostMatchCore \<Rightarrow> HostMatchApply \<times> HostMatchCore" where
  "host_peer_cancelled member h = host_finish ''peer cancelled'' [CancelPeer member Cancelled (hc_match_key h)]
     (case hm_get (hc_peers h) member of None \<Rightarrow> h
      | Some peer \<Rightarrow> h\<lparr>hc_peers := hm_insert member (peer\<lparr>pa_phase := PeerGone\<rparr>) (hc_peers h)\<rparr>)"

definition host_close :: "HostMatchCore \<Rightarrow> HostMatchApply \<times> HostMatchCore" where
  "host_close h = host_finish ''close session'' [] (h\<lparr>hc_session_open := False, hc_phase := PhaseNone\<rparr>)"

definition peer_overdue :: "TransportBudget \<Rightarrow> millis \<Rightarrow> PeerAdmission \<Rightarrow> bool" where
  "peer_overdue limits now_ms peer \<longleftrightarrow> (case pa_phase peer of Waiting \<Rightarrow> True | Syncing _ \<Rightarrow> True | _ \<Rightarrow> False)
     \<and> (case pa_started_at_ms peer of Some started \<Rightarrow> as_millis (admission limits) \<le> now_ms - started | None \<Rightarrow> False)"

definition host_tick :: "TransportBudget \<Rightarrow> millis \<Rightarrow> HostMatchCore \<Rightarrow> HostMatchApply \<times> HostMatchCore" where
  "host_tick limits now_ms h =
     (let stage = (if hc_phase h = PhaseRunning then FailAuthority else FailLoad);
          source = (if stage = FailLoad then ''host load deadline'' else ''authority progress silence'');
          fails = (if progress_expired limits now_ms (hc_progress h)
            then [HostFail \<lparr>fl_stage = stage, fl_source = source, fl_match_key = hc_match_key h\<rparr>] else []);
          expired = (if hc_phase h = PhaseRunning then map fst (filter (\<lambda>(_, peer). peer_overdue limits now_ms peer) (hc_peers h)) else [])
      in host_finish ''tick'' (fails @ map (\<lambda>member. CancelPeer member Deadline (hc_match_key h)) expired)
           (h\<lparr>hc_peers := map (\<lambda>(member, peer). (member, if member \<in> set expired then peer\<lparr>pa_phase := PeerFailed\<rparr> else peer)) (hc_peers h)\<rparr>))"

definition host_apply :: "TransportBudget \<Rightarrow> HostMatchEvent \<Rightarrow> HostMatchCore \<Rightarrow> HostMatchApply \<times> HostMatchCore" where
  "host_apply limits event h = (if \<not> hc_session_open h then host_reject ''session closed'' h
     else case event of
       Start k now \<Rightarrow> host_start k now h
     | PeerRoster k ms now \<Rightarrow> host_roster k ms now h
     | AuthorityReady ready now \<Rightarrow> host_authority_ready ready now h
     | AuthorityProgress now \<Rightarrow> host_authority_progress now h
     | MapLoaded m loaded now \<Rightarrow> host_map_loaded m loaded now h
     | BootstrapPrepared k m b c \<Rightarrow> host_prepared k m b c h
     | BootstrapApplied k m b c \<Rightarrow> host_applied k m b c h
     | HostMatchEnded k \<Rightarrow> host_match_ended k h
     | PeerCancelled m \<Rightarrow> host_peer_cancelled m h
     | HostClose \<Rightarrow> host_close h
     | HostTick now \<Rightarrow> host_tick limits now h)"

section \<open>What every event keeps\<close>

lemma hm_get_map: "hm_get (map (\<lambda>(k, v). (k, f k v)) m) k = map_option (f k) (hm_get m k)"
  by (induction m) auto

lemma hm_get_filter: "hm_ok m \<Longrightarrow> hm_get (filter (\<lambda>(k, _). P k) m) k = (if P k then hm_get m k else None)"
  by (induction m) (auto simp: map_of_eq_None_iff)

definition watch_of :: "SessionMatchPhase \<Rightarrow> ProgressPhase" where
  "watch_of p = (case p of PhaseLoading \<Rightarrow> ProgressLoading | PhaseRunning \<Rightarrow> ProgressRunning | _ \<Rightarrow> ProgressIdle)"

definition host_inv :: "HostMatchCore \<Rightarrow> bool" where
  "host_inv h \<longleftrightarrow> hm_ok (hc_peers h) \<and> (\<forall>m p. hm_get (hc_peers h) m = Some p \<longrightarrow> pa_started_at_ms p \<noteq> None)
     \<and> (hc_session_open h \<longrightarrow> pw_phase (hc_progress h) = watch_of (hc_phase h) \<and> (live_phase (hc_phase h) \<or> hc_peers h = []))"

lemma host_invI:
  assumes "hm_ok (hc_peers h)" and "\<And>m p. hm_get (hc_peers h) m = Some p \<Longrightarrow> pa_started_at_ms p \<noteq> None"
    and "hc_session_open h \<Longrightarrow> pw_phase (hc_progress h) = watch_of (hc_phase h)" and "hc_session_open h \<Longrightarrow> live_phase (hc_phase h) \<or> hc_peers h = []"
  shows "host_inv h"
  using assms by (auto simp: host_inv_def)

lemma peer_ready_effect_cases:
  assumes "peer_ready_effect k hw m p = (e, p')"
  shows "(p' = p \<and> (e = None \<or> e = Some (FlushBootstraps m))) \<or> (p' = p\<lparr>pa_phase := PeerFailed\<rparr> \<and> (\<exists>r. e = Some (CancelPeer m r k)))"
  using assms by (auto simp: peer_ready_effect_def Let_def split: if_splits option.splits PeerPhase.splits)

lemma fst_peer_ready_effect: "fst (peer_ready_effect k hw m p) = Some (CancelPeer m' r k') \<Longrightarrow> m' = m \<and> snd (peer_ready_effect k hw m p) = p\<lparr>pa_phase := PeerFailed\<rparr>"
  using peer_ready_effect_cases [of k hw m p] by (cases "peer_ready_effect k hw m p") auto

lemma roster_entries:
  assumes "hm_ok peers"
  shows "hm_ok (fold (roster_entry now) ms peers)"
    and "hm_get (fold (roster_entry now) ms peers) m = (case hm_get peers m of Some p \<Rightarrow> Some p
      | None \<Rightarrow> if m \<in> set ms then Some (peer_default\<lparr>pa_started_at_ms := Some now\<rparr>) else None)"
proof -
  have "hm_ok (fold (roster_entry now) ms peers) \<and> hm_get (fold (roster_entry now) ms peers) m = (case hm_get peers m of Some p \<Rightarrow> Some p
      | None \<Rightarrow> if m \<in> set ms then Some (peer_default\<lparr>pa_started_at_ms := Some now\<rparr>) else None)"
    using assms
  proof (induction ms arbitrary: peers)
    case (Cons x ms)
    have "hm_ok (roster_entry now x peers)" using Cons.prems by (simp add: roster_entry_def hm_simps)
    from Cons.IH [OF this] show ?case by (auto simp: roster_entry_def hm_simps split: option.splits)
  qed (simp split: option.splits)
  then show "hm_ok (fold (roster_entry now) ms peers)"
    "hm_get (fold (roster_entry now) ms peers) m = (case hm_get peers m of Some p \<Rightarrow> Some p
      | None \<Rightarrow> if m \<in> set ms then Some (peer_default\<lparr>pa_started_at_ms := Some now\<rparr>) else None)" by auto
qed

text \<open>The effects that cancel a peer, and the peers that are offered or have the bootstrap \<open>b\<close>.\<close>

definition cancels :: "MemberId \<Rightarrow> HostMatchApply \<Rightarrow> bool" where
  "cancels m a \<longleftrightarrow> list_ex (\<lambda>e. case e of CancelPeer m' _ _ \<Rightarrow> m' = m | _ \<Rightarrow> False) (ha_effects a)"

lemma cancels_iff: "cancels m a \<longleftrightarrow> (\<exists>r k. CancelPeer m r k \<in> set (ha_effects a))"
  by (force simp: cancels_def list_ex_iff split: HostMatchEffect.split_asm)

definition has_bootstrap :: "MemberId \<Rightarrow> u32 \<Rightarrow> HostMatchCore \<Rightarrow> bool" where
  "has_bootstrap m b h \<longleftrightarrow> (case hm_get (hc_peers h) m of Some p \<Rightarrow> pa_phase p = Syncing b \<or> pa_phase p = Admitted b | None \<Rightarrow> False)"

lemmas host_results = host_finish_def host_reject_def

lemma map_filter_map: "List.map_filter f (map g xs) = List.map_filter (f \<circ> g) xs"
  by (simp add: List.map_filter_def filter_map o_def)

lemma authority_ready_peers:
  assumes "host_authority_ready ready now h = (a, h')" and "ha_accepted a"
  obtains ps where "hc_peers h' = map (\<lambda>(m, p). (m, snd (peer_ready_effect (hc_match_key h) ready m p))) ps"
    "ha_effects a = List.map_filter (\<lambda>(m, p). fst (peer_ready_effect (hc_match_key h) ready m p)) ps"
    "ps = hc_peers h \<or> ps = map (\<lambda>(m, p). (m, p\<lparr>pa_started_at_ms := Some now\<rparr>)) (hc_peers h)"
    "hc_match_key h' = hc_match_key h" "hc_phase h' = PhaseRunning" "live_phase (hc_phase h)" "hc_session_open h' = hc_session_open h"
    "pw_phase (hc_progress h') = (if hc_phase h = PhaseLoading then ProgressRunning else pw_phase (hc_progress h))"
proof -
  define h2 where "h2 = (let h1 = h\<lparr>hc_host_world := Some ready, hc_authority_ready := True\<rparr> in
    if hc_phase h1 = PhaseLoading
              then h1\<lparr>hc_phase := PhaseRunning, hc_progress := progress_set_phase ProgressRunning now (hc_progress h1),
                      hc_peers := map (\<lambda>(member, peer). (member, peer\<lparr>pa_started_at_ms := Some now\<rparr>)) (hc_peers h1)\<rparr>
              else h1)"
  from assms have acc: "epoch_applies (hw_epoch ready) (mk_match_epoch (hc_match_key h))" "hc_phase h = PhaseLoading \<or> hc_phase h = PhaseRunning"
    by (auto simp: host_authority_ready_def host_results split: if_splits)
  have k: "hc_match_key h2 = hc_match_key h" by (simp add: h2_def Let_def)
  let ?visits = "map (\<lambda>(member, peer). (member, peer_ready_effect (hc_match_key h2) ready member peer)) (hc_peers h2)"
  have r: "a = \<lparr>ha_accepted = True, ha_effects = List.map_filter (\<lambda>(_, effect, _). effect) ?visits, ha_reason = ''authority ready''\<rparr>"
    "h' = h2\<lparr>hc_peers := map (\<lambda>(member, _, peer). (member, peer)) ?visits\<rparr>"
    using assms(1) acc unfolding h2_def by (auto simp: host_authority_ready_def host_results Let_def split: if_splits)
  show thesis
  proof (rule that [of "hc_peers h2"])
    show "hc_peers h' = map (\<lambda>(m, p). (m, snd (peer_ready_effect (hc_match_key h) ready m p))) (hc_peers h2)"
      by (simp add: r(2) k case_prod_beta)
    show "ha_effects a = List.map_filter (\<lambda>(m, p). fst (peer_ready_effect (hc_match_key h) ready m p)) (hc_peers h2)"
      by (simp add: r(1) k map_filter_map case_prod_unfold o_def)
    show "hc_peers h2 = hc_peers h \<or> hc_peers h2 = map (\<lambda>(m, p). (m, p\<lparr>pa_started_at_ms := Some now\<rparr>)) (hc_peers h)"
      by (simp add: h2_def Let_def)
  qed (use acc in \<open>auto simp: r h2_def Let_def live_phase_def progress_set_phase_def\<close>)
qed

lemma peer_ready_started: "peer_ready_effect k hw m p = (e, p') \<Longrightarrow> pa_started_at_ms p' = pa_started_at_ms p"
  using peer_ready_effect_cases [of k hw m p] by auto

lemma map_loaded_peer:
  assumes "host_map_loaded m loaded now h = (a, h')" and "ha_accepted a"
  obtains p p' where "hm_get (hc_peers h) m = Some p" "h' = h\<lparr>hc_peers := hm_insert m p' (hc_peers h)\<rparr>" "live_phase (hc_phase h)"
    "pa_started_at_ms p \<noteq> None \<longrightarrow> pa_started_at_ms p' \<noteq> None"
    "(pa_phase p' = pa_phase p \<and> set (ha_effects a) \<subseteq> {FlushBootstraps m}) \<or> pa_phase p' = PeerFailed"
    "\<forall>e \<in> set (ha_effects a). \<exists>r. e = FlushBootstraps m \<or> e = CancelPeer m r (hc_match_key h)"
proof -
  from assms obtain p where p: "hm_get (hc_peers h) m = Some p" "live_phase (hc_phase h)" "pa_phase p \<noteq> PeerFailed \<and> pa_phase p \<noteq> PeerGone"
    "epoch_applies (hw_epoch loaded) (mk_match_epoch (hc_match_key h))"
    by (auto simp: host_map_loaded_def host_results split: if_splits option.splits)
  define p2 where "p2 = (if hc_phase h = PhaseRunning \<and> pa_started_at_ms p = None then p\<lparr>pa_started_at_ms := Some now\<rparr> else p)\<lparr>pa_map_loaded := Some loaded\<rparr>"
  obtain e p3 where e: "(case hc_host_world h of None \<Rightarrow> (None, p2) | Some hw \<Rightarrow> peer_ready_effect (hc_match_key h) hw m p2) = (e, p3)" by fastforce
  have p2: "pa_phase p2 = pa_phase p" "pa_started_at_ms p \<noteq> None \<longrightarrow> pa_started_at_ms p2 \<noteq> None" by (auto simp: p2_def)
  have "h' = h\<lparr>hc_peers := hm_insert m p3 (hc_peers h)\<rparr>" "ha_effects a = (case e of None \<Rightarrow> [] | Some e \<Rightarrow> [e])"
    using assms(1) p e [unfolded p2_def] by (auto simp: host_map_loaded_def host_results Let_def)
  moreover have "(p3 = p2 \<and> (e = None \<or> e = Some (FlushBootstraps m))) \<or> (p3 = p2\<lparr>pa_phase := PeerFailed\<rparr> \<and> (\<exists>r. e = Some (CancelPeer m r (hc_match_key h))))"
    using e peer_ready_effect_cases by (cases "hc_host_world h") auto
  ultimately show thesis using that [of p p3] p p2 by auto
qed

lemma tick_peers:
  assumes "hm_ok (hc_peers h)" and "host_tick limits now h = (a, h')"
  shows "hm_get (hc_peers h') m = map_option (\<lambda>p. if hc_phase h = PhaseRunning \<and> peer_overdue limits now p then p\<lparr>pa_phase := PeerFailed\<rparr> else p)
      (hm_get (hc_peers h) m)"
    and "hm_keys (hc_peers h') = hm_keys (hc_peers h)" and "h' = h\<lparr>hc_peers := hc_peers h'\<rparr>"
    and "cancels m a \<longleftrightarrow> hc_phase h = PhaseRunning \<and> (\<exists>p. hm_get (hc_peers h) m = Some p \<and> peer_overdue limits now p)"
proof -
  define expired where "expired = (if hc_phase h = PhaseRunning then map fst (filter (\<lambda>(_, p). peer_overdue limits now p) (hc_peers h)) else [])"
  have h': "h' = h\<lparr>hc_peers := map (\<lambda>(m, p). (m, if m \<in> set expired then p\<lparr>pa_phase := PeerFailed\<rparr> else p)) (hc_peers h)\<rparr>"
    and a: "cancels m a \<longleftrightarrow> m \<in> set expired"
    using assms(2) by (auto simp: host_tick_def host_results Let_def expired_def [symmetric] cancels_def list_ex_iff
      intro!: bexI [where x = "CancelPeer m Deadline (hc_match_key h)"])
  have e: "m \<in> set expired \<longleftrightarrow> hc_phase h = PhaseRunning \<and> (\<exists>p. hm_get (hc_peers h) m = Some p \<and> peer_overdue limits now p)" for m
    using assms(1) by (force simp: expired_def map_of_eq_Some_iff)
  show "hm_get (hc_peers h') m = map_option (\<lambda>p. if hc_phase h = PhaseRunning \<and> peer_overdue limits now p then p\<lparr>pa_phase := PeerFailed\<rparr> else p)
      (hm_get (hc_peers h) m)"
    by (cases "hm_get (hc_peers h) m") (simp_all add: h' hm_get_map e)
  show "hm_keys (hc_peers h') = hm_keys (hc_peers h)" by (simp add: h' case_prod_unfold o_def)
  show "h' = h\<lparr>hc_peers := hc_peers h'\<rparr>" by (simp add: h')
  show "cancels m a \<longleftrightarrow> hc_phase h = PhaseRunning \<and> (\<exists>p. hm_get (hc_peers h) m = Some p \<and> peer_overdue limits now p)" unfolding a e ..
qed

lemma host_apply_inv:
  assumes "host_inv h" and "host_apply limits e h = (a, h')"
  shows "host_inv h'"
proof (cases "hc_session_open h")
  case False
  then show ?thesis using assms by (simp add: host_apply_def host_results)
next
  case o: True
  have ok: "hm_ok (hc_peers h)" and st: "\<And>m p. hm_get (hc_peers h) m = Some p \<Longrightarrow> pa_started_at_ms p \<noteq> None"
    and w: "pw_phase (hc_progress h) = watch_of (hc_phase h)" and lp: "live_phase (hc_phase h) \<or> hc_peers h = []"
    using assms(1) o by (auto simp: host_inv_def)
  have insert: "host_inv (h\<lparr>hc_peers := hm_insert m p (hc_peers h)\<rparr>)" if "pa_started_at_ms p \<noteq> None" "live_phase (hc_phase h)" for m p
    using assms(1) that by (auto simp: host_inv_def hm_simps split: if_splits)
  show ?thesis
  proof (cases e)
    case (Start k now)
    then show ?thesis using assms o
      by (auto simp: host_apply_def host_start_def host_results host_inv_def watch_of_def live_phase_def progress_set_phase_def split: if_splits)
  next
    case (PeerRoster k ms now)
    have f: "hm_ok (filter (\<lambda>(m, _). m \<in> set ms) (hc_peers h))" using ok by (simp add: distinct_map_filter)
    have "host_inv (h\<lparr>hc_peers := fold (roster_entry now) ms (filter (\<lambda>(m, _). m \<in> set ms) (hc_peers h))\<rparr>)" if "live_phase (hc_phase h)"
      using that w st roster_entries [OF f] by (intro host_invI) (auto simp: hm_get_filter [OF ok] split: option.splits if_splits)
    then show ?thesis using PeerRoster assms o by (auto simp: host_apply_def host_roster_def host_results split: if_splits)
  next
    case (AuthorityReady ready now)
    then have r: "host_authority_ready ready now h = (a, h')" using assms o by (simp add: host_apply_def)
    show ?thesis
    proof (cases "ha_accepted a")
      case False
      then show ?thesis using r assms(1) by (auto simp: host_authority_ready_def host_results Let_def split: if_splits)
    next
      case True
      from r this obtain ps where ps: "hc_peers h' = map (\<lambda>(m, p). (m, snd (peer_ready_effect (hc_match_key h) ready m p))) ps"
        "ps = hc_peers h \<or> ps = map (\<lambda>(m, p). (m, p\<lparr>pa_started_at_ms := Some now\<rparr>)) (hc_peers h)"
        "hc_phase h' = PhaseRunning" "live_phase (hc_phase h)"
        "pw_phase (hc_progress h') = (if hc_phase h = PhaseLoading then ProgressRunning else pw_phase (hc_progress h))"
        by (rule authority_ready_peers) blast
      have same: "pa_started_at_ms (snd (peer_ready_effect k hw m p)) = pa_started_at_ms p" for k hw m p
        using peer_ready_started [of k hw m p] by (cases "peer_ready_effect k hw m p") simp
      have "hm_ok (hc_peers h')" using ps(1,2) ok by (auto simp: case_prod_unfold o_def)
      moreover have "pa_started_at_ms p \<noteq> None" if "hm_get (hc_peers h') m = Some p" for m p
        using that ps(2) st by (auto simp: ps(1) hm_get_map same)
      ultimately show ?thesis using ps(3-5) w by (intro host_invI) (auto simp: watch_of_def live_phase_def)
    qed
  next
    case (MapLoaded m loaded now)
    then have r: "host_map_loaded m loaded now h = (a, h')" using assms o by (simp add: host_apply_def)
    show ?thesis
    proof (cases "ha_accepted a")
      case False
      then show ?thesis using r assms(1) by (auto simp: host_map_loaded_def host_results Let_def split: if_splits option.splits prod.splits)
    next
      case True
      from r this obtain p p' where "hm_get (hc_peers h) m = Some p" "h' = h\<lparr>hc_peers := hm_insert m p' (hc_peers h)\<rparr>" "live_phase (hc_phase h)"
        "pa_started_at_ms p \<noteq> None \<longrightarrow> pa_started_at_ms p' \<noteq> None" by (elim map_loaded_peer) blast
      with st insert show ?thesis by blast
    qed
  next
    case (BootstrapPrepared k m b c)
    then show ?thesis using assms o st insert
      by (auto simp: host_apply_def host_prepared_def host_results Let_def split: if_splits option.splits PeerPhase.splits)
  next
    case (BootstrapApplied k m b c)
    then show ?thesis using assms o st insert
      by (auto simp: host_apply_def host_applied_def host_results Let_def split: if_splits option.splits)
  next
    case (PeerCancelled m)
    then show ?thesis using assms o st insert lp
      by (auto simp: host_apply_def host_peer_cancelled_def host_results split: option.splits)
  next
    case (HostTick now)
    then have t: "host_tick limits now h = (a, h')" using assms o by (simp add: host_apply_def)
    note p = tick_peers [OF ok t]
    show ?thesis
    proof (rule host_invI)
      show "hm_ok (hc_peers h')" using ok p(2) by simp
      show "pa_started_at_ms q \<noteq> None" if "hm_get (hc_peers h') m = Some q" for m q using that st by (auto simp: p(1))
      show "pw_phase (hc_progress h') = watch_of (hc_phase h')" using w by (subst (1 2) p(3)) simp
      have "hc_peers h' = [] \<longleftrightarrow> hc_peers h = []" using p(2) by (metis map_is_Nil_conv)
      then show "live_phase (hc_phase h') \<or> hc_peers h' = []" using lp by (subst p(3)) simp
    qed
  qed (use assms o in \<open>auto simp: host_apply_def host_authority_progress_def host_match_ended_def host_close_def host_results host_inv_def
    progress_beat_def progress_set_phase_def watch_of_def split: if_splits\<close>)
qed

section \<open>Runs of the host\<close>

text \<open>\<open>host_reach limits past h\<close>: the events of \<open>past\<close>, each with its result, lead from the start to \<open>h\<close>.\<close>

inductive host_reach :: "TransportBudget \<Rightarrow> (HostMatchEvent \<times> HostMatchApply) list \<Rightarrow> HostMatchCore \<Rightarrow> bool" for limits where
  init: "host_reach limits [] host_default"
| step: "host_reach limits past h \<Longrightarrow> host_apply limits e h = (a, h') \<Longrightarrow> host_reach limits (past @ [(e, a)]) h'"

lemma host_reach_inv: "host_reach limits past h \<Longrightarrow> host_inv h"
proof (induction rule: host_reach.induct)
  case init
  then show ?case by (simp add: host_inv_def host_default_def progress_default_def watch_of_def)
qed (rule host_apply_inv)

text \<open>
  Watching one member, bootstrap and match: the latest of preparing, cancelling and ending the match
  decides whether the admission is open.
\<close>

definition observe :: "MatchKey \<Rightarrow> MemberId \<Rightarrow> u32 \<Rightarrow> HostMatchEvent \<times> HostMatchApply \<Rightarrow> bool \<Rightarrow> bool" where
  "observe k m b ea is_open = (case ea of (e, a) \<Rightarrow>
     if (case e of BootstrapPrepared k' m' b' _ \<Rightarrow> k' = k \<and> m' = m \<and> b' = b | _ \<Rightarrow> False) \<and> ha_accepted a then True
     else if cancels m a \<or> (case e of HostMatchEnded _ \<Rightarrow> ha_accepted a | _ \<Rightarrow> False) then False
     else is_open)"

definition admission_open :: "MatchKey \<Rightarrow> MemberId \<Rightarrow> u32 \<Rightarrow> (HostMatchEvent \<times> HostMatchApply) list \<Rightarrow> bool" where
  "admission_open k m b past = fold (observe k m b) past False"

text \<open>Only preparing a bootstrap gives a peer one; it loses it when it is cancelled or the match ends.\<close>

lemma host_step_bootstrap:
  assumes inv: "host_inv h" and "host_apply limits e h = (a, h')" and "has_bootstrap m b h'"
  shows "(\<exists>c. e = BootstrapPrepared (hc_match_key h') m b c \<and> ha_accepted a)
    \<or> (has_bootstrap m b h \<and> hc_match_key h' = hc_match_key h \<and> \<not> cancels m a \<and> \<not> ((\<exists>k. e = HostMatchEnded k) \<and> ha_accepted a))"
proof (cases "hc_session_open h")
  case False
  then show ?thesis using assms by (auto simp: host_apply_def host_results cancels_def)
next
  case o: True
  have ok: "hm_ok (hc_peers h)" using inv by (simp add: host_inv_def)
  show ?thesis
  proof (cases e)
    case (Start k now)
    then show ?thesis using assms o
      by (auto simp: host_apply_def host_start_def host_results has_bootstrap_def cancels_def split: if_splits)
  next
    case (PeerRoster k ms now)
    have f: "hm_ok (filter (\<lambda>(m, _). m \<in> set ms) (hc_peers h))" using ok by (simp add: distinct_map_filter)
    show ?thesis using PeerRoster assms o
      by (auto simp: host_apply_def host_roster_def host_results has_bootstrap_def cancels_def roster_entries [OF f] hm_get_filter [OF ok]
        peer_default_def split: if_splits option.splits)
  next
    case (AuthorityReady ready now)
    then have r: "host_authority_ready ready now h = (a, h')" using assms o by (simp add: host_apply_def)
    show ?thesis
    proof (cases "ha_accepted a")
      case False
      then show ?thesis using r assms(3) AuthorityReady
        by (auto simp: host_authority_ready_def host_results cancels_def Let_def split: if_splits)
    next
      case True
      from r this obtain ps where ps: "hc_peers h' = map (\<lambda>(m, p). (m, snd (peer_ready_effect (hc_match_key h) ready m p))) ps"
        "ha_effects a = List.map_filter (\<lambda>(m, p). fst (peer_ready_effect (hc_match_key h) ready m p)) ps"
        "ps = hc_peers h \<or> ps = map (\<lambda>(m, p). (m, p\<lparr>pa_started_at_ms := Some now\<rparr>)) (hc_peers h)" "hc_match_key h' = hc_match_key h"
        by (elim authority_ready_peers) blast
      from assms(3) obtain p where p: "hm_get ps m = Some p"
        "pa_phase (snd (peer_ready_effect (hc_match_key h) ready m p)) \<in> {Syncing b, Admitted b}"
        by (auto simp: has_bootstrap_def ps(1) hm_get_map split: option.splits)
      have keep: "snd (peer_ready_effect (hc_match_key h) ready m p) = p" "\<And>r k'. fst (peer_ready_effect (hc_match_key h) ready m p) \<noteq> Some (CancelPeer m r k')"
        using peer_ready_effect_cases [of "hc_match_key h" ready m p] p(2) by (cases "peer_ready_effect (hc_match_key h) ready m p"; auto)+
      have "hm_ok ps" using ps(3) ok by (auto simp: case_prod_unfold o_def)
      have "\<not> cancels m a"
      proof
        assume "cancels m a"
        then obtain r k' where "CancelPeer m r k' \<in> set (ha_effects a)" by (auto simp: cancels_iff)
        then obtain m1 p1 where 1: "(m1, p1) \<in> set ps" "fst (peer_ready_effect (hc_match_key h) ready m1 p1) = Some (CancelPeer m r k')"
          by (auto simp: ps(2) List.map_filter_def)
        from fst_peer_ready_effect [OF 1(2)] have "m1 = m" by simp
        with 1(1) p(1) \<open>hm_ok ps\<close> have "p1 = p" by (simp add: map_of_eq_Some_iff eq_key_imp_eq_value)
        with \<open>m1 = m\<close> 1(2) keep(2) show False by blast
      qed
      moreover have "has_bootstrap m b h" using p keep(1) ps(3) by (auto simp: has_bootstrap_def hm_get_map)
      ultimately show ?thesis using ps(4) AuthorityReady by simp
    qed
  next
    case (MapLoaded m' loaded now)
    then have r: "host_map_loaded m' loaded now h = (a, h')" using assms o by (simp add: host_apply_def)
    show ?thesis
    proof (cases "ha_accepted a")
      case False
      then show ?thesis using r assms(3) MapLoaded
        by (auto simp: host_map_loaded_def host_results cancels_def Let_def split: if_splits option.splits prod.splits)
    next
      case True
      from r this obtain p p' where p: "hm_get (hc_peers h) m' = Some p" "h' = h\<lparr>hc_peers := hm_insert m' p' (hc_peers h)\<rparr>"
        "(pa_phase p' = pa_phase p \<and> set (ha_effects a) \<subseteq> {FlushBootstraps m'}) \<or> pa_phase p' = PeerFailed"
        "\<forall>e \<in> set (ha_effects a). \<exists>r. e = FlushBootstraps m' \<or> e = CancelPeer m' r (hc_match_key h)"
        by (elim map_loaded_peer) blast
      then show ?thesis using assms(3) MapLoaded
        by (cases "m = m'") (fastforce simp: has_bootstrap_def cancels_def list_ex_iff hm_simps)+
    qed
  next
    case (BootstrapPrepared k m' b' c)
    then show ?thesis using assms o
      by (auto simp: host_apply_def host_prepared_def host_results has_bootstrap_def cancels_def Let_def hm_simps
        split: if_splits option.splits PeerPhase.splits)
  next
    case (BootstrapApplied k m' b' c)
    then show ?thesis using assms o
      by (auto simp: host_apply_def host_applied_def host_results has_bootstrap_def cancels_def Let_def hm_simps
        split: if_splits option.splits)
  next
    case (PeerCancelled m')
    then show ?thesis using assms o
      by (auto simp: host_apply_def host_peer_cancelled_def host_results has_bootstrap_def cancels_def hm_simps split: if_splits option.splits)
  next
    case (HostTick now)
    then have t: "host_tick limits now h = (a, h')" using assms o by (simp add: host_apply_def)
    note p = tick_peers [OF ok t]
    have "hc_match_key h' = hc_match_key h" by (subst p(3)) simp
    then show ?thesis using HostTick assms(3) p(4) [of m] by (auto simp: has_bootstrap_def p(1) split: option.splits if_splits)
  qed (use assms o in \<open>auto simp: host_apply_def host_authority_progress_def host_match_ended_def host_close_def host_results
    has_bootstrap_def cancels_def split: if_splits\<close>)
qed

lemma host_reach_open: "host_reach limits past h \<Longrightarrow> has_bootstrap m b h \<Longrightarrow> admission_open (hc_match_key h) m b past"
proof (induction rule: host_reach.induct)
  case init
  then show ?case by (simp add: has_bootstrap_def host_default_def)
next
  case (step past h e a h')
  from host_step_bootstrap [OF host_reach_inv [OF step.hyps(1)] step.hyps(2) step.prems] step.IH
  show ?case by (auto simp: admission_open_def observe_def split: HostMatchEvent.splits)
qed

lemma rejected_silent:
  assumes "host_apply limits e h = (a, h')" and "\<not> ha_accepted a"
  shows "ha_effects a = [] \<and> h' = h"
  using assms by (cases e) (auto simp: host_apply_def host_start_def host_roster_def host_authority_ready_def host_authority_progress_def
    host_map_loaded_def host_prepared_def host_applied_def host_match_ended_def host_peer_cancelled_def host_close_def host_tick_def
    host_results Let_def split: if_splits option.splits prod.splits)

lemma ready_no_enter:
  assumes "host_authority_ready ready now h = (a, h')" and "ha_accepted a"
  shows "Enter m b k \<notin> set (ha_effects a)"
proof -
  from assms obtain ps where ps: "ha_effects a = List.map_filter (\<lambda>(m, p). fst (peer_ready_effect (hc_match_key h) ready m p)) ps"
    by (elim authority_ready_peers) blast
  have "fst (peer_ready_effect k' hw m' p) \<noteq> Some (Enter m b k)" for k' hw m' p
    using peer_ready_effect_cases [of k' hw m' p] by (cases "peer_ready_effect k' hw m' p") auto
  then show ?thesis by (auto simp: ps List.map_filter_def image_iff)
qed

lemma loaded_no_enter:
  assumes "host_map_loaded m' loaded now h = (a, h')" and "ha_accepted a"
  shows "Enter m b k \<notin> set (ha_effects a)"
proof -
  from assms have "\<forall>e \<in> set (ha_effects a). \<exists>r. e = FlushBootstraps m' \<or> e = CancelPeer m' r (hc_match_key h)"
    by (elim map_loaded_peer) blast
  then show ?thesis by blast
qed

lemma enter_applied:
  assumes "host_inv h" and "host_apply limits e h = (a, h')" and "Enter m b k \<in> set (ha_effects a)"
  shows "hc_session_open h \<and> k = hc_match_key h \<and> \<not> key_is_none k \<and> has_bootstrap m b h
    \<and> (\<exists>c p. e = BootstrapApplied k m b c \<and> hm_get (hc_peers h) m = Some p \<and> (pa_connection_id p = None \<or> pa_connection_id p = c))"
proof -
  have o: "hc_session_open h" using assms by (auto simp: host_apply_def host_results split: if_splits)
  have acc: "ha_accepted a" using rejected_silent [OF assms(2)] assms(3) by (cases "ha_accepted a") simp_all
  have "\<exists>c. e = BootstrapApplied k m b c"
    using assms(2,3) o ready_no_enter [OF _ acc] loaded_no_enter [OF _ acc]
    by (cases e) (auto simp: host_apply_def host_start_def host_roster_def host_authority_progress_def host_prepared_def host_applied_def
      host_match_ended_def host_peer_cancelled_def host_close_def host_tick_def host_results Let_def split: if_splits option.splits)
  then show ?thesis using assms(2,3) o
    by (auto simp: host_apply_def host_applied_def host_results has_bootstrap_def Let_def split: if_splits option.splits)
qed

section \<open>The properties\<close>

text \<open>
  C23. A client is let into the match only with its bootstrap. Over any sequence of events and for any
  limits, letting a member enter with a bootstrap happens only in answer to its confirmation of that
  bootstrap for the running match, on the connection the bootstrap was prepared for, after the
  bootstrap was prepared for it, and with neither a cancellation of the member nor the end of the
  match since.
\<close>

theorem enter_only_prepared:
  assumes "host_reach limits past h" and "host_apply limits e h = (a, h')" and "Enter m b k \<in> set (ha_effects a)"
  shows "admission_open k m b past \<and> k = hc_match_key h \<and> \<not> key_is_none k
    \<and> (\<exists>c p. e = BootstrapApplied k m b c \<and> hm_get (hc_peers h) m = Some p \<and> (pa_connection_id p = None \<or> pa_connection_id p = c))"
  using enter_applied [OF host_reach_inv [OF assms(1)] assms(2,3)] host_reach_open [OF assms(1)] by auto

fun host_run :: "TransportBudget \<Rightarrow> HostMatchEvent list \<Rightarrow> (HostMatchEvent \<times> HostMatchApply) list \<times> HostMatchCore
    \<Rightarrow> (HostMatchEvent \<times> HostMatchApply) list \<times> HostMatchCore" where
  "host_run limits [] s = s"
| "host_run limits (e # es) (past, h) = (case host_apply limits e h of (a, h') \<Rightarrow> host_run limits es (past @ [(e, a)], h'))"

lemma host_run_reach: "host_reach limits past h \<Longrightarrow> host_run limits es (past, h) = (past', h') \<Longrightarrow> host_reach limits past' h'"
  by (induction es arbitrary: past h) (auto split: prod.splits intro: host_reach.step)

definition sample_key :: MatchKey where
  "sample_key = \<lparr>mk_session_id = array_of (replicate 16 1), mk_match_epoch = 4\<rparr>"

definition sample_member :: MemberId where
  "sample_member = MemberId (array_of (replicate 16 2))"

definition sample_events :: "HostMatchEvent list" where
  "sample_events = [Start sample_key 10, PeerRoster sample_key [sample_member] 20, BootstrapPrepared sample_key sample_member 7 (Some 3)]"

lemmas sample_defs = sample_events_def host_apply_def host_start_def host_roster_def host_prepared_def host_applied_def host_results
  host_default_def roster_entry_def live_phase_def key_is_none_def peer_default_def MATCH_NONE_def progress_default_def

lemma sample_host: "hc_match_key (snd (host_run L sample_events ([], host_default))) = sample_key
    \<and> Enter sample_member 7 sample_key \<in> set (ha_effects (fst (host_apply L (BootstrapApplied sample_key sample_member 7 (Some 3))
        (snd (host_run L sample_events ([], host_default))))))"
  by (simp add: sample_defs Let_def sample_key_def)

theorem enter_only_prepared_witness:
  "admission_open sample_key sample_member 7 (fst (host_run default_budget sample_events ([], host_default)))"
proof -
  obtain past h where r: "host_run default_budget sample_events ([], host_default) = (past, h)" by fastforce
  obtain a h' where "host_apply default_budget (BootstrapApplied sample_key sample_member 7 (Some 3)) h = (a, h')" by fastforce
  from enter_only_prepared [OF host_run_reach [OF host_reach.init r] this] sample_host [of default_budget] this r show ?thesis by simp
qed







end
