(* ===== verification/Client_Session.thy ===== *)
theory Client_Session
  imports Session_Core
begin

text \<open>
  The client's side of a session: \<open>ClientMatchCore\<close>, which decides when a class may be chosen, and
  \<open>SessionCore\<close>, which applies the states the service publishes, of
  \<^verbatim>\<open>crates/net/src/session_core.rs\<close>. Log lines are left out; where the source returns one, the model
  returns whether it does.
\<close>

section \<open>The match on a client\<close>

record ClientMatchCore =
  cm_session_open :: bool
  cm_match_key :: MatchKey
  cm_retired_match :: "MatchKey option"
  cm_installed :: "LocalLoadKey option"
  cm_presentation_ready :: bool
  cm_local_authority_ready :: bool
  cm_adopted :: "AdmissionKey option"
  cm_enter :: "AdmissionKey option"
  cm_failed :: "SessionFail option"

definition client_default :: ClientMatchCore where
  "client_default = \<lparr>cm_session_open = True, cm_match_key = MATCH_NONE, cm_retired_match = None, cm_installed = None,
     cm_presentation_ready = False, cm_local_authority_ready = False, cm_adopted = None, cm_enter = None, cm_failed = None\<rparr>"

definition retire_match :: "ClientMatchCore \<Rightarrow> ClientMatchCore" where
  "retire_match c = client_default\<lparr>cm_session_open := cm_session_open c,
     cm_retired_match := (if \<not> key_is_none (cm_match_key c) then Some (cm_match_key c) else cm_retired_match c)\<rparr>"

definition apply_install :: "LocalLoadKey \<Rightarrow> ClientMatchCore \<Rightarrow> ClientMatchCore" where
  "apply_install load_key c =
     (if \<not> cm_session_open c \<or> cm_retired_match c = Some (lk_match_key load_key) then c
      else
        let key = (if key_is_none (lk_match_key load_key) \<and> \<not> key_is_none (cm_match_key c)
              then load_key\<lparr>lk_match_key := cm_match_key c\<rparr> else load_key)
        in if lk_match_key key \<noteq> cm_match_key c \<and> \<not> key_is_none (cm_match_key c) then c
           else
             let c1 = (if cm_installed c \<noteq> Some key then c\<lparr>cm_presentation_ready := False, cm_local_authority_ready := False\<rparr> else c)
             in c1\<lparr>cm_installed := Some key\<rparr>)"

definition apply_presentation :: "LocalLoadKey \<Rightarrow> bool \<Rightarrow> ClientMatchCore \<Rightarrow> ClientMatchCore" where
  "apply_presentation load_key ready c = (if cm_installed c = Some load_key then c\<lparr>cm_presentation_ready := ready\<rparr> else c)"

definition apply_start :: "MatchKey \<Rightarrow> ClientMatchCore \<Rightarrow> ClientMatchCore" where
  "apply_start match_key c =
     (if \<not> cm_session_open c \<or> key_is_none match_key \<or> cm_retired_match c = Some match_key then c
      else if cm_match_key c = match_key then c
      else if key_is_none (cm_match_key c) then
        c\<lparr>cm_match_key := match_key,
          cm_installed := map_option (\<lambda>lk. if key_is_none (lk_match_key lk) then lk\<lparr>lk_match_key := match_key\<rparr> else lk) (cm_installed c)\<rparr>
      else c\<lparr>cm_installed := None, cm_presentation_ready := False, cm_local_authority_ready := False, cm_adopted := None,
             cm_enter := None, cm_failed := None, cm_match_key := match_key\<rparr>)"

definition apply_local_authority_ready :: "LocalLoadKey \<Rightarrow> bool \<Rightarrow> ClientMatchCore \<Rightarrow> ClientMatchCore" where
  "apply_local_authority_ready load_key ready c =
     (if cm_installed c = Some load_key then c\<lparr>cm_local_authority_ready := ready\<rparr> else c)"

definition apply_adopted :: "AdmissionKey \<Rightarrow> ClientMatchCore \<Rightarrow> bool \<times> ClientMatchCore" where
  "apply_adopted key c =
     (if ak_match_key key \<noteq> cm_match_key c then (False, c)
      else if cm_adopted c = Some key then (False, c)
      else (True, c\<lparr>cm_adopted := Some key\<rparr>))"

definition apply_enter :: "AdmissionKey \<Rightarrow> ClientMatchCore \<Rightarrow> bool \<times> ClientMatchCore" where
  "apply_enter key c =
     (if cm_adopted c \<noteq> Some key then (False, c)
      else if cm_enter c = Some key then (False, c)
      else (True, c\<lparr>cm_enter := Some key\<rparr>))"

definition apply_fail :: "SessionFail \<Rightarrow> ClientMatchCore \<Rightarrow> ClientMatchCore" where
  "apply_fail fail c = (if cm_failed c = None then c\<lparr>cm_failed := Some fail\<rparr> else c)"

definition apply_close :: "ClientMatchCore \<Rightarrow> ClientMatchCore" where
  "apply_close c = c\<lparr>cm_session_open := False\<rparr>"

definition client_class_select_allowed :: "ClientMatchCore \<Rightarrow> bool" where
  "client_class_select_allowed c = class_select_allowed (cm_session_open c)
     (case cm_installed c of Some key \<Rightarrow> belongs_to key (cm_match_key c) | None \<Rightarrow> False)
     (cm_presentation_ready c) (cm_enter c \<noteq> None) (cm_failed c \<noteq> None)"

definition local_class_select_allowed :: "ClientMatchCore \<Rightarrow> bool" where
  "local_class_select_allowed c = class_select_allowed (cm_session_open c) (cm_installed c \<noteq> None)
     (cm_presentation_ready c) (cm_local_authority_ready c \<and> cm_installed c \<noteq> None) (cm_failed c \<noteq> None)"

section \<open>The states of the service\<close>



record SessionView =
  sv_map :: str
  sv_mode :: str
  sv_members :: "MemberId list"
  sv_skip_votes :: u8
  sv_start_nonce :: u32
  sv_in_match :: bool

definition session_view_default :: SessionView where
  "session_view_default = \<lparr>sv_map = lit '''', sv_mode = lit '''', sv_members = [], sv_skip_votes = 0, sv_start_nonce = 0, sv_in_match = False\<rparr>"


record SessionCore =
  sc_session_open :: bool
  sc_applied_state :: "(u32 \<times> u64) option"
  sc_view :: SessionView
  sc_match_phase :: SessionMatchPhase
  sc_session_id :: array16
  sc_incarnation :: u64
  sc_local_member :: "MemberId option"

definition zero_id :: array16 where
  "zero_id = array_of (replicate 16 0)"

definition session_default :: SessionCore where
  "session_default = \<lparr>sc_session_open = True, sc_applied_state = None, sc_view = session_view_default, sc_match_phase = PhaseNone,
     sc_session_id = zero_id, sc_incarnation = 0, sc_local_member = None\<rparr>"

definition for_connection :: "array16 \<Rightarrow> u64 \<Rightarrow> SessionCore" where
  "for_connection session_id incarnation = session_default\<lparr>sc_session_id := session_id, sc_incarnation := incarnation\<rparr>"





section \<open>Runs of a client\<close>

datatype client_op = RetireMatch | Install LocalLoadKey | Presentation LocalLoadKey bool | StartMatch MatchKey
  | LocalReady LocalLoadKey bool | Adopted AdmissionKey | EnterWith AdmissionKey | ClientFails SessionFail | ClientCloses

fun client_step :: "client_op \<Rightarrow> ClientMatchCore \<Rightarrow> ClientMatchCore" where
  "client_step RetireMatch c = retire_match c"
| "client_step (Install lk) c = apply_install lk c"
| "client_step (Presentation lk ready) c = apply_presentation lk ready c"
| "client_step (StartMatch k) c = apply_start k c"
| "client_step (LocalReady lk ready) c = apply_local_authority_ready lk ready c"
| "client_step (Adopted k) c = snd (apply_adopted k c)"
| "client_step (EnterWith k) c = snd (apply_enter k c)"
| "client_step (ClientFails f) c = apply_fail f c"
| "client_step ClientCloses c = apply_close c"








section \<open>Runs of a session\<close>












section \<open>The properties\<close>






definition sample_load :: LocalLoadKey where
  "sample_load = \<lparr>lk_incarnation = 1, lk_match_key = sample_key, lk_local_load_request_id = 5\<rparr>"

definition sample_admission :: "MatchKey \<Rightarrow> AdmissionKey" where
  "sample_admission k = \<lparr>ak_match_key = k, ak_member_id = array_of (replicate 16 2), ak_connection_id = 3, ak_bootstrap_id = 7\<rparr>"

lemmas client_evals = client_default_def apply_install_def apply_presentation_def apply_start_def
  apply_adopted_def apply_enter_def client_class_select_allowed_def class_select_allowed_def belongs_to_def Let_def

lemma sample_keys: "\<not> key_is_none sample_key" "key_is_none MATCH_NONE" "MATCH_NONE \<noteq> sample_key" "sample_key \<noteq> MATCH_NONE"
  "lk_match_key sample_load = sample_key" "ak_match_key (sample_admission k) = k"
  by (auto simp: key_is_none_def sample_key_def MATCH_NONE_def sample_load_def sample_admission_def)


text \<open>
  C40. Without that proviso the rule fails. A bootstrap adopted and entered before the client knows of
  any match stays when the match starts, and choosing a class is allowed in a match that the client
  was never let into.
\<close>

theorem unkeyed_enter_survives:
  assumes "\<not> key_is_none k" and "lk_match_key lk = k" and "ak_match_key key = MATCH_NONE"
  shows "client_class_select_allowed (fold client_step [Adopted key, EnterWith key, StartMatch k, Install lk, Presentation lk True] client_default)
    \<and> cm_enter (fold client_step [Adopted key, EnterWith key, StartMatch k, Install lk, Presentation lk True] client_default) = Some key
    \<and> ak_match_key key \<noteq> k"
proof -
  have "MATCH_NONE \<noteq> k" "key_is_none MATCH_NONE" using assms(1) by (auto simp: key_is_none_def MATCH_NONE_def)
  with assms show ?thesis
    by (simp add: client_evals)
qed

theorem unkeyed_enter_survives_witness:
  "client_class_select_allowed (fold client_step [Adopted (sample_admission MATCH_NONE), EnterWith (sample_admission MATCH_NONE),
      StartMatch sample_key, Install sample_load, Presentation sample_load True] client_default)"
  using unkeyed_enter_survives [of sample_key sample_load "sample_admission MATCH_NONE"]
  by (simp add: sample_keys)

end
