(* ===== verification/Weapon_Tables.thy ===== *)
theory Weapon_Tables
  imports Prelude
begin

text \<open>
  The ammunition tables of a player (\<^verbatim>\<open>crates/weapon_iw4/src/ammo.rs\<close>): fifteen rows of little-endian
  \<open>i32\<close> fields in a byte array, the first field of a row naming what it counts and zero marking a free
  row. The spare ammunition has rows of eight bytes, the magazines rows of twelve (one count per hand);
  five bytes of each weapon slot say whether it is held in two hands, its model, and whether a round
  has to be chambered. An \<open>i32\<close> is an integer; what the tables store of it are its 32 bits.
\<close>

section \<open>Thirty-two bit integers\<close>

type_synonym int32 = int

text \<open>Arithmetic on \<open>i32\<close> wraps in the shipped profiles.\<close>

definition wrap32 :: "int \<Rightarrow> int32" where
  "wrap32 x = signed_take_bit 31 x"

definition i32_ok :: "int \<Rightarrow> bool" where
  "i32_ok x \<longleftrightarrow> - (2 ^ 31) \<le> x \<and> x < 2 ^ 31"

definition saturate32 :: "int \<Rightarrow> int32" where
  "saturate32 x = max (- (2 ^ 31)) (min (2 ^ 31 - 1) x)"

definition as_u32 :: "int32 \<Rightarrow> u32" where
  "as_u32 x = word_of_int x"

definition as_i32 :: "u32 \<Rightarrow> int32" where
  "as_i32 w = sint w"

lemma wrap32_id [simp]: "i32_ok x \<Longrightarrow> wrap32 x = x"
  by (simp add: wrap32_def i32_ok_def signed_take_bit_int_eq_self)

lemma wrap32_ok [simp]: "i32_ok (wrap32 x)"
  using signed_take_bit_int_greater_eq_minus_exp [of 31 x] signed_take_bit_int_less_exp [of 31 x]
  by (simp add: wrap32_def i32_ok_def)

lemma saturate32_ok [simp]: "i32_ok (saturate32 x)"
  by (simp add: saturate32_def i32_ok_def)

lemma as_i32_of_u32 [simp]: "as_i32 (as_u32 x) = wrap32 x"
  by (simp add: as_i32_def as_u32_def wrap32_def sint_sbintrunc')

lemma as_i32_ok [simp]: "i32_ok (as_i32 w)"
  using sint_greater_eq [of w] sint_less [of w] by (simp add: as_i32_def i32_ok_def)

section \<open>Fields of a table\<close>

abbreviation (input) AMMO_TABLE_BYTES :: nat where "AMMO_TABLE_BYTES \<equiv> 0x78"
abbreviation (input) AMMOCLIP_TABLE_BYTES :: nat where "AMMOCLIP_TABLE_BYTES \<equiv> 0xb4"
abbreviation (input) WEAPON_DATA_BYTES :: nat where "WEAPON_DATA_BYTES \<equiv> 75"

definition i32_at :: "bytes \<Rightarrow> nat \<Rightarrow> int32" where
  "i32_at t off = as_i32 (from_le_bytes (take 4 (drop off t)))"

definition put_i32_at :: "bytes \<Rightarrow> nat \<Rightarrow> int32 \<Rightarrow> bytes" where
  "put_i32_at t off v = take off t @ to_le_bytes (as_u32 v) @ drop (off + 4) t"

lemma length_put_i32_at [simp]: "off + 4 \<le> length t \<Longrightarrow> length (put_i32_at t off v) = length t"
  by (simp add: put_i32_at_def length_to_le_bytes)

lemma i32_at_put_same [simp]:
  assumes "off + 4 \<le> length t"
  shows "i32_at (put_i32_at t off v) off = wrap32 v"
proof -
  have "take 4 (drop off (put_i32_at t off v)) = to_le_bytes (as_u32 v)"
    using assms by (simp add: put_i32_at_def length_to_le_bytes)
  then show ?thesis by (simp add: i32_at_def from_le_to_le)
qed

lemma i32_at_put_other:
  assumes "off + 4 \<le> length t" and "at' + 4 \<le> off \<or> off + 4 \<le> at'"
  shows "i32_at (put_i32_at t off v) at' = i32_at t at'"
proof -
  have "take 4 (drop at' (put_i32_at t off v)) = take 4 (drop at' t)"
    using assms by (intro nth_equalityI)
      (auto simp: put_i32_at_def nth_append length_to_le_bytes)
  then show ?thesis by (simp add: i32_at_def)
qed

lemma i32_at_ok [simp]: "i32_ok (i32_at t off)"
  by (simp add: i32_at_def)

section \<open>Rows\<close>

text \<open>The row of a key is the first whose first field is the key.\<close>

definition row_of :: "nat \<Rightarrow> bytes \<Rightarrow> int32 \<Rightarrow> nat option" where
  "row_of w t key = List.find (\<lambda>i. i32_at t (i * w) = key) [0..<15]"

text \<open>The scan of the setters: until the key's row, noting the first free row on the way.\<close>

fun scan_rows :: "nat \<Rightarrow> bytes \<Rightarrow> int32 \<Rightarrow> nat list \<Rightarrow> nat option \<Rightarrow> nat option \<times> nat option" where
  "scan_rows w t key [] free = (None, free)"
| "scan_rows w t key (i # is) free = (let idx = i32_at t (i * w) in
     if idx = key then (Some i, free)
     else scan_rows w t key is (if idx = 0 \<and> free = None then Some i else free))"

section \<open>Spare ammunition\<close>

definition get_ammo_not_in_clip :: "bytes \<Rightarrow> int32 \<Rightarrow> int32" where
  "get_ammo_not_in_clip ammo ammo_index = (case row_of 8 ammo ammo_index of
     Some i \<Rightarrow> i32_at ammo (i * 8 + 4) | None \<Rightarrow> 0)"

definition set_ammo_not_in_clip :: "bytes \<Rightarrow> int32 \<Rightarrow> int32 \<Rightarrow> bytes \<times> bool" where
  "set_ammo_not_in_clip ammo ammo_index count = (case scan_rows 8 ammo ammo_index [0..<15] None of
     (Some i, _) \<Rightarrow> (put_i32_at ammo (i * 8 + 4) count, True)
   | (None, Some i) \<Rightarrow> (put_i32_at (put_i32_at ammo (i * 8) ammo_index) (i * 8 + 4) count, True)
   | (None, None) \<Rightarrow> (ammo, False))"

definition ammo_row_present :: "bytes \<Rightarrow> int32 \<Rightarrow> bool" where
  "ammo_row_present ammo ammo_index \<longleftrightarrow> ammo_index \<noteq> 0 \<and> row_of 8 ammo ammo_index \<noteq> None"

section \<open>Magazines\<close>

definition get_total_ammo_in_clips :: "bytes \<Rightarrow> int32 \<Rightarrow> int32" where
  "get_total_ammo_in_clips ammoclip clip_index = (case row_of 12 ammoclip clip_index of
     Some i \<Rightarrow> saturate32 (i32_at ammoclip (i * 12 + 4) + i32_at ammoclip (i * 12 + 8)) | None \<Rightarrow> 0)"

definition clip_row_present :: "bytes \<Rightarrow> int32 \<Rightarrow> bool" where
  "clip_row_present ammoclip clip_index \<longleftrightarrow> clip_index \<noteq> 0 \<and> row_of 12 ammoclip clip_index \<noteq> None"

definition hand_field :: "nat \<Rightarrow> u8 \<Rightarrow> nat" where
  "hand_field off hand = off + 4 + unat (min hand 1) * 4"

definition get_clip_for_hand :: "bytes \<Rightarrow> int32 \<Rightarrow> u8 \<Rightarrow> int32" where
  "get_clip_for_hand ammoclip clip_index hand = (case row_of 12 ammoclip clip_index of
     Some i \<Rightarrow> i32_at ammoclip (hand_field (i * 12) hand) | None \<Rightarrow> 0)"

definition set_clip_for_hand :: "bytes \<Rightarrow> int32 \<Rightarrow> u8 \<Rightarrow> int32 \<Rightarrow> bytes \<times> bool" where
  "set_clip_for_hand ammoclip clip_index hand count = (case scan_rows 12 ammoclip clip_index [0..<15] None of
     (Some i, _) \<Rightarrow> (put_i32_at ammoclip (hand_field (i * 12) hand) count, True)
   | (None, Some i) \<Rightarrow> (put_i32_at (put_i32_at ammoclip (i * 12) clip_index) (hand_field (i * 12) hand) count, True)
   | (None, None) \<Rightarrow> (ammoclip, False))"

definition clear_row :: "bytes \<Rightarrow> nat \<Rightarrow> int32 \<Rightarrow> bytes" where
  "clear_row ammoclip off clip_index =
     put_i32_at (take off ammoclip @ replicate 12 0 @ drop (off + 12) ammoclip) off clip_index"

definition ensure_clip_row :: "bytes \<Rightarrow> int32 \<Rightarrow> bytes \<times> nat" where
  "ensure_clip_row ammoclip clip_index = (case row_of 12 ammoclip clip_index of
     Some i \<Rightarrow> (ammoclip, i * 12)
   | None \<Rightarrow> (case row_of 12 ammoclip 0 of
       Some i \<Rightarrow> (clear_row ammoclip (i * 12) clip_index, i * 12)
     | None \<Rightarrow> (clear_row ammoclip 0 clip_index, 0)))"

definition spend_clip_for_hand :: "bytes \<Rightarrow> int32 \<Rightarrow> u8 \<Rightarrow> int32 \<Rightarrow> bytes" where
  "spend_clip_for_hand ammoclip clip_index hand amount = (case ensure_clip_row ammoclip clip_index of
     (t, off) \<Rightarrow> let field = hand_field off hand in put_i32_at t field (wrap32 (i32_at t field - amount)))"

section \<open>Keys and slots\<close>

definition get_ammo_index :: "int32 \<Rightarrow> int32" where "get_ammo_index weapon_def_ammo_index = weapon_def_ammo_index"
definition get_clip_index :: "int32 \<Rightarrow> int32" where "get_clip_index weapon_def_clip_index = weapon_def_clip_index"

definition clip_table_key :: "int32 \<Rightarrow> u32 \<Rightarrow> int32" where
  "clip_table_key clip_index weapon = (if clip_index \<noteq> 0 then clip_index else as_i32 weapon)"

definition ammo_table_key :: "int32 \<Rightarrow> u32 \<Rightarrow> int32" where
  "ammo_table_key ammo_index weapon = (if ammo_index \<noteq> 0 then ammo_index else as_i32 weapon)"

definition get_weapon_dual_wield_byte :: "bytes \<Rightarrow> int32 \<Rightarrow> u8" where
  "get_weapon_dual_wield_byte weapon_data slot =
     (if \<not> (0 \<le> slot \<and> slot < 15) then 0 else weapon_data ! (nat slot * 5 + 1))"

definition set_weapon_dual_wield_byte :: "bytes \<Rightarrow> int32 \<Rightarrow> bool \<Rightarrow> bytes" where
  "set_weapon_dual_wield_byte weapon_data slot dual =
     (if \<not> (0 \<le> slot \<and> slot < 15) then weapon_data else weapon_data[nat slot * 5 + 1 := if dual then 1 else 0])"

definition player_weapons_find_slot :: "int32 list \<Rightarrow> int32 \<Rightarrow> int32" where
  "player_weapons_find_slot weapons weapon = (if weapon = 0 then - 1
     else case List.find (\<lambda>(i, slot). slot = weapon) (List.enumerate 0 weapons) of
       Some (i, _) \<Rightarrow> int i | None \<Rightarrow> - 1)"

definition latch_weapon_dual_wield :: "int32 list \<Rightarrow> bytes \<Rightarrow> u32 \<Rightarrow> bool \<Rightarrow> bytes" where
  "latch_weapon_dual_wield weapons weapon_data weapon dual = (let slot = player_weapons_find_slot weapons (as_i32 weapon) in
     if slot < 0 \<or> length weapon_data < WEAPON_DATA_BYTES then weapon_data
     else set_weapon_dual_wield_byte (take WEAPON_DATA_BYTES weapon_data) slot dual @ drop WEAPON_DATA_BYTES weapon_data)"

definition weapon_model_for_held :: "int32 list \<Rightarrow> bytes \<Rightarrow> u32 \<Rightarrow> u8" where
  "weapon_model_for_held weapons weapon_data weapon = (let slot = player_weapons_find_slot weapons (as_i32 weapon) in
     if slot < 0 then 0 else
     if nat slot * 5 + 2 < length weapon_data then weapon_data ! (nat slot * 5 + 2) else 0)"

text \<open>A store past the end of the slice is dropped, as \<open>list_update\<close> drops it.\<close>

definition set_weapon_model_for_held :: "int32 list \<Rightarrow> bytes \<Rightarrow> u32 \<Rightarrow> u8 \<Rightarrow> bytes" where
  "set_weapon_model_for_held weapons weapon_data weapon model = (let slot = player_weapons_find_slot weapons (as_i32 weapon) in
     if slot < 0 then weapon_data else weapon_data[nat slot * 5 + 2 := model])"

definition weapon_rechamber_pending :: "int32 list \<Rightarrow> bytes \<Rightarrow> u32 \<Rightarrow> nat \<Rightarrow> bool" where
  "weapon_rechamber_pending weapons weapon_data weapon hand = (let slot = player_weapons_find_slot weapons (as_i32 weapon) in
     if slot < 0 \<or> hand > 1 then False else
     nat slot * 5 + 3 + hand < length weapon_data \<and> weapon_data ! (nat slot * 5 + 3 + hand) \<noteq> 0)"

definition set_weapon_rechamber_pending :: "int32 list \<Rightarrow> bytes \<Rightarrow> u32 \<Rightarrow> nat \<Rightarrow> bool \<Rightarrow> bytes" where
  "set_weapon_rechamber_pending weapons weapon_data weapon hand pending = (let slot = player_weapons_find_slot weapons (as_i32 weapon) in
     if slot < 0 \<or> hand > 1 then weapon_data else weapon_data[nat slot * 5 + 3 + hand := if pending then 1 else 0])"

definition num_hands :: "u8 \<Rightarrow> int32" where
  "num_hands dual_wield_byte = (if dual_wield_byte \<noteq> 0 then 1 else 0)"

definition num_hands_for_held :: "int32 list \<Rightarrow> bytes \<Rightarrow> u32 \<Rightarrow> int32" where
  "num_hands_for_held weapons weapon_data held_weapon = (if held_weapon = 0 then 0 else
     let slot = player_weapons_find_slot weapons (as_i32 held_weapon) in
     if slot < 0 \<or> length weapon_data < WEAPON_DATA_BYTES then 0
     else num_hands (get_weapon_dual_wield_byte (take WEAPON_DATA_BYTES weapon_data) slot))"

definition has_akimbo_viewmodel_anims :: "bytes option \<Rightarrow> bool" where
  "has_akimbo_viewmodel_anims right_idle = (case right_idle of None \<Rightarrow> False
     | Some name \<Rightarrow> (case name of [] \<Rightarrow> False | b # _ \<Rightarrow> b \<noteq> 0))"

definition create_akimbo_viewmodel_trees :: "u8 \<Rightarrow> bytes option \<Rightarrow> bool" where
  "create_akimbo_viewmodel_trees no_dual_wield right_idle \<longleftrightarrow> no_dual_wield = 0 \<and> has_akimbo_viewmodel_anims right_idle"

text \<open>What these functions read of a player's state.\<close>

record PlayerAmmo =
  pa_weapons :: "int32 list"
  pa_weapon_data :: bytes
  pa_ammo :: bytes
  pa_ammoclip :: bytes

definition get_ammo_player_both_clips :: "PlayerAmmo \<Rightarrow> u32 \<Rightarrow> int32 \<Rightarrow> int32 \<Rightarrow> int32" where
  "get_ammo_player_both_clips ps weapon ammo_index clip_index =
     (let stock = get_ammo_not_in_clip (pa_ammo ps) ammo_index;
          right = get_clip_for_hand (pa_ammoclip ps) clip_index 0;
          left = if num_hands_for_held (pa_weapons ps) (pa_weapon_data ps) weapon = 1
                 then get_clip_for_hand (pa_ammoclip ps) clip_index 1 else 0
      in wrap32 (wrap32 (stock + right) + left))"

section \<open>Tables as maps\<close>

text \<open>
  What the setters share: the field at offset \<open>f\<close> of the key's row of \<open>w\<close> bytes, or of the first
  free row, which then gets the key.
\<close>

definition write_row :: "nat \<Rightarrow> nat \<Rightarrow> bytes \<Rightarrow> int32 \<Rightarrow> int32 \<Rightarrow> bytes \<times> bool" where
  "write_row w f t key v = (case row_of w t key of
     Some i \<Rightarrow> (put_i32_at t (i * w + f) v, True)
   | None \<Rightarrow> (case row_of w t 0 of
       Some i \<Rightarrow> (put_i32_at (put_i32_at t (i * w) key) (i * w + f) v, True)
     | None \<Rightarrow> (t, False)))"

definition read_row :: "nat \<Rightarrow> nat \<Rightarrow> bytes \<Rightarrow> int32 \<Rightarrow> int32" where
  "read_row w f t key = (case row_of w t key of Some i \<Rightarrow> i32_at t (i * w + f) | None \<Rightarrow> 0)"

lemma scan_rows_hit: "fst (scan_rows w t key is free) = List.find (\<lambda>i. i32_at t (i * w) = key) is"
  by (induction "is" arbitrary: free) (simp_all add: Let_def)

lemma scan_rows_free:
  "fst (scan_rows w t key is free) = None \<Longrightarrow> snd (scan_rows w t key is free) =
     (case free of Some i \<Rightarrow> Some i | None \<Rightarrow> List.find (\<lambda>i. i32_at t (i * w) = 0) is)"
  by (induction "is" arbitrary: free) (auto simp: Let_def split: option.splits if_splits)

lemma write_row_scan:
  "write_row w f t key v = (case scan_rows w t key [0..<15] None of
     (Some i, _) \<Rightarrow> (put_i32_at t (i * w + f) v, True)
   | (None, Some i) \<Rightarrow> (put_i32_at (put_i32_at t (i * w) key) (i * w + f) v, True)
   | (None, None) \<Rightarrow> (t, False))"
  using scan_rows_hit [of w t key "[0..<15]" None] scan_rows_free [of w t key "[0..<15]" None]
  by (auto simp: write_row_def row_of_def split: prod.split option.split)

lemma row_of_Some: "row_of w t key = Some i \<Longrightarrow> i < 15 \<and> i32_at t (i * w) = key"
  by (auto simp: row_of_def find_Some_iff)

lemma row_of_None: "row_of w t key = None \<longleftrightarrow> (\<forall>i<15. i32_at t (i * w) \<noteq> key)"
  by (auto simp: row_of_def find_None_iff)

lemma row_of_cong:
  "(\<And>i. i < 15 \<Longrightarrow> i32_at s (i * w) = key \<longleftrightarrow> i32_at t (i * w) = key) \<Longrightarrow> row_of w s key = row_of w t key"
  unfolding row_of_def by (rule find_cong) auto

lemma row_of_unique:
  assumes "i < 15" and "i32_at t (i * w) = key" and "\<And>j. j < 15 \<Longrightarrow> i32_at t (j * w) = key \<Longrightarrow> j = i"
  shows "row_of w t key = Some i"
proof (cases "row_of w t key")
  case None
  with assms(1,2) show ?thesis unfolding row_of_None by blast
next
  case (Some j)
  with assms(3) [of j] show ?thesis using row_of_Some [OF Some] by simp
qed

text \<open>Fields of different rows, or different fields of a row, do not overlap.\<close>

lemma rows_apart:
  fixes w :: nat
  assumes "i \<noteq> j \<or> f + 4 \<le> g \<or> g + 4 \<le> f" and "f + 4 \<le> w" and "g + 4 \<le> w"
  shows "i * w + f + 4 \<le> j * w + g \<or> j * w + g + 4 \<le> i * w + f"
proof (cases i j rule: linorder_cases)
  case less
  then have "Suc i * w \<le> j * w" by (intro mult_le_mono) simp_all
  with assms show ?thesis by simp
next
  case greater
  then have "Suc j * w \<le> i * w" by (intro mult_le_mono) simp_all
  with assms show ?thesis by simp
qed (use assms in auto)

lemma row_fits:
  fixes w :: nat
  assumes "i < 15" and "f + 4 \<le> w" and "15 * w \<le> length t"
  shows "i * w + f + 4 \<le> length t"
proof -
  have "Suc i * w \<le> 15 * w" using assms(1) by (intro mult_le_mono1) simp
  then have "w + i * w \<le> 15 * w" by (simp only: mult_Suc)
  with assms(2,3) show ?thesis by linarith
qed

lemma i32_at_put_row:
  assumes "i < 15" "f + 4 \<le> w" "g + 4 \<le> w" "15 * w \<le> length t" "f = g \<or> f + 4 \<le> g \<or> g + 4 \<le> f"
  shows "i32_at (put_i32_at t (i * w + f) v) (j * w + g) =
    (if i = j \<and> f = g then wrap32 v else i32_at t (j * w + g))"
proof (cases "i = j \<and> f = g")
  case True
  then show ?thesis using row_fits [OF assms(1,2,4)] by simp
next
  case False
  then have "j * w + g + 4 \<le> i * w + f \<or> i * w + f + 4 \<le> j * w + g"
    using rows_apart [of i j f g w] assms by auto
  then show ?thesis using row_fits [OF assms(1,2,4)] False by (auto simp: i32_at_put_other)
qed

lemmas i32_at_put_key = i32_at_put_row [where f = 0, simplified]
lemmas i32_at_key_put = i32_at_put_row [where g = 0, simplified]

text \<open>
  A free row counts nothing and no two rows have the same key. The counts of a table are the fields at
  the offsets \<open>fs\<close>.
\<close>

definition table_ok :: "nat \<Rightarrow> nat set \<Rightarrow> bytes \<Rightarrow> bool" where
  "table_ok w fs t \<longleftrightarrow> length t = 15 * w \<and> (\<forall>i<15. i32_at t (i * w) = 0 \<longrightarrow> (\<forall>f\<in>fs. i32_at t (i * w + f) = 0))
     \<and> (\<forall>i<15. \<forall>j<15. i32_at t (i * w) = i32_at t (j * w) \<longrightarrow> i32_at t (i * w) \<noteq> 0 \<longrightarrow> i = j)"

definition key_ok :: "int32 \<Rightarrow> bool" where
  "key_ok key \<longleftrightarrow> key \<noteq> 0 \<and> i32_ok key"

definition fields_ok :: "nat \<Rightarrow> nat set \<Rightarrow> bool" where
  "fields_ok w fs \<longleftrightarrow> 4 \<le> w \<and> (\<forall>f\<in>fs. 4 \<le> f \<and> f + 4 \<le> w) \<and> (\<forall>f\<in>fs. \<forall>g\<in>fs. f = g \<or> f + 4 \<le> g \<or> g + 4 \<le> f)"

lemma write_row_cases:
  assumes "fields_ok w fs" and "table_ok w fs t" and "key_ok key" and "f \<in> fs" and "write_row w f t key v = (t', True)"
  obtains i where "i < 15" and "length t' = length t" and "row_of w t' key = Some i"
    and "row_of w t key = Some i \<or> row_of w t key = None \<and> i32_at t (i * w) = 0"
    and "\<And>j. j < 15 \<Longrightarrow> i32_at t' (j * w) = (if j = i then key else i32_at t (j * w))"
    and "\<And>j g. j < 15 \<Longrightarrow> g \<in> fs \<Longrightarrow> i32_at t' (j * w + g) = (if j = i \<and> g = f then wrap32 v else i32_at t (j * w + g))"
proof -
  have f: "4 \<le> f" "f + 4 \<le> w" and w: "4 \<le> w" and len: "15 * w \<le> length t"
    and g: "\<And>g. g \<in> fs \<Longrightarrow> 4 \<le> g \<and> g + 4 \<le> w \<and> (f = g \<or> f + 4 \<le> g \<or> g + 4 \<le> f)"
    using assms by (auto simp: fields_ok_def table_ok_def)
  have key: "wrap32 key = key" using assms(3) by (simp add: key_ok_def)
  show ?thesis
  proof (cases "row_of w t key")
    case (Some i)
    then have i: "i < 15" "i32_at t (i * w) = key" and t': "t' = put_i32_at t (i * w + f) v"
      using assms(5) row_of_Some [OF Some] by (auto simp: write_row_def)
    have keys: "i32_at t' (j * w) = i32_at t (j * w)" for j
      using i f w len by (simp add: t' i32_at_key_put)
    have "row_of w t' key = Some i" using Some row_of_cong [of t' w key t] keys by simp
    moreover have "i32_at t' (j * w + h) = (if j = i \<and> h = f then wrap32 v else i32_at t (j * w + h))" if "h \<in> fs" for j h
      using i f len g [OF that] by (auto simp: t' i32_at_put_row)
    ultimately show ?thesis using i f len Some keys row_fits [OF i(1) f(2) len] by (intro that [of i]) (auto simp: t')
  next
    case None
    then obtain i where free: "row_of w t 0 = Some i" and t': "t' = put_i32_at (put_i32_at t (i * w) key) (i * w + f) v"
      using assms(5) by (auto simp: write_row_def split: option.splits)
    have i: "i < 15" "i32_at t (i * w) = 0" using row_of_Some [OF free] by auto
    define s where "s = put_i32_at t (i * w) key"
    have s: "length s = length t" using row_fits [of i 0 w t] i w len by (simp add: s_def)
    have keys: "i32_at t' (j * w) = (if j = i then key else i32_at t (j * w))" for j
      using i f w len s by (simp add: t' flip: s_def) (simp add: i32_at_key_put, simp add: s_def i32_at_put_key [where g = 0, simplified] key)
    have vals: "i32_at t' (j * w + h) = (if j = i \<and> h = f then wrap32 v else i32_at t (j * w + h))" if "h \<in> fs" for j h
      using i f w len s g [OF that] by (auto simp: t' i32_at_put_row i32_at_put_key simp flip: s_def) (auto simp: s_def i32_at_put_key)
    have "row_of w t' key = Some i"
      using i None keys by (intro row_of_unique) (auto simp: row_of_None split: if_splits)
    then show ?thesis using i f len s None keys vals row_fits [OF i(1) f(2), of s] by (intro that [of i]) (auto simp: t' simp flip: s_def)
  qed
qed

lemma write_row_keeps:
  assumes "fields_ok w fs" and "table_ok w fs t" and "key_ok key" and "f \<in> fs" and "write_row w f t key v = (t', b)"
  shows "table_ok w fs t'"
proof (cases b)
  case True
  then have "write_row w f t key v = (t', True)" using assms(5) by simp
  then obtain i where i: "i < 15" "length t' = length t" and "row_of w t' key = Some i"
    and r0: "row_of w t key = Some i \<or> row_of w t key = None \<and> i32_at t (i * w) = 0"
    and k: "\<And>j. j < 15 \<Longrightarrow> i32_at t' (j * w) = (if j = i then key else i32_at t (j * w))"
    and v: "\<And>j g. j < 15 \<Longrightarrow> g \<in> fs \<Longrightarrow> i32_at t' (j * w + g) = (if j = i \<and> g = f then wrap32 v else i32_at t (j * w + g))"
    by (rule write_row_cases [OF assms(1-4)]) blast
  have "j = i" if "j < 15" "i32_at t (j * w) = key" for j
    using r0 that row_of_Some [of w t key i] i assms(2,3)
    unfolding table_ok_def key_ok_def row_of_None by metis
  then have "j = l" if "j < 15" "l < 15" "i32_at t' (j * w) = i32_at t' (l * w)" "i32_at t' (j * w) \<noteq> 0" for j l
    using that k [of j] k [of l] assms(2) unfolding table_ok_def by metis
  moreover have "i32_at t' (j * w + g) = 0" if "j < 15" "i32_at t' (j * w) = 0" "g \<in> fs" for j g
    using that k [of j] v [of j g] assms(2,3) by (auto simp: table_ok_def key_ok_def split: if_splits)
  ultimately show ?thesis using i assms(2) by (auto simp: table_ok_def)
next
  case False
  then show ?thesis using assms by (auto simp: write_row_def split: option.splits)
qed

lemma read_row_write:
  assumes "fields_ok w fs" and "table_ok w fs t" and "key_ok key" and "key_ok j" and "f \<in> fs" and "g \<in> fs" and "i32_ok v"
    and "write_row w f t key v = (t', True)"
  shows "read_row w g t' j = (if j = key \<and> g = f then v else read_row w g t j)"
proof -
  obtain i where i: "i < 15" and "length t' = length t" and r: "row_of w t' key = Some i"
    and r0: "row_of w t key = Some i \<or> row_of w t key = None \<and> i32_at t (i * w) = 0"
    and k: "\<And>j. j < 15 \<Longrightarrow> i32_at t' (j * w) = (if j = i then key else i32_at t (j * w))"
    and v: "\<And>j g. j < 15 \<Longrightarrow> g \<in> fs \<Longrightarrow> i32_at t' (j * w + g) = (if j = i \<and> g = f then wrap32 v else i32_at t (j * w + g))"
    by (rule write_row_cases [OF assms(1-3,5,8)]) blast
  show ?thesis
  proof (cases "j = key")
    case True
    moreover have "i32_at t (i * w + g) = read_row w g t key" if "g \<noteq> f"
      using r0 i assms(2,6) by (auto simp: read_row_def table_ok_def)
    ultimately show ?thesis using r v [OF i assms(6)] assms(7) by (auto simp: read_row_def)
  next
    case False
    have "i32_at t (i * w) \<noteq> j" using r0 row_of_Some [of w t key i] False assms(4) by (auto simp: key_ok_def)
    then have "row_of w t' j = row_of w t j" using k False by (intro row_of_cong) auto
    then show ?thesis using False r0 v assms(6) \<open>i32_at t (i * w) \<noteq> j\<close> row_of_Some [of w t j]
      by (auto simp: read_row_def split: option.split)
  qed
qed

lemma write_row_refused: "write_row w f t key v = (t', False) \<Longrightarrow> t' = t \<and> row_of w t key = None \<and> row_of w t 0 = None"
  by (auto simp: write_row_def split: option.splits)

text \<open>The keys with a row.\<close>

definition row_keys :: "nat \<Rightarrow> bytes \<Rightarrow> int32 set" where
  "row_keys w t = {key. key \<noteq> 0 \<and> row_of w t key \<noteq> None}"

lemma row_keys_image: "row_keys w t = (\<lambda>i. i32_at t (i * w)) ` {..<15} - {0}"
  by (force simp: row_keys_def row_of_None)

lemma write_row_keys:
  assumes "fields_ok w fs" and "table_ok w fs t" and "key_ok key" and "f \<in> fs" and "write_row w f t key v = (t', True)"
  shows "row_keys w t' = insert key (row_keys w t)"
proof -
  obtain i where i: "i < 15" "length t' = length t" and r: "row_of w t' key = Some i"
    and r0: "row_of w t key = Some i \<or> row_of w t key = None \<and> i32_at t (i * w) = 0"
    and k: "\<And>j. j < 15 \<Longrightarrow> i32_at t' (j * w) = (if j = i then key else i32_at t (j * w))"
    and v: "\<And>j g. j < 15 \<Longrightarrow> g \<in> fs \<Longrightarrow> i32_at t' (j * w + g) = (if j = i \<and> g = f then wrap32 v else i32_at t (j * w + g))"
    by (rule write_row_cases [OF assms]) blast
  have old: "i32_at t (i * w) = key \<or> i32_at t (i * w) = 0" using r0 row_of_Some [of w t key i] by auto
  have same: "row_of w t' j = row_of w t j" if "j \<noteq> key" "j \<noteq> 0" for j
    using that k old by (intro row_of_cong) auto
  have "key \<noteq> 0" using assms(3) by (simp add: key_ok_def)
  then have "j \<in> row_keys w t' \<longleftrightarrow> j \<in> insert key (row_keys w t)" for j
    using r same [of j] by (cases "j = key"; cases "j = 0") (simp_all add: row_keys_def)
  then show ?thesis by blast
qed

lemma write_row_accepts:
  assumes "table_ok w fs t" and "key_ok key" and "key \<in> row_keys w t \<or> card (row_keys w t) < 15"
  shows "snd (write_row w f t key v)"
proof (rule ccontr)
  assume "\<not> ?thesis"
  then have none: "row_of w t key = None" "row_of w t 0 = None"
    by (auto simp: write_row_def split: option.splits)
  then have "row_keys w t = (\<lambda>i. i32_at t (i * w)) ` {..<15}" by (force simp: row_keys_image row_of_None)
  moreover have "inj_on (\<lambda>i. i32_at t (i * w)) {..<15}"
    using assms(1) none by (auto simp: inj_on_def table_ok_def row_of_None)
  ultimately have "card (row_keys w t) = 15" by (simp add: card_image)
  with assms(2,3) none show False by (simp add: row_keys_def)
qed

subsection \<open>The contract of a table\<close>

fun store_all :: "('t \<Rightarrow> 'k \<Rightarrow> int32 \<Rightarrow> 't \<times> bool) \<Rightarrow> 't \<Rightarrow> ('k \<times> int32) list \<Rightarrow> 't option" where
  "store_all put t [] = Some t"
| "store_all put t ((k, v) # kvs) = (case put t k v of (t', b) \<Rightarrow> if b then store_all put t' kvs else None)"

text \<open>
  A counter table keeps the counts of its keys apart and runs out of space only when all its rows have
  other keys. Keys may share a row.
\<close>

locale counter_table =
  fixes ok :: "'t \<Rightarrow> bool" and key :: "'k \<Rightarrow> bool" and row :: "'k \<Rightarrow> int32" and rows :: "'t \<Rightarrow> int32 set"
    and get :: "'t \<Rightarrow> 'k \<Rightarrow> int32" and put :: "'t \<Rightarrow> 'k \<Rightarrow> int32 \<Rightarrow> 't \<times> bool"
  assumes put_keeps: "ok t \<Longrightarrow> key k \<Longrightarrow> put t k v = (t', True) \<Longrightarrow> ok t'"
    and get_put: "ok t \<Longrightarrow> key k \<Longrightarrow> key j \<Longrightarrow> i32_ok v \<Longrightarrow> put t k v = (t', True) \<Longrightarrow> get t' j = (if j = k then v else get t j)"
    and rows_put: "ok t \<Longrightarrow> key k \<Longrightarrow> put t k v = (t', True) \<Longrightarrow> rows t' = insert (row k) (rows t)"
    and put_accepts: "ok t \<Longrightarrow> key k \<Longrightarrow> row k \<in> rows t \<or> card (rows t) < 15 \<Longrightarrow> snd (put t k v)"
    and finite_rows: "finite (rows t)"
begin

lemma store_all_get:
  assumes "ok t" and "\<forall>(k, v)\<in>set kvs. key k \<and> i32_ok v" and "store_all put t kvs = Some t'" and "key j"
  shows "ok t' \<and> get t' j = (case map_of (rev kvs) j of Some v \<Rightarrow> v | None \<Rightarrow> get t j)"
  using assms
proof (induction kvs arbitrary: t)
  case (Cons kv kvs)
  obtain k v where kv: "kv = (k, v)" by (cases kv)
  then obtain s where s: "put t k v = (s, True)" "store_all put s kvs = Some t'"
    using Cons.prems(3) by (auto split: prod.splits if_splits)
  have k: "key k" "i32_ok v" using Cons.prems(2) kv by auto
  have "ok s" using put_keeps Cons.prems(1) k s by blast
  then have "ok t' \<and> get t' j = (case map_of (rev kvs) j of Some v \<Rightarrow> v | None \<Rightarrow> get s j)"
    using Cons.IH [of s] Cons.prems s by simp
  moreover have "get s j = (if j = k then v else get t j)" using get_put Cons.prems(1,4) k s by blast
  ultimately show ?case by (auto simp: kv map_add_def split: option.split)
qed simp

lemma store_all_accepts:
  assumes "ok t" and "\<forall>k\<in>fst ` set kvs. key k" and "card (rows t \<union> row ` fst ` set kvs) \<le> 15"
  shows "\<exists>t'. store_all put t kvs = Some t'"
  using assms
proof (induction kvs arbitrary: t)
  case (Cons kv kvs)
  obtain k v where kv: "kv = (k, v)" by (cases kv)
  have k: "key k" using Cons.prems(2) kv by auto
  have "card (insert (row k) (rows t)) \<le> card (rows t \<union> row ` fst ` set (kv # kvs))"
    using finite_rows [of t] by (intro card_mono) (auto simp: kv)
  then have "row k \<in> rows t \<or> card (rows t) < 15"
    using Cons.prems(3) finite_rows [of t] by (cases "row k \<in> rows t") simp_all
  then obtain s where s: "put t k v = (s, True)" using put_accepts [OF Cons.prems(1) k] by (metis (full_types) prod.collapse)
  have "rows s = insert (row k) (rows t)" "ok s" using rows_put put_keeps Cons.prems(1) k s by blast+
  with Cons s show ?case by (simp add: kv)
qed simp

end

subsection \<open>The two tables\<close>

lemma ammo_rows: "get_ammo_not_in_clip = read_row 8 4" "set_ammo_not_in_clip = write_row 8 4"
  by (simp_all add: fun_eq_iff get_ammo_not_in_clip_def read_row_def set_ammo_not_in_clip_def write_row_scan)

lemma clip_rows:
  "get_clip_for_hand t k h = read_row 12 (hand_field 0 h) t k"
  "set_clip_for_hand t k h v = write_row 12 (hand_field 0 h) t k v"
  by (simp_all add: get_clip_for_hand_def read_row_def set_clip_for_hand_def write_row_scan hand_field_def add.assoc split: option.split prod.split)

lemma finite_row_keys [simp]: "finite (row_keys w t)"
  by (simp add: row_keys_image)

definition hand_of :: "bool \<Rightarrow> u8" where
  "hand_of left = (if left then 1 else 0)"

lemma hand_fields: "hand_field 0 (hand_of left) = (if left then 8 else 4)"
  by (simp add: hand_field_def hand_of_def)

lemma ammo_fields: "fields_ok 8 {4}" and clip_fields: "fields_ok 12 {4, 8}"
  by (simp_all add: fields_ok_def)

interpretation ammo_table: counter_table "table_ok 8 {4}" key_ok "\<lambda>k. k" "row_keys 8" get_ammo_not_in_clip set_ammo_not_in_clip
  unfolding ammo_rows
proof unfold_locales
  fix t t' k v
  assume a: "table_ok 8 {4} t" "key_ok k"
  show "write_row 8 4 t k v = (t', True) \<Longrightarrow> table_ok 8 {4} t'" using write_row_keeps [OF ammo_fields a] by simp
  show "write_row 8 4 t k v = (t', True) \<Longrightarrow> row_keys 8 t' = insert k (row_keys 8 t)" using write_row_keys [OF ammo_fields a] by simp
  show "k \<in> row_keys 8 t \<or> card (row_keys 8 t) < 15 \<Longrightarrow> snd (write_row 8 4 t k v)" using write_row_accepts [OF a] by blast
  show "key_ok j \<Longrightarrow> i32_ok v \<Longrightarrow> write_row 8 4 t k v = (t', True) \<Longrightarrow> read_row 8 4 t' j = (if j = k then v else read_row 8 4 t j)" for j
    using read_row_write [OF ammo_fields a, of j 4 4 v t'] by simp
qed simp

interpretation clip_table: counter_table "table_ok 12 {4, 8}" "\<lambda>(k, left). key_ok k" fst "row_keys 12"
  "\<lambda>t (k, left). get_clip_for_hand t k (hand_of left)" "\<lambda>t (k, left) v. set_clip_for_hand t k (hand_of left) v"
proof (unfold_locales; (unfold case_prod_unfold clip_rows hand_fields)?)
  fix t t' and k :: "int32 \<times> bool" and v
  assume a: "table_ok 12 {4, 8} t" "key_ok (fst k)"
  let ?f = "\<lambda>left. if left then 8 else (4::nat)"
  have f: "?f b \<in> {4, 8}" for b by simp
  show "write_row 12 (?f (snd k)) t (fst k) v = (t', True) \<Longrightarrow> table_ok 12 {4, 8} t'"
    using write_row_keeps [OF clip_fields a f] by blast
  show "write_row 12 (?f (snd k)) t (fst k) v = (t', True) \<Longrightarrow> row_keys 12 t' = insert (fst k) (row_keys 12 t)"
    using write_row_keys [OF clip_fields a f] by blast
  show "fst k \<in> row_keys 12 t \<or> card (row_keys 12 t) < 15 \<Longrightarrow> snd (write_row 12 (?f (snd k)) t (fst k) v)"
    using write_row_accepts [OF a] by blast
  show "key_ok (fst j) \<Longrightarrow> i32_ok v \<Longrightarrow> write_row 12 (?f (snd k)) t (fst k) v = (t', True) \<Longrightarrow>
    read_row 12 (?f (snd j)) t' (fst j) = (if j = k then v else read_row 12 (?f (snd j)) t (fst j))" for j
    using read_row_write [OF clip_fields a _ f f, of "fst j" v "snd k" t' "snd j"] by (cases "snd j"; cases "snd k") (simp_all add: prod_eq_iff)
qed simp

text \<open>A new player's tables are blank.\<close>

lemma i32_at_blank: "off + 4 \<le> n \<Longrightarrow> i32_at (replicate n 0) off = 0"
proof -
  have "nat_of_le (replicate m 0) = 0" for m by (induction m) simp_all
  then show ?thesis by (simp add: i32_at_def from_le_bytes_def as_i32_def)
qed

lemma blank_table:
  assumes "fields_ok w fs"
  shows "table_ok w fs (replicate (15 * w) 0)" and "row_keys w (replicate (15 * w) 0) = {}"
    and "key_ok k \<Longrightarrow> read_row w f (replicate (15 * w) 0) k = 0"
proof -
  have z: "i32_at (replicate (15 * w) 0) (i * w + f) = 0" if "i < 15" "f + 4 \<le> w" for i f
    using row_fits [of i f w "replicate (15 * w) 0"] that by (simp add: i32_at_blank)
  have k: "i32_at (replicate (15 * w) 0) (i * w) = 0" if "i < 15" for i
    using z [OF that, of 0] assms by (simp add: fields_ok_def)
  show "table_ok w fs (replicate (15 * w) 0)" using assms z k by (auto simp: table_ok_def fields_ok_def)
  show "row_keys w (replicate (15 * w) 0) = {}" using k by (auto simp: row_keys_image)
  show "key_ok k \<Longrightarrow> read_row w f (replicate (15 * w) 0) k = 0"
    using k by (auto simp: read_row_def key_ok_def dest!: row_of_Some split: option.split)
qed

text \<open>Spending from a weapon that has a row is storing the difference, which wraps.\<close>

lemma spend_known:
  assumes "row_of 12 t k = Some i"
  shows "set_clip_for_hand t k hand (wrap32 (get_clip_for_hand t k hand - n)) = (spend_clip_for_hand t k hand n, True)"
  using assms by (simp add: clip_rows write_row_def read_row_def spend_clip_for_hand_def ensure_clip_row_def hand_field_def Let_def add.assoc)

section \<open>Slots\<close>

lemma find_enumerate:
  "List.find (\<lambda>(i, slot). slot = weapon) (List.enumerate 0 weapons) = Some (i, x) \<Longrightarrow> i < length weapons \<and> weapons ! i = weapon"
  by (auto simp: find_Some_iff nth_enumerate_eq)

lemma find_slot_bounds:
  "player_weapons_find_slot weapons weapon < int (length weapons)"
  "0 \<le> player_weapons_find_slot weapons weapon \<Longrightarrow> weapons ! nat (player_weapons_find_slot weapons weapon) = weapon"
  using find_enumerate [of weapon weapons] by (auto simp: player_weapons_find_slot_def split: option.split)

lemma rechamber_roundtrip:
  assumes "length weapons = 15" and "WEAPON_DATA_BYTES \<le> length weapon_data" and "hand \<le> 1"
    and "0 \<le> player_weapons_find_slot weapons (as_i32 weapon)"
  shows "weapon_rechamber_pending weapons (set_weapon_rechamber_pending weapons weapon_data weapon hand pending) weapon hand = pending"
proof -
  have "nat (player_weapons_find_slot weapons (as_i32 weapon)) < 15"
    using find_slot_bounds(1) [of weapons "as_i32 weapon"] assms(1,4) by simp
  then show ?thesis using assms by (simp add: weapon_rechamber_pending_def set_weapon_rechamber_pending_def Let_def)
qed

lemma latched_hands:
  assumes "length weapons = 15" and "WEAPON_DATA_BYTES \<le> length weapon_data" and "weapon \<noteq> 0"
    and "0 \<le> player_weapons_find_slot weapons (as_i32 weapon)"
  shows "num_hands_for_held weapons (latch_weapon_dual_wield weapons weapon_data weapon dual) weapon = (if dual then 1 else 0)"
proof -
  have "player_weapons_find_slot weapons (as_i32 weapon) < 15" "nat (player_weapons_find_slot weapons (as_i32 weapon)) < 15"
    using find_slot_bounds(1) [of weapons "as_i32 weapon"] assms(1,4) by simp_all
  then show ?thesis using assms
    by (simp add: num_hands_for_held_def latch_weapon_dual_wield_def set_weapon_dual_wield_byte_def
      get_weapon_dual_wield_byte_def num_hands_def Let_def)
qed

section \<open>Stored counts\<close>

text \<open>
  C22. The ammunition tables of a player are maps. Counts stored under at most fifteen kinds of
  ammunition into a new player's tables, in any order and any number of times, are all accepted; then
  every kind reads back the count stored last and every other kind reads zero. The magazine table does
  so for each hand of a weapon separately.
\<close>

theorem ammo_tables_are_maps:
  assumes "\<forall>(k, v)\<in>set stocks. key_ok k \<and> i32_ok v" and "card (fst ` set stocks) \<le> 15"
    and "\<forall>((k, left), v)\<in>set clips. key_ok k \<and> i32_ok v" and "card (fst ` fst ` set clips) \<le> 15"
  shows "(\<exists>t. store_all set_ammo_not_in_clip (replicate AMMO_TABLE_BYTES 0) stocks = Some t \<and>
      (\<forall>k. key_ok k \<longrightarrow> get_ammo_not_in_clip t k = (case map_of (rev stocks) k of Some v \<Rightarrow> v | None \<Rightarrow> 0)))
    \<and> (\<exists>t. store_all (\<lambda>t (k, left) v. set_clip_for_hand t k (hand_of left) v) (replicate AMMOCLIP_TABLE_BYTES 0) clips = Some t \<and>
      (\<forall>k left. key_ok k \<longrightarrow> get_clip_for_hand t k (hand_of left) = (case map_of (rev clips) (k, left) of Some v \<Rightarrow> v | None \<Rightarrow> 0)))"
proof (rule conjI)
  note blank = blank_table [OF ammo_fields, simplified] blank_table [OF clip_fields, simplified]
  have a: "\<forall>k\<in>fst ` set stocks. key_ok k" "\<forall>k\<in>fst ` set clips. case k of (k, left) \<Rightarrow> key_ok k"
    and c: "\<forall>(k, v)\<in>set clips. (case k of (k, left) \<Rightarrow> key_ok k) \<and> i32_ok v" using assms(1,3) by auto
  obtain t where t: "store_all set_ammo_not_in_clip (replicate 120 0) stocks = Some t"
    using ammo_table.store_all_accepts [OF blank(1) a(1)] assms(2) blank(2) by auto
  have "get_ammo_not_in_clip t k = (case map_of (rev stocks) k of Some v \<Rightarrow> v | None \<Rightarrow> 0)" if "key_ok k" for k
    using ammo_table.store_all_get [OF blank(1) assms(1) t that] blank(3) [OF that] by (simp add: ammo_rows split: option.split)
  with t show "\<exists>t. store_all set_ammo_not_in_clip (replicate AMMO_TABLE_BYTES 0) stocks = Some t \<and>
      (\<forall>k. key_ok k \<longrightarrow> get_ammo_not_in_clip t k = (case map_of (rev stocks) k of Some v \<Rightarrow> v | None \<Rightarrow> 0))" by auto
  obtain u where u: "store_all (\<lambda>t (k, left) v. set_clip_for_hand t k (hand_of left) v) (replicate 180 0) clips = Some u"
    using clip_table.store_all_accepts [OF blank(4) a(2)] assms(4) blank(5) by auto
  have "get_clip_for_hand u k (hand_of left) = (case map_of (rev clips) (k, left) of Some v \<Rightarrow> v | None \<Rightarrow> 0)"
    if "key_ok k" for k left
    using clip_table.store_all_get [OF blank(4) c u, of "(k, left)"] that blank(6) [OF that] by (simp add: clip_rows split: option.split)
  with u show "\<exists>t. store_all (\<lambda>t (k, left) v. set_clip_for_hand t k (hand_of left) v) (replicate AMMOCLIP_TABLE_BYTES 0) clips = Some t \<and>
      (\<forall>k left. key_ok k \<longrightarrow> get_clip_for_hand t k (hand_of left) = (case map_of (rev clips) (k, left) of Some v \<Rightarrow> v | None \<Rightarrow> 0))" by auto
qed

lemma ammo_tables_are_maps_witness:
  "\<exists>t. store_all (\<lambda>t (k, left) v. set_clip_for_hand t k (hand_of left) v) (replicate AMMOCLIP_TABLE_BYTES 0)
      [((7, False), 30), ((9, False), 12), ((7, True), 29), ((7, False), 0)] = Some t
    \<and> get_clip_for_hand t 7 0 = 0 \<and> get_clip_for_hand t 7 1 = 29 \<and> get_clip_for_hand t 9 0 = 12 \<and> get_clip_for_hand t 9 1 = 0
    \<and> get_clip_for_hand t 8 0 = 0"
proof -
  let ?clips = "[((7, False), 30), ((9, False), 12), ((7, True), 29), ((7, False), 0)] :: ((int32 \<times> bool) \<times> int32) list"
  have "\<exists>t. store_all (\<lambda>t (k, left) v. set_clip_for_hand t k (hand_of left) v) (replicate AMMOCLIP_TABLE_BYTES 0) ?clips = Some t \<and>
      (\<forall>k left. key_ok k \<longrightarrow> get_clip_for_hand t k (hand_of left) = (case map_of (rev ?clips) (k, left) of Some v \<Rightarrow> v | None \<Rightarrow> 0))"
    by (rule conjunct2 [OF ammo_tables_are_maps [of "[(5, 120)]" ?clips]]) (simp_all add: key_ok_def i32_ok_def card_insert_if)
  then obtain t where t: "store_all (\<lambda>t (k, left) v. set_clip_for_hand t k (hand_of left) v) (replicate AMMOCLIP_TABLE_BYTES 0) ?clips = Some t"
    and g: "\<And>k left. key_ok k \<Longrightarrow> get_clip_for_hand t k (hand_of left) = (case map_of (rev ?clips) (k, left) of Some v \<Rightarrow> v | None \<Rightarrow> 0)"
    by blast
  show ?thesis using t g [of 7 False] g [of 7 True] g [of 9 False] g [of 9 True] g [of 8 False]
    by (simp add: key_ok_def i32_ok_def hand_of_def)
qed

end
