(* ===== verification/Weapon_State.thy ===== *)
theory Weapon_State
  imports Weapon_Tables Float32
begin

text \<open>
  The data of the weapon state machine (\<^verbatim>\<open>crates/weapon_iw4/src\<close>): the states of a weapon and the types of
  fire with their integer codes (\<^verbatim>\<open>weaponstate.rs\<close>), the animation word (\<^verbatim>\<open>weap_anim.rs\<close>), and the records
  of a hand, of a command and of what the game files say of a weapon (\<^verbatim>\<open>tick.rs\<close>, \<^verbatim>\<open>offhand.rs\<close>, \<^verbatim>\<open>melee.rs\<close>,
  \<^verbatim>\<open>reload.rs\<close>). An \<open>i32\<close> is an integer and its arithmetic wraps; flags are words. Of the facts of a
  weapon the record has the fields the state machine reads; those only the view, the spread of shots
  and the sounds use are left out.
\<close>

section \<open>States and types of fire\<close>

datatype WeaponState =
    Ready | Raising | RaisingAltswitch | Dropping | DroppingQuick | DroppingAltswitch | Firing | Rechambering
  | Reloading | ReloadingInterrupt | ReloadStart | ReloadStartInterrupt | ReloadEnd
  | MeleeInit | MeleeFire | MeleeEnd
  | OffhandInit | OffhandPrepare | OffhandHold | OffhandStart | Offhand | OffhandEnd
  | Detonating | SprintIn | SprintLoop | SprintOut | StunnedStart | StunnedLoop | StunnedEnd
  | NightVisionWear | NightVisionRemove

datatype WeaponDecodeError = UnknownWeaponState int32 | UnknownFireType int32

definition weapon_states :: "WeaponState list" where
  "weapon_states =
    [Ready, Raising, RaisingAltswitch, Dropping, DroppingQuick, DroppingAltswitch, Firing, Rechambering,
     Reloading, ReloadingInterrupt, ReloadStart, ReloadStartInterrupt, ReloadEnd,
     MeleeInit, MeleeFire, MeleeEnd,
     OffhandInit, OffhandPrepare, OffhandHold, OffhandStart, Offhand, OffhandEnd,
     Detonating, SprintIn, SprintLoop, SprintOut, StunnedStart, StunnedLoop, StunnedEnd,
     NightVisionWear, NightVisionRemove]"

text \<open>\<open>WeaponState as i32\<close> and \<open>WeaponState::from_i32\<close>.\<close>

primrec ws :: "WeaponState \<Rightarrow> int32" where
  "ws Ready = 0" | "ws Raising = 1" | "ws RaisingAltswitch = 2" | "ws Dropping = 3" | "ws DroppingQuick = 4"
| "ws DroppingAltswitch = 5" | "ws Firing = 6" | "ws Rechambering = 7" | "ws Reloading = 8" | "ws ReloadingInterrupt = 9"
| "ws ReloadStart = 10" | "ws ReloadStartInterrupt = 11" | "ws ReloadEnd = 12" | "ws MeleeInit = 13" | "ws MeleeFire = 14"
| "ws MeleeEnd = 15" | "ws OffhandInit = 16" | "ws OffhandPrepare = 17" | "ws OffhandHold = 18" | "ws OffhandStart = 19"
| "ws Offhand = 20" | "ws OffhandEnd = 21" | "ws Detonating = 22" | "ws SprintIn = 23" | "ws SprintLoop = 24"
| "ws SprintOut = 25" | "ws StunnedStart = 26" | "ws StunnedLoop = 27" | "ws StunnedEnd = 28" | "ws NightVisionWear = 29"
| "ws NightVisionRemove = 30"

definition ws_from_i32 :: "int32 \<Rightarrow> WeaponDecodeError + WeaponState" where
  "ws_from_i32 v = (if 0 \<le> v \<and> v < 31 then Inr (weapon_states ! nat v) else Inl (UnknownWeaponState v))"

text \<open>Whether a code is the code of one of some states (\<open>matches!(from_i32(v), Ok(...))\<close>).\<close>

definition is_ws :: "int32 \<Rightarrow> WeaponState set \<Rightarrow> bool" where
  "is_ws v ss \<longleftrightarrow> (case ws_from_i32 v of Inr s \<Rightarrow> s \<in> ss | Inl _ \<Rightarrow> False)"

definition is_raise_or_drop :: "WeaponState \<Rightarrow> bool" where
  "is_raise_or_drop s \<longleftrightarrow> s \<in> {Raising, RaisingAltswitch, Dropping, DroppingQuick, DroppingAltswitch}"

definition is_sprint :: "WeaponState \<Rightarrow> bool" where
  "is_sprint s \<longleftrightarrow> s \<in> {SprintIn, SprintLoop, SprintOut}"

definition is_reload_family :: "WeaponState \<Rightarrow> bool" where
  "is_reload_family s \<longleftrightarrow> s \<in> {Reloading, ReloadingInterrupt, ReloadStart, ReloadStartInterrupt, ReloadEnd}"

definition viewmodel_rocket_should_be_attached :: "int32 \<Rightarrow> int32 \<Rightarrow> int32 \<Rightarrow> int32 \<Rightarrow> int32 \<Rightarrow> bool" where
  "viewmodel_rocket_should_be_attached clip weaponstate weapon_time reload_time_ms reload_show_rocket_time_ms \<longleftrightarrow>
     (if clip > 0 then True
      else (case ws_from_i32 weaponstate of Inr s \<Rightarrow> is_reload_family s | Inl _ \<Rightarrow> False)
        \<and> wrap32 (reload_time_ms - weapon_time) > reload_show_rocket_time_ms)"

datatype FireType = FullAuto | SingleShot | BurstFire2 | BurstFire3 | BurstFire4 | DoubleBarrel

definition ft_from_i32 :: "int32 \<Rightarrow> WeaponDecodeError + FireType" where
  "ft_from_i32 v = (if v = 0 then Inr FullAuto else if v = 1 then Inr SingleShot else if v = 2 then Inr BurstFire2
     else if v = 3 then Inr BurstFire3 else if v = 4 then Inr BurstFire4 else if v = 5 then Inr DoubleBarrel
     else Inl (UnknownFireType v))"

definition is_full_auto :: "FireType \<Rightarrow> bool" where "is_full_auto t \<longleftrightarrow> t = FullAuto"
definition is_single :: "FireType \<Rightarrow> bool" where "is_single t \<longleftrightarrow> t \<in> {SingleShot, DoubleBarrel}"
definition is_burst :: "FireType \<Rightarrow> bool" where "is_burst t \<longleftrightarrow> t \<in> {BurstFire2, BurstFire3, BurstFire4}"

fun burst_limit :: "FireType \<Rightarrow> u8 option" where
  "burst_limit BurstFire2 = Some 2"
| "burst_limit BurstFire3 = Some 3"
| "burst_limit BurstFire4 = Some 4"
| "burst_limit _ = None"

fun shot_limit_reached :: "FireType \<Rightarrow> u8 \<Rightarrow> bool" where
  "shot_limit_reached FullAuto n \<longleftrightarrow> False"
| "shot_limit_reached SingleShot n \<longleftrightarrow> n \<noteq> 0"
| "shot_limit_reached DoubleBarrel n \<longleftrightarrow> n \<noteq> 0"
| "shot_limit_reached BurstFire2 n \<longleftrightarrow> n > 1"
| "shot_limit_reached BurstFire3 n \<longleftrightarrow> n > 2"
| "shot_limit_reached BurstFire4 n \<longleftrightarrow> n > 3"

subsection \<open>Codes\<close>

text \<open>A code is the code of at most one state, and every state has one.\<close>

lemma ws_from_ws [simp]: "ws_from_i32 (ws s) = Inr s"
  by (cases s) (simp_all add: ws_from_i32_def weapon_states_def)

lemma ws_states: "i < 31 \<Longrightarrow> ws (weapon_states ! i) = int i"
proof -
  assume i: "i < 31"
  have len: "length weapon_states = 31" by (simp add: weapon_states_def)
  have "map ws weapon_states = map int [0..<31]" by (simp add: weapon_states_def upt_rec)
  then have "map ws weapon_states ! i = map int [0..<31] ! i" by simp
  with i len show ?thesis by (simp del: upt.simps)
qed

lemma ws_from_Inr [simp]: "ws_from_i32 v = Inr s \<longleftrightarrow> v = ws s"
proof
  assume "ws_from_i32 v = Inr s"
  then have "0 \<le> v" "v < 31" "s = weapon_states ! nat v" by (auto simp: ws_from_i32_def split: if_splits)
  then show "v = ws s" using ws_states [of "nat v"] by simp
qed simp

lemma ws_inject [simp]: "ws s = ws r \<longleftrightarrow> s = r"
proof
  assume "ws s = ws r"
  then have "ws_from_i32 (ws s) = ws_from_i32 (ws r)" by simp
  then show "s = r" by (simp only: ws_from_ws sum.inject)
qed simp

lemma ws_range: "0 \<le> ws s" "ws s < 31"
  by (cases s; simp)+

lemma is_ws_ws [simp]: "is_ws (ws s) ss \<longleftrightarrow> s \<in> ss"
  by (simp add: is_ws_def)

lemma is_ws_iff: "is_ws v ss \<longleftrightarrow> (\<exists>s\<in>ss. v = ws s)"
  by (cases "ws_from_i32 v") (auto simp: is_ws_def)

lemma ws_from_known: "0 \<le> v \<Longrightarrow> v < 31 \<Longrightarrow> \<exists>s. v = ws s"
  using ws_states [of "nat v"] by (intro exI [of _ "weapon_states ! nat v"]) simp

declare ws.simps [simp del]

section \<open>Animation word\<close>

text \<open>The low bits name the animation; the restart bit flips when one starts.\<close>

abbreviation (input) WEAP_ANIM_RESTART_BIT :: u32 where "WEAP_ANIM_RESTART_BIT \<equiv> 0x200"
abbreviation (input) ANIM_IDLE :: u32 where "ANIM_IDLE \<equiv> 0"
abbreviation (input) ANIM_FIRE :: u32 where "ANIM_FIRE \<equiv> 2"
abbreviation (input) ANIM_LASTSHOT :: u32 where "ANIM_LASTSHOT \<equiv> 3"
abbreviation (input) ANIM_RECHAMBER :: u32 where "ANIM_RECHAMBER \<equiv> 4"
abbreviation (input) ANIM_ADS_FIRE :: u32 where "ANIM_ADS_FIRE \<equiv> 5"
abbreviation (input) ANIM_ADS_LASTSHOT :: u32 where "ANIM_ADS_LASTSHOT \<equiv> 6"
abbreviation (input) ANIM_ADS_RECHAMBER :: u32 where "ANIM_ADS_RECHAMBER \<equiv> 7"
abbreviation (input) ANIM_MELEE :: u32 where "ANIM_MELEE \<equiv> 8"
abbreviation (input) ANIM_MELEE_CHARGE :: u32 where "ANIM_MELEE_CHARGE \<equiv> 9"
abbreviation (input) ANIM_DROP :: u32 where "ANIM_DROP \<equiv> 0xa"
abbreviation (input) ANIM_RAISE :: u32 where "ANIM_RAISE \<equiv> 0xb"
abbreviation (input) ANIM_FIRST_RAISE :: u32 where "ANIM_FIRST_RAISE \<equiv> 0xc"
abbreviation (input) ANIM_RELOAD :: u32 where "ANIM_RELOAD \<equiv> 0xd"
abbreviation (input) ANIM_RELOAD_EMPTY :: u32 where "ANIM_RELOAD_EMPTY \<equiv> 0xe"
abbreviation (input) ANIM_RELOAD_START :: u32 where "ANIM_RELOAD_START \<equiv> 0xf"
abbreviation (input) ANIM_RELOAD_END :: u32 where "ANIM_RELOAD_END \<equiv> 0x10"
abbreviation (input) ANIM_QUICK_DROP :: u32 where "ANIM_QUICK_DROP \<equiv> 0x13"
abbreviation (input) ANIM_QUICK_RAISE :: u32 where "ANIM_QUICK_RAISE \<equiv> 0x14"
abbreviation (input) ANIM_SPRINT_IN :: u32 where "ANIM_SPRINT_IN \<equiv> 0x17"
abbreviation (input) ANIM_SPRINT_LOOP :: u32 where "ANIM_SPRINT_LOOP \<equiv> 0x18"
abbreviation (input) ANIM_SPRINT_OUT :: u32 where "ANIM_SPRINT_OUT \<equiv> 0x19"
abbreviation (input) ANIM_HOLD_FIRE :: u32 where "ANIM_HOLD_FIRE \<equiv> 0x1d"
abbreviation (input) ANIM_DETONATE :: u32 where "ANIM_DETONATE \<equiv> 0x1e"
abbreviation (input) ANIM_RELOAD_QUICK :: u32 where "ANIM_RELOAD_QUICK \<equiv> 0x21"
abbreviation (input) ANIM_RELOAD_QUICK_EMPTY :: u32 where "ANIM_RELOAD_QUICK_EMPTY \<equiv> 0x22"

definition start_weapon_anim :: "int32 \<Rightarrow> u32 \<Rightarrow> int32" where
  "start_weapon_anim weap_anim event = as_i32 ((NOT (as_u32 weap_anim) AND WEAP_ANIM_RESTART_BIT) OR event)"

definition set_weap_anim :: "int32 \<Rightarrow> int32 \<Rightarrow> int32 \<Rightarrow> u32 \<Rightarrow> int32 \<times> int32" where
  "set_weap_anim weap_anim weap_anim_secondary last_weapon_hand event =
     (start_weapon_anim weap_anim event,
      if last_weapon_hand = 1 then start_weapon_anim weap_anim_secondary event else 0)"

definition weapon_idle_weap_anim :: "int32 \<Rightarrow> int32 \<Rightarrow> int32" where
  "weapon_idle_weap_anim weap_anim pm_type = (if pm_type < 8 then start_weapon_anim weap_anim ANIM_IDLE else weap_anim)"

definition continue_weapon_anim :: "int32 \<Rightarrow> u32 \<Rightarrow> int32 \<Rightarrow> int32 \<times> bool" where
  "continue_weapon_anim weap_anim event pm_type =
     (if pm_type \<ge> 8 then (weap_anim, False)
      else if as_u32 weap_anim AND NOT WEAP_ANIM_RESTART_BIT = event then (weap_anim, False)
      else (start_weapon_anim weap_anim event, True))"

definition set_fps_fire_anim :: "int32 \<Rightarrow> bool \<Rightarrow> bool \<Rightarrow> int32" where
  "set_fps_fire_anim weap_anim ads last_shot = start_weapon_anim weap_anim
     (if ads then if last_shot then ANIM_ADS_LASTSHOT else ANIM_ADS_FIRE
      else if last_shot then ANIM_LASTSHOT else ANIM_FIRE)"

definition set_rechamber_anim :: "int32 \<Rightarrow> bool \<Rightarrow> int32" where
  "set_rechamber_anim weap_anim ads = start_weapon_anim weap_anim (if ads then ANIM_ADS_RECHAMBER else ANIM_RECHAMBER)"

section \<open>Weapons\<close>

abbreviation (input) WEAPTYPE_BULLET :: int32 where "WEAPTYPE_BULLET \<equiv> 0"
abbreviation (input) WEAPTYPE_GRENADE :: int32 where "WEAPTYPE_GRENADE \<equiv> 1"
abbreviation (input) WEAPTYPE_PROJECTILE :: int32 where "WEAPTYPE_PROJECTILE \<equiv> 2"
abbreviation (input) WEAPTYPE_SHIELD :: int32 where "WEAPTYPE_SHIELD \<equiv> 3"
abbreviation (input) WEAPTYPE_GAS :: int32 where "WEAPTYPE_GAS \<equiv> 4"
abbreviation (input) WEAPCLASS_SPREAD :: int32 where "WEAPCLASS_SPREAD \<equiv> 4"
abbreviation (input) WEAPCLASS_GRENADE :: int32 where "WEAPCLASS_GRENADE \<equiv> 6"

datatype FireWeaponKind = Bullet | ThrownGrenade | GrenadeLauncher | Missile | Flame

definition fire_weapon_kind :: "int32 \<Rightarrow> int32 \<Rightarrow> FireWeaponKind option" where
  "fire_weapon_kind weap_type weap_class =
     (if weap_type = WEAPTYPE_BULLET then Some Bullet
      else if weap_type = WEAPTYPE_GRENADE then Some ThrownGrenade
      else if weap_type = WEAPTYPE_PROJECTILE then (if weap_class = WEAPCLASS_GRENADE then Some GrenadeLauncher else Some Missile)
      else if weap_type = WEAPTYPE_GAS then Some Flame
      else None)"

datatype EmptyReloadPolicy = Ordinary | Authored

record DualMagTimes =
  dm_reload_ms :: int32
  dm_reload_empty_ms :: int32
  dm_add_ms :: int32
  dm_empty_add_ms :: int32

record WeaponCombatFacts =
  wf_fire_melees :: bool
  wf_fire_time_ms :: int32
  wf_fire_delay_ms :: int32
  wf_raise_time_ms :: int32
  wf_drop_time_ms :: int32
  wf_alternate_drop_time_ms :: int32
  wf_first_raise_time_ms :: int32
  wf_reload_time_ms :: int32
  wf_reload_empty_time_ms :: int32
  wf_empty_reload :: EmptyReloadPolicy
  wf_clip_size :: int32
  wf_start_ammo :: int32
  wf_fire_type :: int32
  wf_weap_type :: int32
  wf_weap_class :: int32
  wf_shots_per_fire :: int32
  wf_burst_cooldown_ms :: int32
  wf_bolt_action :: bool
  wf_rechamber_time_ms :: int32
  wf_rechamber_bolt_time_ms :: int32
  wf_rechamber_bolt_delay_ms :: int32
  wf_segmented_reload :: bool
  wf_reload_start_time_ms :: int32
  wf_reload_end_time_ms :: int32
  wf_reload_ammo_add :: int32
  wf_reload_add_time_ms :: int32
  wf_reload_empty_add_time_ms :: int32
  wf_reload_start_add_time_ms :: int32
  wf_reload_start_add :: int32
  wf_no_partial_reload :: bool
  wf_inherits_perks :: bool
  wf_sprint_raise_time_ms :: int32
  wf_sprint_drop_time_ms :: int32
  wf_stunned_start_time_ms :: int32
  wf_stunned_end_time_ms :: int32
  wf_damage :: int32
  wf_max_damage_range :: f32
  wf_min_damage_range :: f32
  wf_ads_in_rate :: f32
  wf_ads_fire_only :: bool
  wf_melee_damage :: int32
  wf_overlay_reticle :: int32
  wf_melee_time_ms :: int32
  wf_melee_delay_ms :: int32
  wf_melee_charge_time_ms :: int32
  wf_melee_charge_delay_ms :: int32
  wf_melee_charge_anim :: bool
  wf_knife_model :: u32
  wf_quick_raise_time_ms :: int32
  wf_quick_drop_time_ms :: int32
  wf_ads_gun_kick_reduced_kick_bullets :: int32
  wf_hip_gun_kick_reduced_kick_bullets :: int32
  wf_location_damage :: "f32 list"
  wf_dual_mag :: "DualMagTimes option"

definition uses_empty_reload :: "WeaponCombatFacts \<Rightarrow> bool \<Rightarrow> bool" where
  "uses_empty_reload facts clip_empty \<longleftrightarrow>
     clip_empty \<and> wf_empty_reload facts = Authored \<and> wf_reload_empty_time_ms facts > 0"

definition reload_duration_ms :: "WeaponCombatFacts \<Rightarrow> bool \<Rightarrow> int32" where
  "reload_duration_ms facts clip_empty =
     (if uses_empty_reload facts clip_empty then wf_reload_empty_time_ms facts else wf_reload_time_ms facts)"

definition ammo_per_shot :: "WeaponCombatFacts \<Rightarrow> int32" where
  "ammo_per_shot facts = 1"

definition pellet_count :: "WeaponCombatFacts \<Rightarrow> int32" where
  "pellet_count facts = (if wf_weap_class facts = WEAPCLASS_SPREAD
     then (if wf_shots_per_fire facts \<le> 0 then 1 else wf_shots_per_fire facts) else 1)"

subsection \<open>Admission of captured facts\<close>

datatype MissingCombatFacts = BurstCooldown | SegmentedReloadAmmoAdd | BulletRange | MissingFireType | LocationDamage

definition location_damage_is_valid :: "f32 list \<Rightarrow> bool" where
  "location_damage_is_valid table \<longleftrightarrow> list_all (\<lambda>v. is_finite v \<and> f32_le F32_ZERO v) table"

text \<open>\<open>WeaponCombatFacts::none\<close>.\<close>

definition no_facts :: WeaponCombatFacts where
  "no_facts = \<lparr>wf_fire_melees = False, wf_fire_time_ms = 0, wf_fire_delay_ms = 0, wf_raise_time_ms = 0, wf_drop_time_ms = 0,
     wf_alternate_drop_time_ms = 0, wf_first_raise_time_ms = 0, wf_reload_time_ms = 0, wf_reload_empty_time_ms = 0,
     wf_empty_reload = Authored, wf_clip_size = 0, wf_start_ammo = 0, wf_fire_type = 0, wf_weap_type = 0, wf_weap_class = 0,
     wf_shots_per_fire = 0, wf_burst_cooldown_ms = 0, wf_bolt_action = False, wf_rechamber_time_ms = 0,
     wf_rechamber_bolt_time_ms = 0, wf_rechamber_bolt_delay_ms = 0, wf_segmented_reload = False, wf_reload_start_time_ms = 0,
     wf_reload_end_time_ms = 0, wf_reload_ammo_add = 0, wf_reload_add_time_ms = 0, wf_reload_empty_add_time_ms = 0,
     wf_reload_start_add_time_ms = 0, wf_reload_start_add = 0, wf_no_partial_reload = False, wf_inherits_perks = False,
     wf_sprint_raise_time_ms = 0, wf_sprint_drop_time_ms = 0, wf_stunned_start_time_ms = 0, wf_stunned_end_time_ms = 0,
     wf_damage = 0, wf_max_damage_range = F32_ZERO, wf_min_damage_range = F32_ZERO, wf_ads_in_rate = F32_ZERO,
     wf_ads_fire_only = False, wf_melee_damage = 0, wf_overlay_reticle = 0, wf_melee_time_ms = 0, wf_melee_delay_ms = 0,
     wf_melee_charge_time_ms = 0, wf_melee_charge_delay_ms = 0, wf_melee_charge_anim = False, wf_knife_model = 0,
     wf_quick_raise_time_ms = 0, wf_quick_drop_time_ms = 0, wf_ads_gun_kick_reduced_kick_bullets = 0,
     wf_hip_gun_kick_reduced_kick_bullets = 0, wf_location_damage = replicate 20 F32_ONE, wf_dual_mag = None\<rparr>"

text \<open>
  \<open>CapturedCombatInput\<close> has the fields of \<open>WeaponCombatFacts\<close>; what is admitted is copied field by
  field.
\<close>

definition facts_is_none :: "WeaponCombatFacts \<Rightarrow> bool" where
  "facts_is_none facts \<longleftrightarrow> wf_fire_time_ms facts \<le> 0 \<and> wf_raise_time_ms facts \<le> 0 \<and> wf_damage facts \<le> 0 \<and> wf_clip_size facts \<le> 0"

definition try_from_captured :: "WeaponCombatFacts \<Rightarrow> MissingCombatFacts + WeaponCombatFacts" where
  "try_from_captured input =
     (if facts_is_none input then Inr no_facts
      else case ft_from_i32 (wf_fire_type input) of
        Inl _ \<Rightarrow> Inl MissingFireType
      | Inr fire_ty \<Rightarrow>
          if is_burst fire_ty \<and> wf_burst_cooldown_ms input \<le> 0 then Inl BurstCooldown
          else if wf_segmented_reload input \<and> wf_reload_ammo_add input \<le> 0 then Inl SegmentedReloadAmmoAdd
          else if wf_damage input > 0 \<and> f32_le (wf_max_damage_range input) F32_ZERO \<and> f32_le (wf_min_damage_range input) F32_ZERO
          then Inl BulletRange
          else if \<not> location_damage_is_valid (wf_location_damage input) then Inl LocationDamage
          else Inr input)"

section \<open>Hands and commands\<close>

record WeaponHandState =
  wh_weapon :: u32
  wh_weaponstate :: int32
  wh_weapon_time :: int32
  wh_weapon_delay :: int32
  wh_weap_anim :: int32
  wh_hand_index :: u8
  wh_clip :: int32
  wh_stock :: int32
  wh_shot_count :: u8
  wh_burst_latch :: bool
  wh_rechamber_pending :: bool
  wh_delayed_rechamber :: bool
  wh_weapon_restrict_kick_time :: int32
  wh_quick_reload :: bool

record OffhandInvRow =
  ir_weapon :: u32
  ir_offhand_class :: int32
  ir_ammo :: int32
  ir_hold_fire_time_ms :: int32
  ir_fire_time_ms :: int32
  ir_fire_delay_ms :: int32
  ir_fuse_time_ms :: int32
  ir_cook_off_hold :: bool
  ir_offhand_hold_is_cancelable :: "bool option"
  ir_weap_type :: int32
  ir_has_detonator :: bool
  ir_detonate_delay_ms :: int32
  ir_detonate_time_ms :: int32

record OffhandCmd =
  oc_inventory :: "OffhandInvRow list"
  oc_offhand_primary :: int32
  oc_offhand_secondary :: int32
  oc_cmd_off_hand_index :: u16
  oc_cmd_off_hand_owned :: bool
  oc_cursor_hint_ent :: int32
  oc_held_quick_drop_time_ms :: int32
  oc_off_hand_index :: int32
  oc_grenade_time_left :: int32

record MeleeChargeState =
  mc_pm_flags :: u32
  mc_pm_type :: int32
  mc_e_flags :: u32
  mc_melee_charge_yaw :: f32
  mc_melee_charge_dist :: int32
  mc_melee_charge_time :: int32

record MeleeWeaponFacts =
  mf_melee_damage :: int32
  mf_overlay_reticle :: int32
  mf_melee_time_ms :: int32
  mf_melee_delay_ms :: int32
  mf_melee_charge_time_ms :: int32
  mf_melee_charge_delay_ms :: int32
  mf_melee_charge_anim :: bool
  mf_knife_model :: u32
  mf_quick_raise_time_ms :: int32

definition melee_facts :: "WeaponCombatFacts \<Rightarrow> MeleeWeaponFacts" where
  "melee_facts facts = \<lparr>mf_melee_damage = wf_melee_damage facts, mf_overlay_reticle = wf_overlay_reticle facts,
     mf_melee_time_ms = wf_melee_time_ms facts, mf_melee_delay_ms = wf_melee_delay_ms facts,
     mf_melee_charge_time_ms = wf_melee_charge_time_ms facts, mf_melee_charge_delay_ms = wf_melee_charge_delay_ms facts,
     mf_melee_charge_anim = wf_melee_charge_anim facts, mf_knife_model = wf_knife_model facts,
     mf_quick_raise_time_ms = wf_quick_raise_time_ms facts\<rparr>"

record WeaponCmd =
  wc_msec :: int32
  wc_server_time :: int32
  wc_stun_time :: int32
  wc_buttons :: u32
  wc_old_buttons :: u32
  wc_cmd_weapon :: u16
  wc_pm_flags :: u32
  wc_weap_flags :: u32
  wc_pm_type :: int32
  wc_e_flags :: u32
  wc_last_weapon_hand :: int32
  wc_f_weapon_pos_frac :: f32
  wc_melee_charge_yaw :: f32
  wc_melee_charge_dist :: u8
  wc_player_melee_range :: f32
  wc_is_in_air :: bool
  wc_melee_charge :: MeleeChargeState
  wc_melee_started :: "bool option"
  wc_mantle_weapon_inactive :: bool
  wc_mantle_quick_raise :: bool
  wc_cmd_weapon_owned :: bool
  wc_cmd_weapon_pistol_quick :: bool
  wc_switch_raise_time_ms :: int32
  wc_switch_alternate_raise_time_ms :: int32
  wc_alternate_switch :: bool
  wc_switch_quick_raise_time_ms :: int32
  wc_switch_first_raise_time_ms :: int32
  wc_offhand :: OffhandCmd
  wc_perks0 :: u32
  wc_perks1 :: u32
  wc_perk_weap_reload_multiplier :: f32

datatype WeaponTickEvent =
    StunnedStarted | Detonated u32 | ShotAccepted int32 | EmptyClick | ReloadStarted | ReloadInsert | ReloadEnded
  | ReloadAmmoAdded int32 | RechamberWeapon | EjectBrass | RaiseFinished | DropFinished | PutawayStarted
  | AlternateStarted | RaiseStarted | OffhandUsed u32 "int32 option" | OffhandCookedOff u32 | OffhandPreparing u32 | MeleeFired

subsection \<open>Buttons and flags\<close>

abbreviation (input) BUTTON_ATTACK :: u32 where "BUTTON_ATTACK \<equiv> 0x1"
abbreviation (input) BUTTON_MELEE :: u32 where "BUTTON_MELEE \<equiv> 0x4"
abbreviation (input) BUTTON_RELOAD :: u32 where "BUTTON_RELOAD \<equiv> 0x10"
abbreviation (input) BUTTON_FRAG :: u32 where "BUTTON_FRAG \<equiv> 0x4000"
abbreviation (input) BUTTON_SMOKE :: u32 where "BUTTON_SMOKE \<equiv> 0x8000"
abbreviation (input) BUTTON_THROW :: u32 where "BUTTON_THROW \<equiv> 0x80000"
abbreviation (input) OFFHAND_HOLD_CANCEL :: u32 where "OFFHAND_HOLD_CANCEL \<equiv> 0x200000"
abbreviation (input) PMF_LADDER :: u32 where "PMF_LADDER \<equiv> 0x8"
abbreviation (input) PMF_PRONEMOVE_OVERRIDDEN :: u32 where "PMF_PRONEMOVE_OVERRIDDEN \<equiv> 0x200"
abbreviation (input) PMF_SPRINTING :: u32 where "PMF_SPRINTING \<equiv> 0x4000"
abbreviation (input) PMF_MELEE_CHARGE :: u32 where "PMF_MELEE_CHARGE \<equiv> 0x10000"
abbreviation (input) PMF_CHANGE_BLOCK :: u32 where "PMF_CHANGE_BLOCK \<equiv> 0xc00"
abbreviation (input) OFFHAND_VIEW :: u32 where "OFFHAND_VIEW \<equiv> 0x2"
abbreviation (input) PERK_FASTRELOAD :: u32 where "PERK_FASTRELOAD \<equiv> 4"
abbreviation (input) PERK_QUICKDRAW :: u32 where "PERK_QUICKDRAW \<equiv> 0x4000000"
abbreviation (input) PERK_QUICKDRAW_SPEED_SCALE :: f32 where "PERK_QUICKDRAW_SPEED_SCALE \<equiv> 0x3fc00000"
abbreviation (input) PERK1_FASTSPRINTRECOVERY :: u32 where "PERK1_FASTSPRINTRECOVERY \<equiv> 4"
abbreviation (input) SPRINT_RECOVERY_MULTIPLIER :: f32 where "SPRINT_RECOVERY_MULTIPLIER \<equiv> 0x3f19999a"
abbreviation (input) CURSOR_HINT_NONE :: int32 where "CURSOR_HINT_NONE \<equiv> 0x7ff"
abbreviation (input) CHECK_FIRING_AMMO_DRY_FIRE_MS :: int32 where "CHECK_FIRING_AMMO_DRY_FIRE_MS \<equiv> 500"

subsection \<open>Steps of a hand\<close>

text \<open>
  Most steps change the state, the timers and the animation of a hand and leave everything else; the
  ones below are written out once.
\<close>

definition idle_ready :: "WeaponHandState \<Rightarrow> int32 \<Rightarrow> WeaponHandState" where
  "idle_ready hand pm_type = hand\<lparr>wh_weaponstate := ws Ready, wh_weap_anim := weapon_idle_weap_anim (wh_weap_anim hand) pm_type\<rparr>"

definition anim :: "u32 \<Rightarrow> WeaponHandState \<Rightarrow> WeaponHandState" where
  "anim event hand = hand\<lparr>wh_weap_anim := start_weapon_anim (wh_weap_anim hand) event\<rparr>"

definition anim_if :: "bool \<Rightarrow> u32 \<Rightarrow> WeaponHandState \<Rightarrow> WeaponHandState" where
  "anim_if b event hand = (if b then anim event hand else hand)"

definition anim_continue :: "u32 \<Rightarrow> int32 \<Rightarrow> WeaponHandState \<Rightarrow> WeaponHandState" where
  "anim_continue event pm_type hand = hand\<lparr>wh_weap_anim := fst (continue_weapon_anim (wh_weap_anim hand) event pm_type)\<rparr>"

text \<open>\<open>(t - msec).max(0)\<close>.\<close>

definition decay :: "int32 \<Rightarrow> int32 \<Rightarrow> int32" where
  "decay t msec = max (wrap32 (t - msec)) 0"

end
