(* ===== verification/Weapon_Reload.thy ===== *)
theory Weapon_Reload
  imports Weapon_State
begin

text \<open>
  Reloading (\<^verbatim>\<open>crates/weapon_iw4/src/reload.rs\<close> and the reload steps of \<^verbatim>\<open>tick.rs\<close>). A reload moves rounds
  from a player's stock into the magazine when its add delay runs out; a segmented reload repeats this
  in a loop until the magazine is full or the player fires. The lemmas say what each step does to the
  rounds a hand has.
\<close>

section \<open>Conditions and times\<close>

definition in_offhand_family :: "int32 \<Rightarrow> bool" where
  "in_offhand_family weaponstate \<longleftrightarrow> 0x10 \<le> weaponstate \<and> weaponstate \<le> 0x15"

definition quick_reload_times :: "WeaponHandState \<Rightarrow> WeaponCombatFacts \<Rightarrow> DualMagTimes option" where
  "quick_reload_times hand facts = (if wh_quick_reload hand then wf_dual_mag facts else None)"

definition reload_segment :: "WeaponHandState \<Rightarrow> WeaponCombatFacts \<Rightarrow> bool \<Rightarrow> int32 \<times> u32" where
  "reload_segment hand facts clip_empty = (let (ms, anim) = (case quick_reload_times hand facts of
       Some q \<Rightarrow> if clip_empty then (dm_reload_empty_ms q, ANIM_RELOAD_QUICK_EMPTY) else (dm_reload_ms q, ANIM_RELOAD_QUICK)
     | None \<Rightarrow> if clip_empty \<and> uses_empty_reload facts True then (reload_duration_ms facts True, ANIM_RELOAD_EMPTY)
               else (reload_duration_ms facts False, ANIM_RELOAD))
     in (max ms 1, anim))"

definition weapon_allow_reload :: "WeaponHandState \<Rightarrow> WeaponCombatFacts \<Rightarrow> bool" where
  "weapon_allow_reload hand facts =
     (if wh_stock hand \<le> 0 \<or> wh_clip hand \<ge> wf_clip_size facts then False
      else if \<not> wf_no_partial_reload facts then True
      else let add = wf_reload_ammo_add facts in
        if add \<noteq> 0 \<and> add < wf_clip_size facts then wrap32 (wf_clip_size facts - wh_clip hand) \<ge> add
        else wh_clip hand = 0)"

definition weapon_process_input_wants_reload :: "WeaponHandState \<Rightarrow> WeaponCombatFacts \<Rightarrow> bool \<Rightarrow> u32 \<Rightarrow> bool" where
  "weapon_process_input_wants_reload hand facts reload_requested pm_flags =
     (let s = wh_weaponstate hand in
      if pm_flags AND 0x80000 \<noteq> 0 then False
      else if in_offhand_family s \<or> s \<in> {0xd, 0xe, 0xf} then False
      else if (case ws_from_i32 s of Inr r \<Rightarrow> is_raise_or_drop r | Inl _ \<Rightarrow> False) then False
      else if is_ws s {Reloading, ReloadingInterrupt, ReloadStart, ReloadStartInterrupt, ReloadEnd} then False
      else let button = reload_requested \<and> weapon_allow_reload hand facts;
               empty_auto = wh_clip hand \<le> 0 \<and> wh_stock hand > 0 \<and> s \<noteq> ws Firing \<and> \<not> (case ws_from_i32 s of Inr r \<Rightarrow> is_sprint r | Inl _ \<Rightarrow> False)
           in button \<or> empty_auto)"

definition reload_weaponstate_may_credit :: "int32 \<Rightarrow> bool" where
  "reload_weaponstate_may_credit weaponstate \<longleftrightarrow>
     is_ws weaponstate {Reloading, ReloadingInterrupt, ReloadStart, ReloadStartInterrupt}"

definition reload_add_delay :: "WeaponHandState \<Rightarrow> WeaponCombatFacts \<Rightarrow> int32 \<Rightarrow> int32" where
  "reload_add_delay hand facts full_ms =
     (if is_ws (wh_weaponstate hand) {ReloadStart, ReloadStartInterrupt} then
        (let add = wf_reload_start_add_time_ms facts in
         if add \<le> 0 then 0 else if full_ms > 0 \<and> add \<ge> full_ms then full_ms else add)
      else if is_ws (wh_weaponstate hand) {Reloading, ReloadingInterrupt} then
        (let clip_empty = (wh_clip hand \<le> 0 \<and> wf_weap_type facts = 0);
             quick = quick_reload_times hand facts;
             ordinary = (case quick of Some q \<Rightarrow> dm_add_ms q | None \<Rightarrow> wf_reload_add_time_ms facts);
             by_empty = (if uses_empty_reload facts clip_empty \<and> wf_reload_empty_add_time_ms facts > 0
                         then wf_reload_empty_add_time_ms facts else ordinary);
             add = (case quick of Some q \<Rightarrow> if clip_empty \<and> dm_empty_add_ms q > 0 then dm_empty_add_ms q else by_empty
                    | None \<Rightarrow> by_empty);
             full_ms = (if quick \<noteq> None then reload_duration_ms facts clip_empty else full_ms)
         in if add > 0 \<and> full_ms > 0 \<and> add < full_ms then add else if full_ms > 0 then full_ms else 0)
      else 0)"

definition weapon_arm_reload_add_delay :: "WeaponHandState \<Rightarrow> WeaponCombatFacts \<Rightarrow> int32 \<Rightarrow> WeaponHandState" where
  "weapon_arm_reload_add_delay hand facts full_ms =
     (let delay = reload_add_delay hand facts full_ms in
      if wf_bolt_action facts \<and> wh_rechamber_pending hand \<and> wh_weapon hand \<noteq> 0 then
        (let delay = (if delay = 0 then wh_weapon_time hand else delay);
             delay = (if wf_rechamber_bolt_delay_ms facts < delay then wf_rechamber_bolt_delay_ms facts else delay);
             delay = (if delay = 0 then 1 else delay)
         in hand\<lparr>wh_weapon_delay := delay\<rparr>)
      else if delay > 0 then hand\<lparr>wh_weapon_delay := delay\<rparr> else hand)"

section \<open>Moving rounds\<close>

definition reload_clip :: "WeaponHandState \<Rightarrow> WeaponCombatFacts \<Rightarrow> WeaponHandState \<times> int32" where
  "reload_clip hand facts =
     (if wf_clip_size facts \<le> 0 \<or> wh_stock hand \<le> 0 then (hand, 0)
      else let room = max (wrap32 (wf_clip_size facts - wh_clip hand)) 0 in
      if room \<le> 0 then (hand, 0)
      else let take = min room (wh_stock hand);
               credit = (\<lambda>take. if take \<le> 0 then (hand, 0) else
                 (hand\<lparr>wh_clip := wrap32 (wh_clip hand + take), wh_stock := wrap32 (wh_stock hand - take)\<rparr>, take))
      in if is_ws (wh_weaponstate hand) {ReloadStart, ReloadStartInterrupt} then
           (let start_add = wf_reload_start_add facts in
            if start_add = 0 then (hand, 0)
            else credit (if start_add < wf_clip_size facts \<and> take > start_add then start_add else take))
         else if is_ws (wh_weaponstate hand) {Reloading, ReloadingInterrupt} then
           (let add = wf_reload_ammo_add facts in
            credit (if add \<noteq> 0 \<and> add < wf_clip_size facts \<and> take > add then add else take))
         else (hand, 0))"

record ReloadDelayedOutcome =
  ro_shells :: int32
  ro_rechamber_event :: bool

definition bolt_reload_segment_ms :: "WeaponHandState \<Rightarrow> WeaponCombatFacts \<Rightarrow> bool \<Rightarrow> int32" where
  "bolt_reload_segment_ms hand facts start =
     (if start then (let add = wf_reload_start_add_time_ms facts; start_t = wf_reload_start_time_ms facts in
        if start_t \<le> add then start_t else add)
      else let clip_empty = (wh_clip hand \<le> 0 \<and> wf_weap_type facts = 0);
               reload_time = reload_duration_ms facts clip_empty;
               add = (if uses_empty_reload facts clip_empty \<and> wf_reload_empty_add_time_ms facts > 0
                      then wf_reload_empty_add_time_ms facts else wf_reload_add_time_ms facts)
           in if add \<noteq> 0 \<and> add < reload_time then add else reload_time)"

definition bolt_reload_delayed_action :: "WeaponHandState \<Rightarrow> WeaponCombatFacts \<Rightarrow> WeaponHandState \<times> ReloadDelayedOutcome" where
  "bolt_reload_delayed_action hand0 facts =
     (let hand = hand0\<lparr>wh_rechamber_pending := False\<rparr>;
          start = is_ws (wh_weaponstate hand) {ReloadStart, ReloadStartInterrupt};
          credit = (case reload_clip hand facts of (h, n) \<Rightarrow> (h, \<lparr>ro_shells = n, ro_rechamber_event = True\<rparr>))
      in if start \<and> wf_reload_start_add_time_ms facts = 0 then (hand, \<lparr>ro_shells = 0, ro_rechamber_event = True\<rparr>)
         else if wh_weapon_time hand = 0 then credit
         else let reload_time = bolt_reload_segment_ms hand facts start;
                  bolt = (if reload_time \<le> wf_rechamber_bolt_delay_ms facts then 1 else wf_rechamber_bolt_delay_ms facts);
                  remain = wrap32 (reload_time - bolt)
              in if remain > 0 then (hand\<lparr>wh_weapon_delay := remain\<rparr>, \<lparr>ro_shells = 0, ro_rechamber_event = True\<rparr>)
                 else credit)"

definition weapon_reload_delayed_action :: "WeaponHandState \<Rightarrow> WeaponCombatFacts \<Rightarrow> bool \<Rightarrow> WeaponHandState \<times> ReloadDelayedOutcome" where
  "weapon_reload_delayed_action hand facts delayed_action =
     (if \<not> delayed_action \<or> \<not> reload_weaponstate_may_credit (wh_weaponstate hand)
      then (hand, \<lparr>ro_shells = 0, ro_rechamber_event = False\<rparr>)
      else if wf_bolt_action facts \<and> wh_rechamber_pending hand \<and> wh_weapon hand \<noteq> 0
      then bolt_reload_delayed_action hand facts
      else case reload_clip hand facts of (h, shells) \<Rightarrow>
        (if wf_dual_mag facts \<noteq> None then h\<lparr>wh_quick_reload := \<not> wh_quick_reload h\<rparr> else h,
         \<lparr>ro_shells = shells, ro_rechamber_event = False\<rparr>))"

section \<open>Steps of a reload\<close>

definition reload_from_empty_clip :: "WeaponHandState \<Rightarrow> WeaponCombatFacts \<Rightarrow> bool" where
  "reload_from_empty_clip hand facts \<longleftrightarrow> wh_clip hand \<le> 0 \<and> wf_weap_type facts = 0"

definition begin_weapon_reload :: "WeaponHandState \<Rightarrow> WeaponCombatFacts \<Rightarrow> WeaponHandState \<times> bool" where
  "begin_weapon_reload hand facts =
     (let s = wh_weaponstate hand in
      if \<not> (s = 0 \<or> s = 6 \<or> s = 7 \<or> (0x16 < s \<and> s < 0x1a)) then (hand, False)
      else let hand = hand\<lparr>wh_shot_count := 0, wh_burst_latch := False, wh_weapon_delay := 0\<rparr> in
        if wf_segmented_reload facts then
          (let start = max (if wf_reload_start_time_ms facts > 0 then wf_reload_start_time_ms facts
                            else reload_duration_ms facts True) 1
           in (weapon_arm_reload_add_delay
                 (anim ANIM_RELOAD_START (hand\<lparr>wh_weaponstate := ws ReloadStart, wh_weapon_time := start\<rparr>)) facts start, True))
        else case reload_segment hand facts (reload_from_empty_clip hand facts) of (full, an) \<Rightarrow>
          (weapon_arm_reload_add_delay
             (anim an (hand\<lparr>wh_weaponstate := ws Reloading, wh_weapon_time := full\<rparr>)) facts full, True))"

definition begin_reload_loop :: "WeaponHandState \<Rightarrow> WeaponCombatFacts \<Rightarrow> int32 \<Rightarrow> WeaponHandState \<times> WeaponTickEvent option" where
  "begin_reload_loop hand facts pm_type =
     (case reload_segment hand facts (reload_from_empty_clip hand facts) of (full, an) \<Rightarrow>
        let hand = anim_if (pm_type < 8) an hand;
            state = (if wh_weaponstate hand = ws ReloadStartInterrupt then ws ReloadingInterrupt else ws Reloading)
        in (weapon_arm_reload_add_delay
              (hand\<lparr>wh_weaponstate := state, wh_weapon_time := full, wh_weapon_delay := 0\<rparr>) facts full, Some ReloadInsert))"

definition begin_reload_end :: "WeaponHandState \<Rightarrow> WeaponCombatFacts \<Rightarrow> int32 \<Rightarrow> WeaponHandState \<times> WeaponTickEvent option" where
  "begin_reload_end hand facts pm_type =
     (let hand = hand\<lparr>wh_weapon_delay := 0, wh_rechamber_pending := False\<rparr> in
      if wf_reload_end_time_ms facts > 0 then
        (anim_if (pm_type < 8) ANIM_RELOAD_END
           (hand\<lparr>wh_weaponstate := ws ReloadEnd, wh_weapon_time := wf_reload_end_time_ms facts\<rparr>), Some ReloadEnded)
      else (idle_ready (hand\<lparr>wh_weapon_time := 0\<rparr>) pm_type, None))"

section \<open>Rounds of a hand\<close>

text \<open>
  A hand holds no more rounds than its magazine takes, and neither count is negative. Facts have \<open>i32\<close>
  magazine sizes.
\<close>

definition rounds_ok :: "WeaponCombatFacts \<Rightarrow> WeaponHandState \<Rightarrow> bool" where
  "rounds_ok facts hand \<longleftrightarrow> i32_ok (wf_clip_size facts) \<and> 0 \<le> wh_clip hand \<and> wh_clip hand \<le> max 0 (wf_clip_size facts)
     \<and> 0 \<le> wh_stock hand \<and> i32_ok (wh_stock hand)"

text \<open>What a step leaves of the rounds; steps that move no rounds satisfy the first.\<close>

definition same_rounds :: "WeaponHandState \<Rightarrow> WeaponHandState \<Rightarrow> bool" where
  "same_rounds hand hand' \<longleftrightarrow> wh_clip hand' = wh_clip hand \<and> wh_stock hand' = wh_stock hand"

definition moved_rounds :: "int \<Rightarrow> WeaponHandState \<Rightarrow> WeaponHandState \<Rightarrow> bool" where
  "moved_rounds n hand hand' \<longleftrightarrow> wh_clip hand' = wh_clip hand + n \<and> wh_stock hand' = wh_stock hand - n"

lemma same_rounds_refl [simp]: "same_rounds h h"
  by (simp add: same_rounds_def)

lemma same_rounds_trans [trans]: "same_rounds a b \<Longrightarrow> same_rounds b c \<Longrightarrow> same_rounds a c"
  by (simp add: same_rounds_def)

lemma same_rounds_ok: "same_rounds a b \<Longrightarrow> rounds_ok facts b = rounds_ok facts a"
  by (simp add: same_rounds_def rounds_ok_def)

named_theorems no_rounds "steps that move no rounds"

lemma anim_rounds [no_rounds, simp]:
  "wh_clip (anim e h) = wh_clip h" "wh_stock (anim e h) = wh_stock h"
  "wh_clip (anim_if b e h) = wh_clip h" "wh_stock (anim_if b e h) = wh_stock h"
  "wh_clip (anim_continue e p h) = wh_clip h" "wh_stock (anim_continue e p h) = wh_stock h"
  "wh_clip (idle_ready h p) = wh_clip h" "wh_stock (idle_ready h p) = wh_stock h"
  by (simp_all add: anim_def anim_if_def anim_continue_def idle_ready_def)

lemma anim_state [simp]:
  "wh_weaponstate (anim e h) = wh_weaponstate h"
  "wh_weaponstate (anim_if b e h) = wh_weaponstate h"
  "wh_weaponstate (anim_continue e p h) = wh_weaponstate h"
  "wh_weaponstate (idle_ready h p) = ws Ready"
  by (simp_all add: anim_def anim_if_def anim_continue_def idle_ready_def)

lemma anim_shots [simp]:
  "wh_shot_count (anim e h) = wh_shot_count h"
  "wh_shot_count (anim_if b e h) = wh_shot_count h"
  "wh_shot_count (anim_continue e p h) = wh_shot_count h"
  "wh_shot_count (idle_ready h p) = wh_shot_count h"
  by (simp_all add: anim_def anim_if_def anim_continue_def idle_ready_def)

lemma arm_delay_same [simp]:
  "wh_clip (weapon_arm_reload_add_delay h facts ms) = wh_clip h"
  "wh_stock (weapon_arm_reload_add_delay h facts ms) = wh_stock h"
  "wh_weaponstate (weapon_arm_reload_add_delay h facts ms) = wh_weaponstate h"
  "wh_shot_count (weapon_arm_reload_add_delay h facts ms) = wh_shot_count h"
  "wh_weapon_time (weapon_arm_reload_add_delay h facts ms) = wh_weapon_time h"
  by (simp_all add: weapon_arm_reload_add_delay_def Let_def)

text \<open>A credit moves rounds from the stock to the magazine, at most what fits and what there is.\<close>

lemma reload_clip_moves:
  assumes "rounds_ok facts h" and "reload_clip h facts = (h', n)"
  shows "h' = h\<lparr>wh_clip := wh_clip h + n, wh_stock := wh_stock h - n\<rparr>" and "0 \<le> n" and "rounds_ok facts h'"
proof -
  have c: "i32_ok (wf_clip_size facts - wh_clip h)"
    using assms(1) by (auto simp: rounds_ok_def i32_ok_def)
  have move: "wrap32 (wh_clip h + m) = wh_clip h + m \<and> wrap32 (wh_stock h - m) = wh_stock h - m"
    if "0 < m" "m \<le> wf_clip_size facts - wh_clip h" "m \<le> wh_stock h" for m
    using assms(1) that by (auto simp: rounds_ok_def i32_ok_def intro!: wrap32_id)
  have "0 \<le> n \<and> h' = h\<lparr>wh_clip := wh_clip h + n, wh_stock := wh_stock h - n\<rparr> \<and> (n = 0 \<or> n \<le> wf_clip_size facts - wh_clip h \<and> n \<le> wh_stock h)"
    using assms(2) c move by (auto simp: reload_clip_def Let_def split: if_splits)
  then show "h' = h\<lparr>wh_clip := wh_clip h + n, wh_stock := wh_stock h - n\<rparr>" "0 \<le> n" "rounds_ok facts h'"
    using assms(1) by (auto simp: rounds_ok_def i32_ok_def)
qed

lemma bolt_delayed_moves:
  assumes "rounds_ok facts h" and "bolt_reload_delayed_action h facts = (h', r)"
  shows "moved_rounds (ro_shells r) h h' \<and> 0 \<le> ro_shells r \<and> rounds_ok facts h' \<and> wh_weaponstate h' = wh_weaponstate h
    \<and> wh_shot_count h' = wh_shot_count h"
proof -
  let ?h = "h\<lparr>wh_rechamber_pending := False\<rparr>"
  obtain k n where k: "reload_clip ?h facts = (k, n)" by (cases "reload_clip ?h facts")
  have "rounds_ok facts ?h" using assms(1) by (simp add: rounds_ok_def)
  note m = reload_clip_moves [OF this k]
  have "h' = k \<and> r = \<lparr>ro_shells = n, ro_rechamber_event = True\<rparr> \<or>
    (\<exists>d. h' = ?h\<lparr>wh_weapon_delay := d\<rparr>) \<and> ro_shells r = 0 \<or> h' = ?h \<and> ro_shells r = 0"
    using assms(2) by (auto simp: bolt_reload_delayed_action_def Let_def k split: if_splits)
  then show ?thesis using m assms(1) by (auto simp: moved_rounds_def rounds_ok_def)
qed

lemma delayed_moves:
  assumes "rounds_ok facts h" and "weapon_reload_delayed_action h facts d = (h', r)"
  shows "moved_rounds (ro_shells r) h h' \<and> 0 \<le> ro_shells r \<and> rounds_ok facts h' \<and> wh_weaponstate h' = wh_weaponstate h
    \<and> wh_shot_count h' = wh_shot_count h"
proof -
  obtain k n where k: "reload_clip h facts = (k, n)" by (cases "reload_clip h facts")
  note m = reload_clip_moves [OF assms(1) k]
  show ?thesis
    using assms m bolt_delayed_moves [OF assms(1)]
    by (auto simp: weapon_reload_delayed_action_def k moved_rounds_def rounds_ok_def split: if_splits)
qed

lemma begin_weapon_reload_same [simp]:
  "wh_clip (fst (begin_weapon_reload h facts)) = wh_clip h"
  "wh_stock (fst (begin_weapon_reload h facts)) = wh_stock h"
  by (simp_all add: begin_weapon_reload_def Let_def split: prod.split)

lemma begin_reload_loop_same [simp]:
  "wh_clip (fst (begin_reload_loop h facts p)) = wh_clip h"
  "wh_stock (fst (begin_reload_loop h facts p)) = wh_stock h"
  "wh_shot_count (fst (begin_reload_loop h facts p)) = wh_shot_count h"
  "snd (begin_reload_loop h facts p) = Some ReloadInsert"
  by (simp_all add: begin_reload_loop_def Let_def split: prod.split)

lemma begin_reload_end_same [simp]:
  "wh_clip (fst (begin_reload_end h facts p)) = wh_clip h"
  "wh_stock (fst (begin_reload_end h facts p)) = wh_stock h"
  "wh_shot_count (fst (begin_reload_end h facts p)) = wh_shot_count h"
  by (simp_all add: begin_reload_end_def Let_def)

text \<open>Every step leads to a state with a code.\<close>

definition known_state :: "WeaponHandState \<Rightarrow> bool" where
  "known_state h \<longleftrightarrow> (\<exists>s. wh_weaponstate h = ws s)"

lemma known_ws [simp]: "wh_weaponstate h = ws s \<Longrightarrow> known_state h"
  by (auto simp: known_state_def)

lemma known_state_cong: "wh_weaponstate h' = wh_weaponstate h \<Longrightarrow> known_state h' = known_state h"
  by (simp add: known_state_def)

lemma begin_reload_states:
  "known_state h \<Longrightarrow> known_state (fst (begin_weapon_reload h facts))"
  "known_state (fst (begin_reload_loop h facts p))"
  "known_state (fst (begin_reload_end h facts p))"
  by (auto simp: begin_weapon_reload_def begin_reload_loop_def begin_reload_end_def Let_def known_state_def split: prod.split)

lemma begin_weapon_reload_shots:
  "wh_shot_count h \<le> 4 \<Longrightarrow> wh_shot_count (fst (begin_weapon_reload h facts)) \<le> 4"
  by (simp add: begin_weapon_reload_def Let_def split: prod.split)

end
