(* ===== verification/Weapon_Moves.thy ===== *)
theory Weapon_Moves
  imports Weapon_Reload
begin

text \<open>
  What interrupts a weapon (\<^verbatim>\<open>crates/weapon_iw4/src\<close>): melee (\<^verbatim>\<open>melee.rs\<close>), sprinting (\<^verbatim>\<open>sprint.rs\<close>), throwing
  grenades and other equipment with the off hand (\<^verbatim>\<open>offhand.rs\<close>) and changing to another weapon
  (\<^verbatim>\<open>weapon_change.rs\<close>). A step takes the hand and, where the source has \<open>&mut\<close>, the command, and returns
  them changed. A panic of the source is \<open>None\<close>. None of these steps moves a round.
\<close>

section \<open>Melee\<close>

definition melee_weaponstate_blocks :: "int32 \<Rightarrow> bool" where
  "melee_weaponstate_blocks s \<longleftrightarrow> s \<in> {0xd, 0xe, 0xf, 0x1a, 0x1b, 0x1d, 0x1e} \<or> (0x10 \<le> s \<and> s \<le> 0x15)"

definition hand_blocks_melee :: "WeaponHandState \<Rightarrow> bool" where
  "hand_blocks_melee hand = (let s = wh_weaponstate hand in
     if wh_weapon_time hand \<noteq> 0 \<and> s \<notin> {0x8, 0x9, 0xa, 0xb, 0xc} then True else 1 \<le> s \<and> s \<le> 5)"

definition weapon_has_charge_melee :: "MeleeWeaponFacts \<Rightarrow> bool" where
  "weapon_has_charge_melee facts \<longleftrightarrow> mf_melee_charge_anim facts \<and> mf_melee_charge_time_ms facts > 0"

definition weapon_start_melee_uses_charge :: "MeleeChargeState \<Rightarrow> f32 \<Rightarrow> MeleeWeaponFacts \<Rightarrow> bool" where
  "weapon_start_melee_uses_charge charge player_melee_range facts \<longleftrightarrow>
     mc_pm_flags charge AND PMF_MELEE_CHARGE \<noteq> 0
     \<and> f32_lt player_melee_range (f32_of_i32 (mc_melee_charge_dist charge))
     \<and> weapon_has_charge_melee facts"

definition melee_charge_start :: "MeleeChargeState \<Rightarrow> f32 \<Rightarrow> u8 \<Rightarrow> bool \<Rightarrow> MeleeChargeState" where
  "melee_charge_start charge cmd_melee_charge_yaw cmd_melee_charge_dist is_in_air =
     (if mc_pm_flags charge AND PMF_MELEE_CHARGE = 0 \<and> cmd_melee_charge_dist \<noteq> 0 \<and> is_finite cmd_melee_charge_yaw
         \<and> mc_pm_type charge = 0 \<and> mc_e_flags charge AND 0xc00 = 0 \<and> mc_pm_flags charge AND 0xc = 0 \<and> \<not> is_in_air
      then charge\<lparr>mc_pm_flags := mc_pm_flags charge OR PMF_MELEE_CHARGE, mc_melee_charge_yaw := cmd_melee_charge_yaw,
             mc_melee_charge_dist := uint cmd_melee_charge_dist, mc_melee_charge_time := 0\<rparr>
      else charge\<lparr>mc_pm_flags := mc_pm_flags charge AND NOT PMF_MELEE_CHARGE, mc_melee_charge_yaw := F32_ZERO,
             mc_melee_charge_dist := 0, mc_melee_charge_time := 0\<rparr>)"

definition settle_hand :: "WeaponHandState \<Rightarrow> int32 \<Rightarrow> WeaponHandState" where
  "settle_hand hand pm_type = idle_ready (hand\<lparr>wh_weapon_time := 0, wh_weapon_delay := 0\<rparr>) pm_type"

definition settle_cmd :: "WeaponCmd \<Rightarrow> WeaponCmd" where
  "settle_cmd cmd = cmd\<lparr>wc_weap_flags := wc_weap_flags cmd AND NOT OFFHAND_VIEW,
     wc_pm_flags := wc_pm_flags cmd AND NOT PMF_PRONEMOVE_OVERRIDDEN\<rparr>"

definition weapon_settle_ready :: "WeaponHandState \<Rightarrow> WeaponCmd \<Rightarrow> WeaponHandState \<times> WeaponCmd" where
  "weapon_settle_ready hand cmd = (settle_hand hand (wc_pm_type cmd), settle_cmd cmd)"

text \<open>The second hand may be missing.\<close>

definition weapon_start_melee :: "WeaponHandState \<Rightarrow> WeaponHandState option \<Rightarrow> MeleeWeaponFacts \<Rightarrow> int32 \<Rightarrow> int32 \<Rightarrow> bool
    \<Rightarrow> WeaponHandState \<times> WeaponHandState option" where
  "weapon_start_melee primary secondary facts last_weapon_hand pm_type use_charge =
     (let (time, delay, an) = (if use_charge then (mf_melee_charge_time_ms facts, mf_melee_charge_delay_ms facts, ANIM_MELEE_CHARGE)
            else (mf_melee_time_ms facts, mf_melee_delay_ms facts, ANIM_MELEE));
          primary = primary\<lparr>wh_weapon_time := max time 1, wh_weapon_delay := max delay 0, wh_shot_count := 0, wh_burst_latch := False\<rparr>;
          (primary, secondary) =
            (if pm_type \<le> 7 then
               (let sec_anim = (case secondary of Some h \<Rightarrow> wh_weap_anim h | None \<Rightarrow> 0);
                    (a, b) = set_weap_anim (wh_weap_anim primary) sec_anim last_weapon_hand an
                in (primary\<lparr>wh_weap_anim := a\<rparr>, map_option (\<lambda>h. h\<lparr>wh_weap_anim := b\<rparr>) secondary))
             else (primary, if last_weapon_hand \<noteq> 1 then map_option (\<lambda>h. h\<lparr>wh_weap_anim := 0\<rparr>) secondary else secondary));
          primary = primary\<lparr>wh_weaponstate := ws MeleeInit\<rparr>
      in (primary,
          if last_weapon_hand = 1 then map_option (\<lambda>h. h\<lparr>wh_weaponstate := ws MeleeInit, wh_weapon_time := wh_weapon_time primary,
                 wh_weapon_delay := wh_weapon_delay primary\<rparr>) secondary
          else secondary))"

text \<open>\<open>last.clamp(0, 1) + 1\<close>, at most the number of hands.\<close>

definition hand_count :: "WeaponHandState list \<Rightarrow> int32 \<Rightarrow> nat" where
  "hand_count hands last_hand = min (length hands) (nat (max 0 (min 1 last_hand)) + 1)"

definition weapon_try_melee :: "WeaponHandState list \<Rightarrow> MeleeWeaponFacts \<Rightarrow> u32 \<Rightarrow> u32 \<Rightarrow> f32 \<Rightarrow> int32 \<Rightarrow> MeleeChargeState
    \<Rightarrow> f32 \<Rightarrow> u8 \<Rightarrow> bool \<Rightarrow> f32 \<Rightarrow> WeaponHandState list \<times> MeleeChargeState \<times> bool option" where
  "weapon_try_melee hands facts buttons old_buttons f_weapon_pos_frac last_weapon_hand charge
     cmd_melee_charge_yaw cmd_melee_charge_dist is_in_air player_melee_range =
     (case hands of [] \<Rightarrow> (hands, charge, None) | primary # rest \<Rightarrow>
        if melee_weaponstate_blocks (wh_weaponstate primary) then (hands, charge, None)
        else if mf_melee_damage facts = 0 then (hands, charge, None)
        else if buttons AND BUTTON_MELEE = 0 \<or> old_buttons AND BUTTON_MELEE \<noteq> 0 then (hands, charge, None)
        else if f32_lt F32_ZERO f_weapon_pos_frac \<and> mf_overlay_reticle facts \<noteq> 0 then (hands, charge, None)
        else if list_ex hand_blocks_melee (take (hand_count hands last_weapon_hand) hands) then (hands, charge, None)
        else let charge = melee_charge_start charge cmd_melee_charge_yaw cmd_melee_charge_dist is_in_air;
                 use_charge = weapon_start_melee_uses_charge charge player_melee_range facts;
                 secondary = (case rest of [] \<Rightarrow> None | h # _ \<Rightarrow> Some h);
                 (p, s) = weapon_start_melee primary secondary facts last_weapon_hand (mc_pm_type charge) use_charge
             in (p # (case s of None \<Rightarrow> rest | Some h \<Rightarrow> h # tl rest), charge, Some use_charge))"

definition weapon_melee_to_fire :: "WeaponHandState \<Rightarrow> WeaponHandState" where
  "weapon_melee_to_fire hand = hand\<lparr>wh_weaponstate := ws MeleeFire\<rparr>"

definition weapon_melee_to_end :: "WeaponHandState \<Rightarrow> MeleeWeaponFacts \<Rightarrow> WeaponCmd \<Rightarrow> WeaponHandState \<times> WeaponCmd" where
  "weapon_melee_to_end hand facts cmd =
     (if mf_knife_model facts \<noteq> 0 then
        (anim_if (wc_pm_type cmd < 8) ANIM_QUICK_RAISE
           (hand\<lparr>wh_weaponstate := ws MeleeEnd, wh_weapon_time := max (mf_quick_raise_time_ms facts) 1, wh_weapon_delay := 0\<rparr>), cmd)
      else weapon_settle_ready hand cmd)"

type_synonym hand_step = "WeaponHandState \<times> WeaponCmd \<times> WeaponTickEvent option"

definition weapon_advance_melee :: "WeaponHandState \<Rightarrow> MeleeWeaponFacts \<Rightarrow> WeaponCmd \<Rightarrow> bool \<Rightarrow> hand_step" where
  "weapon_advance_melee hand facts cmd delayed_action =
     (if \<not> delayed_action \<and> (wh_weapon_time hand > 0 \<or> wh_weapon_delay hand > 0) then (hand, cmd, None)
      else if is_ws (wh_weaponstate hand) {MeleeInit} then (weapon_melee_to_fire hand, cmd, Some MeleeFired)
      else if is_ws (wh_weaponstate hand) {MeleeFire} then (case weapon_melee_to_end hand facts cmd of (h, c) \<Rightarrow> (h, c, None))
      else if is_ws (wh_weaponstate hand) {MeleeEnd} then (case weapon_settle_ready hand cmd of (h, c) \<Rightarrow> (h, c, None))
      else (hand, cmd, None))"

section \<open>Sprint\<close>

definition check_for_sprint_allowed :: "WeaponState \<Rightarrow> bool" where
  "check_for_sprint_allowed s \<longleftrightarrow> s \<notin> {Raising, RaisingAltswitch, Dropping, DroppingQuick, DroppingAltswitch, Firing,
     Rechambering, MeleeInit, MeleeFire, MeleeEnd, OffhandInit, OffhandPrepare, OffhandHold, OffhandStart, Offhand,
     OffhandEnd, NightVisionWear, NightVisionRemove}"

definition begin_sprint :: "WeaponCombatFacts \<Rightarrow> WeaponHandState \<Rightarrow> WeaponHandState" where
  "begin_sprint facts hand = anim ANIM_SPRINT_IN (hand\<lparr>wh_weaponstate := ws SprintIn,
     wh_weapon_time := (if wf_sprint_raise_time_ms facts > 0 then wf_sprint_raise_time_ms facts else 1),
     wh_weapon_delay := 0, wh_shot_count := 0, wh_burst_latch := False\<rparr>)"

definition sprint_loop :: "WeaponHandState \<Rightarrow> WeaponHandState" where
  "sprint_loop hand = anim ANIM_SPRINT_LOOP (hand\<lparr>wh_weaponstate := ws SprintLoop, wh_weapon_time := 0, wh_weapon_delay := 0\<rparr>)"

definition begin_sprint_out :: "WeaponCombatFacts \<Rightarrow> u32 \<Rightarrow> WeaponHandState \<Rightarrow> WeaponHandState" where
  "begin_sprint_out facts perks1 hand =
     (let time = (if wf_sprint_drop_time_ms facts > 0 then wf_sprint_drop_time_ms facts else 1);
          time = (if perks1 AND PERK1_FASTSPRINTRECOVERY \<noteq> 0
                  then i32_of_f32 (f32_mul (f32_of_i32 time) SPRINT_RECOVERY_MULTIPLIER) else time)
      in anim ANIM_SPRINT_OUT (hand\<lparr>wh_weaponstate := ws SprintOut, wh_weapon_time := time, wh_weapon_delay := 0\<rparr>))"

definition weapon_check_hands_for_sprint :: "WeaponHandState list \<Rightarrow> WeaponCombatFacts \<Rightarrow> u16 \<Rightarrow> u32 \<Rightarrow> u32 \<Rightarrow> WeaponHandState list" where
  "weapon_check_hands_for_sprint hands facts cmd_weapon pm_flags perks1 =
     (case hands of [] \<Rightarrow> hands | primary # rest \<Rightarrow>
        if cmd_weapon = 0 then hands
        else case ws_from_i32 (wh_weaponstate primary) of Inl _ \<Rightarrow> hands
        | Inr s \<Rightarrow>
          if \<not> check_for_sprint_allowed s
             \<or> list_ex (\<lambda>hand. is_ws (wh_weaponstate hand) {Firing, Rechambering, MeleeInit, MeleeFire, MeleeEnd}) rest then hands
          else let sprinting = (pm_flags AND PMF_SPRINTING \<noteq> 0) in
            if sprinting \<and> \<not> is_sprint s then map (begin_sprint facts) hands
            else if \<not> sprinting \<and> s \<in> {SprintIn, SprintLoop} then map (begin_sprint_out facts perks1) hands
            else hands)"

definition weapon_check_for_sprint :: "WeaponHandState \<Rightarrow> WeaponCombatFacts \<Rightarrow> u32 \<Rightarrow> WeaponHandState" where
  "weapon_check_for_sprint hand facts pm_flags =
     hd (weapon_check_hands_for_sprint [hand] facts (ucast (wh_weapon hand)) pm_flags 0)"

definition weapon_advance_sprint :: "WeaponHandState \<Rightarrow> WeaponCmd \<Rightarrow> WeaponHandState \<times> WeaponCmd" where
  "weapon_advance_sprint hand cmd =
     (if is_ws (wh_weaponstate hand) {SprintIn} \<and> wh_weapon_time hand \<le> 0 then (sprint_loop hand, cmd)
      else if is_ws (wh_weaponstate hand) {SprintOut} \<and> wh_weapon_time hand \<le> 0 then weapon_settle_ready hand cmd
      else (hand, cmd))"

section \<open>Off hand\<close>

definition get_first_available_offhand :: "OffhandInvRow list \<Rightarrow> int32 \<Rightarrow> u32" where
  "get_first_available_offhand inventory wanted_class = (if wanted_class = 0 then 0
     else case List.find (\<lambda>row. ir_weapon row \<noteq> 0 \<and> ir_offhand_class row = wanted_class \<and> ir_ammo row > 0) inventory of
       Some row \<Rightarrow> ir_weapon row | None \<Rightarrow> 0)"

definition offhand_row :: "OffhandCmd \<Rightarrow> u32 \<Rightarrow> OffhandInvRow option" where
  "offhand_row cmd weapon = List.find (\<lambda>r. ir_weapon r = weapon) (oc_inventory cmd)"

text \<open>The source panics when the row does not say whether holding can be cancelled.\<close>

definition offhand_hold_cancel_requested :: "WeaponCmd \<Rightarrow> bool option" where
  "offhand_hold_cancel_requested cmd =
     (if wc_buttons cmd AND OFFHAND_HOLD_CANCEL = 0 then Some False
      else let weapon = as_u32 (max (oc_off_hand_index (wc_offhand cmd)) 0) in
        if weapon = 0 then Some False
        else case offhand_row (wc_offhand cmd) weapon of None \<Rightarrow> Some False | Some r \<Rightarrow> ir_offhand_hold_is_cancelable r)"

definition admits_check_for_offhand :: "int32 \<Rightarrow> bool" where
  "admits_check_for_offhand weaponstate =
     (if weaponstate = ws NightVisionWear \<or> weaponstate = ws NightVisionRemove then False
      else \<not> (0x10 \<le> weaponstate \<and> weaponstate < 0x15))"

fun spend_row :: "u32 \<Rightarrow> OffhandInvRow list \<Rightarrow> OffhandInvRow list" where
  "spend_row weapon [] = []"
| "spend_row weapon (row # rows) = (if ir_weapon row = weapon
     then (if ir_ammo row > 0 then row\<lparr>ir_ammo := wrap32 (ir_ammo row - 1)\<rparr> else row) # rows
     else row # spend_row weapon rows)"

definition with_offhand :: "(OffhandCmd \<Rightarrow> OffhandCmd) \<Rightarrow> WeaponCmd \<Rightarrow> WeaponCmd" where
  "with_offhand f cmd = cmd\<lparr>wc_offhand := f (wc_offhand cmd)\<rparr>"

definition set_grenade_time :: "int32 \<Rightarrow> WeaponCmd \<Rightarrow> WeaponCmd" where
  "set_grenade_time t cmd = with_offhand (\<lambda>o1. o1\<lparr>oc_grenade_time_left := t\<rparr>) cmd"

definition set_off_hand_index :: "int32 \<Rightarrow> WeaponCmd \<Rightarrow> WeaponCmd" where
  "set_off_hand_index i cmd = with_offhand (\<lambda>o1. o1\<lparr>oc_off_hand_index := i\<rparr>) cmd"

definition set_weap_flag :: "u32 \<Rightarrow> WeaponCmd \<Rightarrow> WeaponCmd" where
  "set_weap_flag f cmd = cmd\<lparr>wc_weap_flags := wc_weap_flags cmd OR f\<rparr>"

definition spend_offhand_inventory_round :: "WeaponCmd \<Rightarrow> u32 \<Rightarrow> WeaponCmd" where
  "spend_offhand_inventory_round cmd weapon =
     (if weapon = 0 then cmd else with_offhand (\<lambda>o1. o1\<lparr>oc_inventory := spend_row weapon (oc_inventory o1)\<rparr>) cmd)"

definition off_hand_weapon :: "WeaponCmd \<Rightarrow> u32" where
  "off_hand_weapon cmd = as_u32 (oc_off_hand_index (wc_offhand cmd))"

definition off_hand_row :: "WeaponCmd \<Rightarrow> OffhandInvRow option" where
  "off_hand_row cmd = offhand_row (wc_offhand cmd) (off_hand_weapon cmd)"

definition weapon_offhand_end :: "WeaponHandState \<Rightarrow> WeaponCmd \<Rightarrow> WeaponHandState \<times> WeaponCmd" where
  "weapon_offhand_end hand cmd =
     (let hand = (if wh_weapon hand = 0 then hand\<lparr>wh_weapon_time := 0, wh_weapon_delay := 1\<rparr>
                  else anim_if (wc_pm_type cmd < 8) ANIM_QUICK_RAISE
                    (hand\<lparr>wh_weapon_time := wc_switch_quick_raise_time_ms cmd, wh_weapon_delay := 0\<rparr>))
      in (hand\<lparr>wh_weaponstate := ws OffhandEnd\<rparr>, set_grenade_time 0 (settle_cmd cmd)))"

definition cooked_off :: "WeaponHandState \<Rightarrow> WeaponCmd \<Rightarrow> hand_step" where
  "cooked_off hand cmd = (let weapon = off_hand_weapon cmd in
     case weapon_offhand_end hand (spend_offhand_inventory_round cmd weapon) of (h, c) \<Rightarrow>
       (h, set_grenade_time 0 c, if weapon \<noteq> 0 then Some (OffhandCookedOff weapon) else None))"

definition weapon_update_grenade_throw :: "WeaponHandState \<Rightarrow> WeaponCmd \<Rightarrow> hand_step" where
  "weapon_update_grenade_throw hand cmd =
     (let viewed = (wc_weap_flags cmd AND OFFHAND_VIEW \<noteq> 0);
          weap = (if viewed then off_hand_weapon cmd else wh_weapon hand);
          t = oc_grenade_time_left (wc_offhand cmd)
      in if wh_hand_index hand \<noteq> 0 \<or> (\<not> viewed \<and> wh_weapon hand = 0) then (hand, cmd, None)
         else case offhand_row (wc_offhand cmd) weap of None \<Rightarrow> (hand, cmd, None)
         | Some row \<Rightarrow>
           if ir_weap_type row \<noteq> WEAPTYPE_GRENADE \<or> t = 0 then (hand, cmd, None)
           else if t < 0 then
             (if ir_cook_off_hold row then cooked_off hand cmd else (hand, set_grenade_time 0 cmd, None))
           else let cmd = (if ir_cook_off_hold row then set_grenade_time (wrap32 (t - wc_msec cmd)) cmd else cmd) in
             if oc_grenade_time_left (wc_offhand cmd) < 1 then cooked_off hand (set_grenade_time (- 1) cmd)
             else (hand, cmd, None))"

definition weapon_enter_offhand :: "WeaponHandState \<Rightarrow> WeaponCmd \<Rightarrow> WeaponHandState \<times> WeaponCmd" where
  "weapon_enter_offhand hand cmd =
     (let prior = wh_weaponstate hand;
          putting_away = (prior = ws Dropping \<or> prior = ws DroppingQuick \<or> prior = ws DroppingAltswitch);
          cmd = cmd\<lparr>wc_weap_flags := wc_weap_flags cmd AND NOT OFFHAND_VIEW\<rparr>;
          hand = hand\<lparr>wh_weaponstate := ws OffhandInit, wh_weapon_delay := 0\<rparr>
      in if wh_weapon hand = 0 then (hand\<lparr>wh_weapon_time := 100\<rparr>, cmd)
         else if \<not> putting_away then
           (anim_if (wc_pm_type cmd < 8) ANIM_QUICK_DROP
              (hand\<lparr>wh_weapon_time := oc_held_quick_drop_time_ms (wc_offhand cmd)\<rparr>), cmd)
         else (hand, cmd))"

definition weapon_offhand_prepare :: "WeaponHandState \<Rightarrow> WeaponCmd \<Rightarrow> hand_step" where
  "weapon_offhand_prepare hand cmd =
     (let row = off_hand_row cmd; detonator = (case row of Some r \<Rightarrow> ir_has_detonator r \<and> ir_ammo r \<le> 0 | None \<Rightarrow> False) in
      if detonator then
        (anim_if (wc_pm_type cmd < 8) ANIM_DETONATE
           (hand\<lparr>wh_weaponstate := ws Offhand, wh_weapon_time := max (ir_detonate_time_ms (the row)) 1,
              wh_weapon_delay := max (ir_detonate_delay_ms (the row)) 1\<rparr>), set_weap_flag OFFHAND_VIEW cmd, None)
      else
        (anim_if (wc_pm_type cmd < 8) ANIM_HOLD_FIRE
           (hand\<lparr>wh_weaponstate := ws OffhandPrepare,
              wh_weapon_time := (case row of Some r \<Rightarrow> ir_hold_fire_time_ms r | None \<Rightarrow> 0), wh_weapon_delay := 0\<rparr>),
         set_weap_flag OFFHAND_VIEW cmd,
         if oc_off_hand_index (wc_offhand cmd) \<noteq> 0 then Some (OffhandPreparing (off_hand_weapon cmd)) else None))"

definition weapon_offhand_hold :: "WeaponHandState \<Rightarrow> WeaponCmd \<Rightarrow> WeaponHandState \<times> WeaponCmd" where
  "weapon_offhand_hold hand cmd =
     (hand\<lparr>wh_weaponstate := ws OffhandHold, wh_weapon_time := 0, wh_weapon_delay := 0\<rparr>,
      set_grenade_time (case off_hand_row cmd of Some r \<Rightarrow> ir_fuse_time_ms r | None \<Rightarrow> 0) (set_weap_flag OFFHAND_VIEW cmd))"

definition weapon_offhand_start :: "WeaponHandState \<Rightarrow> WeaponCmd \<Rightarrow> (WeaponHandState \<times> WeaponCmd) option" where
  "weapon_offhand_start hand cmd =
     (let held = BUTTON_FRAG OR BUTTON_SMOKE;
          still_held = (wc_old_buttons cmd AND held \<noteq> 0 \<and> wc_buttons cmd AND held \<noteq> 0);
          row = off_hand_row cmd;
          fire_time = max (case row of Some r \<Rightarrow> ir_fire_time_ms r | None \<Rightarrow> 0) 0;
          fire_delay = max (case row of Some r \<Rightarrow> ir_fire_delay_ms r | None \<Rightarrow> 0) 0
      in if still_held \<and> wc_weap_flags cmd AND 0x1080 = 0 then
           (case offhand_hold_cancel_requested cmd of None \<Rightarrow> None
            | Some True \<Rightarrow> (case weapon_offhand_end hand cmd of (h, c) \<Rightarrow> Some (h, set_grenade_time 0 c))
            | Some False \<Rightarrow> Some (hand\<lparr>wh_weapon_delay := 1\<rparr>, cmd))
         else Some
           (anim_if (wc_pm_type cmd < 8) ANIM_FIRE
              (hand\<lparr>wh_weaponstate := ws OffhandStart, wh_weapon_time := fire_time, wh_weapon_delay := fire_delay\<rparr>),
            set_weap_flag OFFHAND_VIEW cmd))"

definition weapon_offhand_throw :: "WeaponHandState \<Rightarrow> WeaponCmd \<Rightarrow> hand_step" where
  "weapon_offhand_throw hand cmd =
     (let weapon = off_hand_weapon cmd; left = oc_grenade_time_left (wc_offhand cmd) in
      if weapon = 0 then (hand, cmd, None)
      else (hand, set_grenade_time 0 (set_weap_flag OFFHAND_VIEW (spend_offhand_inventory_round cmd weapon)),
        Some (OffhandUsed weapon (if left > 0 then Some left else None))))"

definition no_event :: "WeaponHandState \<times> WeaponCmd \<Rightarrow> hand_step" where
  "no_event hc = (fst hc, snd hc, None)"

definition weapon_advance_offhand :: "WeaponHandState \<Rightarrow> WeaponCmd \<Rightarrow> bool \<Rightarrow> hand_step option" where
  "weapon_advance_offhand hand cmd delayed_action =
     (let s = wh_weaponstate hand; idle = (wh_weapon_time hand \<le> 0);
          cancel = (if is_ws s {OffhandInit, OffhandPrepare} then offhand_hold_cancel_requested cmd else Some False)
      in if wh_hand_index hand \<noteq> 0 then Some (hand, cmd, None)
         else case cancel of None \<Rightarrow> None
         | Some True \<Rightarrow> (case weapon_offhand_end hand cmd of (h, c) \<Rightarrow> Some (h, set_grenade_time 0 c, None))
         | Some False \<Rightarrow>
           if \<not> delayed_action \<and> (wh_weapon_time hand > 0 \<or> wh_weapon_delay hand > 0) then Some (hand, cmd, None)
           else if is_ws s {OffhandInit} \<and> idle then Some (weapon_offhand_prepare hand cmd)
           else if is_ws s {OffhandPrepare} \<and> idle then Some (no_event (weapon_offhand_hold hand cmd))
           else if is_ws s {OffhandHold} \<and> idle then
             (if oc_grenade_time_left (wc_offhand cmd) \<ge> 0 then map_option no_event (weapon_offhand_start hand cmd)
              else Some (no_event (weapon_offhand_end hand cmd)))
           else if is_ws s {OffhandStart} then
             (if delayed_action then Some (weapon_offhand_throw hand cmd) else Some (no_event (weapon_offhand_end hand cmd)))
           else if is_ws s {Offhand} then
             (if delayed_action then Some (hand, cmd, Some (Detonated (off_hand_weapon cmd)))
              else Some (no_event (weapon_offhand_end hand cmd)))
           else if is_ws s {OffhandEnd} \<and> idle then Some (no_event (weapon_settle_ready hand cmd))
           else Some (hand, cmd, None))"

definition weapon_check_for_offhand :: "WeaponHandState \<Rightarrow> WeaponCmd \<Rightarrow> hand_step" where
  "weapon_check_for_offhand hand cmd =
     (if wh_hand_index hand \<noteq> 0 \<or> wc_e_flags cmd AND 0xc00 \<noteq> 0 \<or> wc_weap_flags cmd AND 0x80 \<noteq> 0
         \<or> wc_weap_flags cmd AND 0x1000 \<noteq> 0 \<or> wc_e_flags cmd AND 0x100000 \<noteq> 0 \<or> wc_pm_flags cmd AND PMF_SPRINTING \<noteq> 0
         \<or> \<not> admits_check_for_offhand (wh_weaponstate hand) then (hand, cmd, None)
      else let oc = wc_offhand cmd;
               cmd = (if oc_cmd_off_hand_owned oc \<and> oc_cmd_off_hand_index oc \<noteq> 0
                      then set_off_hand_index (uint (oc_cmd_off_hand_index oc)) cmd else cmd);
               pressed = (\<lambda>button. wc_buttons cmd AND button \<noteq> 0 \<and> wc_old_buttons cmd AND button = 0)
           in if \<not> pressed BUTTON_FRAG \<and> \<not> pressed BUTTON_SMOKE then (hand, cmd, None)
              else let wanted = (if pressed BUTTON_FRAG then oc_offhand_primary oc else oc_offhand_secondary oc);
                       first = get_first_available_offhand (oc_inventory oc) wanted;
                       picked = (if first = 0 then
                           (case List.find (\<lambda>row. ir_weapon row \<noteq> 0 \<and> ir_offhand_class row = wanted \<and> ir_has_detonator row) (oc_inventory oc)
                            of Some row \<Rightarrow> ir_weapon row | None \<Rightarrow> 0) else first)
                   in if picked = 0 then (hand, cmd, None)
                      else let cmd = set_off_hand_index (as_i32 picked) cmd in
                        if oc_cursor_hint_ent oc = CURSOR_HINT_NONE \<and> (wh_weapon hand = 0 \<or> wh_weaponstate hand = ws OffhandEnd)
                        then weapon_offhand_prepare hand cmd
                        else no_event (weapon_enter_offhand hand cmd))"

section \<open>Changing weapons\<close>

definition check_for_change_admits :: "int32 \<Rightarrow> int32 \<Rightarrow> int32 \<Rightarrow> bool" where
  "check_for_change_admits weaponstate weapon_time weapon_delay =
     (case ws_from_i32 weaponstate of Inl _ \<Rightarrow> False | Inr s \<Rightarrow>
        if s \<in> {MeleeInit, MeleeFire, MeleeEnd, OffhandInit, OffhandPrepare, OffhandHold, OffhandStart, Offhand, OffhandEnd,
                NightVisionWear, NightVisionRemove} then False
        else if weapon_time = 0 then True
        else if s \<in> {Reloading, ReloadStart, ReloadEnd, ReloadStartInterrupt, ReloadingInterrupt, Rechambering} then True
        else s \<noteq> Firing \<and> weapon_delay = 0)"

definition traversal_forces_holster :: "WeaponCmd \<Rightarrow> bool" where
  "traversal_forces_holster cmd \<longleftrightarrow> wc_mantle_weapon_inactive cmd \<or> wc_pm_flags cmd AND PMF_LADDER \<noteq> 0"

definition is_dropping :: "int32 \<Rightarrow> bool" where
  "is_dropping s \<longleftrightarrow> is_ws s {Dropping, DroppingQuick, DroppingAltswitch}"

definition begin_weapon_change :: "WeaponHandState \<Rightarrow> WeaponCombatFacts \<Rightarrow> u32 \<Rightarrow> bool \<Rightarrow> u32 \<Rightarrow> WeaponHandState \<times> WeaponTickEvent option" where
  "begin_weapon_change hand facts new_weapon quick pm_flags =
     (if is_dropping (wh_weaponstate hand) then (hand, None)
      else let hand = hand\<lparr>wh_weapon_delay := 0, wh_weapon_restrict_kick_time := 0, wh_shot_count := 0, wh_burst_latch := False\<rparr> in
        if wh_weapon hand = 0 then
          (hand\<lparr>wh_weaponstate := (if quick then ws DroppingQuick else ws Dropping), wh_weapon_time := 0\<rparr>, None)
        else let quick = (quick \<or> new_weapon = 0) in
          (anim_if (pm_flags AND PMF_SPRINTING = 0) (if quick then ANIM_QUICK_DROP else ANIM_DROP)
             (hand\<lparr>wh_weaponstate := (if quick then ws DroppingQuick else ws Dropping),
                wh_weapon_time := (if quick then wf_quick_drop_time_ms facts else max (wf_drop_time_ms facts) 1)\<rparr>),
           Some PutawayStarted))"

definition weapon_check_for_change :: "WeaponHandState \<Rightarrow> WeaponCombatFacts \<Rightarrow> WeaponCmd \<Rightarrow> hand_step" where
  "weapon_check_for_change hand facts cmd =
     (let cmd_w = ucast (wc_cmd_weapon cmd) :: u32 in
      if \<not> check_for_change_admits (wh_weaponstate hand) (wh_weapon_time hand) (wh_weapon_delay hand) then (hand, cmd, None)
      else if traversal_forces_holster cmd then
        (if wh_weapon hand \<noteq> 0 then
           (case begin_weapon_change hand facts 0 True (wc_pm_flags cmd) of (h, e) \<Rightarrow> (h, cmd, e))
         else (hand, cmd, None))
      else if is_dropping (wh_weaponstate hand) then
        (if cmd_w = wh_weapon hand then
           (case weapon_settle_ready hand cmd of (h, c) \<Rightarrow> (anim 1 h, c, None))
         else (hand, cmd, None))
      else if wh_weapon hand \<noteq> cmd_w then
        (if wc_pm_flags cmd AND PMF_CHANGE_BLOCK \<noteq> 0 \<and> wh_weapon hand \<noteq> 0 then (hand, cmd, None)
         else if cmd_w = 0 \<or> wc_cmd_weapon_owned cmd then
           (let quick = (wc_mantle_quick_raise cmd \<or> wc_cmd_weapon_pistol_quick cmd) in
            case begin_weapon_change hand facts cmd_w quick (wc_pm_flags cmd) of (h, e) \<Rightarrow>
              if wc_alternate_switch cmd \<and> e \<noteq> None \<and> wc_pm_flags cmd AND PMF_SPRINTING = 0 then
                (anim 0x11 (h\<lparr>wh_weaponstate := ws DroppingAltswitch, wh_weapon_time := wf_alternate_drop_time_ms facts\<rparr>),
                 cmd, Some AlternateStarted)
              else (h, cmd, e))
         else (hand, cmd, None))
      else (hand, cmd, None))"

definition raise_time_for_cmd :: "WeaponCmd \<Rightarrow> bool \<Rightarrow> int32" where
  "raise_time_for_cmd cmd quick =
     (if quick \<and> wc_switch_quick_raise_time_ms cmd > 0 then wc_switch_quick_raise_time_ms cmd
      else if wc_switch_raise_time_ms cmd > 0 then wc_switch_raise_time_ms cmd else 1)"

definition finish_putaway_while_holstered :: "WeaponHandState \<Rightarrow> WeaponHandState" where
  "finish_putaway_while_holstered hand = anim 0 (hand\<lparr>wh_weapon := 0, wh_weaponstate := ws Ready, wh_weapon_time := 0,
     wh_weapon_delay := 0, wh_shot_count := 0, wh_burst_latch := False\<rparr>)"

definition finish_putaway_to_cmd :: "WeaponHandState \<Rightarrow> WeaponCmd \<Rightarrow> WeaponHandState" where
  "finish_putaway_to_cmd hand cmd =
     (let new_weapon = ucast (wc_cmd_weapon cmd) :: u32;
          quick = (wh_weaponstate hand = ws DroppingQuick);
          alternate = (wh_weaponstate hand = ws DroppingAltswitch);
          first = (\<not> alternate \<and> wc_switch_first_raise_time_ms cmd > 0)
      in if new_weapon = 0 then finish_putaway_while_holstered hand
         else anim (if alternate then 0x12 else if first then ANIM_FIRST_RAISE else if quick then ANIM_QUICK_RAISE else ANIM_RAISE)
           (hand\<lparr>wh_weapon := new_weapon, wh_weapon_delay := 0, wh_shot_count := 0, wh_burst_latch := False,
              wh_weaponstate := (if alternate then ws RaisingAltswitch else ws Raising),
              wh_weapon_time := (if alternate then wc_switch_alternate_raise_time_ms cmd
                else if first then wc_switch_first_raise_time_ms cmd else raise_time_for_cmd cmd quick)\<rparr>))"

section \<open>What the steps keep\<close>

text \<open>
  None of these steps moves rounds, leaves the known states or counts a shot, and none of their events
  is a shot.
\<close>

definition keeps :: "WeaponHandState \<Rightarrow> WeaponHandState \<Rightarrow> bool" where
  "keeps h h' \<longleftrightarrow> same_rounds h h' \<and> (known_state h \<longrightarrow> known_state h') \<and> (wh_shot_count h \<le> 4 \<longrightarrow> wh_shot_count h' \<le> 4)"

definition no_shot :: "WeaponTickEvent option \<Rightarrow> bool" where
  "no_shot e \<longleftrightarrow> (\<forall>n. e \<noteq> Some (ShotAccepted n))"

lemma keeps_refl [simp]: "keeps h h"
  by (simp add: keeps_def)

lemma keeps_trans [trans]: "keeps a b \<Longrightarrow> keeps b c \<Longrightarrow> keeps a c"
  by (auto simp: keeps_def intro: same_rounds_trans)

lemma no_shot_simps [simp]:
  "no_shot None" "\<not> no_shot (Some (ShotAccepted n))" "(\<And>n. e \<noteq> ShotAccepted n) \<Longrightarrow> no_shot (Some e)"
  by (simp_all add: no_shot_def)

lemma keepsI:
  "wh_clip h' = wh_clip h \<Longrightarrow> wh_stock h' = wh_stock h \<Longrightarrow> wh_weaponstate h' = ws s \<or> wh_weaponstate h' = wh_weaponstate h \<Longrightarrow>
   wh_shot_count h' = wh_shot_count h \<or> wh_shot_count h' = 0 \<Longrightarrow> keeps h h'"
  by (auto simp: keeps_def same_rounds_def known_state_def)

named_theorems steps "definitions of the steps of a hand"

lemmas [steps] = weapon_settle_ready_def settle_hand_def weapon_melee_to_fire_def weapon_melee_to_end_def
  begin_sprint_def sprint_loop_def begin_sprint_out_def Let_def no_event_def

lemma settle_keeps [simp]: "keeps h (settle_hand h p)" "keeps h (fst (weapon_settle_ready h c))"
  by (auto simp: steps intro!: keepsI)

lemma advance_melee_keeps [simp]:
  "keeps h (fst (weapon_advance_melee h f c d))" "no_shot (snd (snd (weapon_advance_melee h f c d)))"
  by (auto simp: weapon_advance_melee_def steps intro!: keepsI)

lemma start_melee_keeps:
  assumes "weapon_start_melee p s f l t u = (p', s')"
  shows "keeps p p'" and "s' = None \<longleftrightarrow> s = None" and "s = Some h \<Longrightarrow> s' = Some h' \<Longrightarrow> keeps h h'"
  using assms by (auto simp: weapon_start_melee_def Let_def split: prod.splits if_splits intro!: keepsI)

lemma try_melee_keeps:
  "weapon_try_melee hs f b o1 fr l c y d a r = (hs', c', e) \<Longrightarrow> list_all2 keeps hs hs'"
proof (induction hs)
  case (Cons p rest)
  have refl: "list_all2 keeps xs xs" for xs by (simp add: list_all2_refl)
  from Cons.prems show ?case
    by (auto simp: weapon_try_melee_def Let_def refl split: prod.splits if_splits option.splits list.splits
        dest: start_melee_keeps(1) start_melee_keeps(2,3))
qed (simp add: weapon_try_melee_def)

lemma sprint_keeps [simp]: "keeps h (begin_sprint f h)" "keeps h (begin_sprint_out f p h)" "keeps h (sprint_loop h)"
  by (auto simp: steps intro!: keepsI)

lemma hands_sprint_keeps: "list_all2 keeps hs (weapon_check_hands_for_sprint hs f w p q)"
  by (auto simp: weapon_check_hands_for_sprint_def Let_def list_all2_refl list_all2_conv_all_nth nth_Cons'
    split: list.splits sum.splits)

lemma check_sprint_keeps [simp]: "keeps h (weapon_check_for_sprint h f p)"
  using hands_sprint_keeps [of "[h]" f "ucast (wh_weapon h)" p 0]
  by (auto simp: weapon_check_for_sprint_def list_all2_Cons1)

lemma advance_sprint_keeps [simp]: "keeps h (fst (weapon_advance_sprint h c))"
  by (simp add: weapon_advance_sprint_def)

lemma offhand_end_keeps [simp]: "keeps h (fst (weapon_offhand_end h c))"
  by (auto simp: weapon_offhand_end_def Let_def intro!: keepsI)

lemma cooked_off_keeps [simp]: "keeps h (fst (cooked_off h c))" "no_shot (snd (snd (cooked_off h c)))"
  by (simp_all add: cooked_off_def Let_def case_prod_unfold)

lemma grenade_throw_keeps [simp]:
  "keeps h (fst (weapon_update_grenade_throw h c))" "no_shot (snd (snd (weapon_update_grenade_throw h c)))"
  by (auto simp: weapon_update_grenade_throw_def Let_def split: option.split)

lemma enter_offhand_keeps [simp]: "keeps h (fst (weapon_enter_offhand h c))"
  by (auto simp: weapon_enter_offhand_def Let_def intro!: keepsI)

lemma offhand_prepare_keeps [simp]: "keeps h (fst (weapon_offhand_prepare h c))" "no_shot (snd (snd (weapon_offhand_prepare h c)))"
  by (auto simp: weapon_offhand_prepare_def Let_def intro!: keepsI)

lemma offhand_hold_keeps [simp]: "keeps h (fst (weapon_offhand_hold h c))"
  by (auto simp: weapon_offhand_hold_def intro!: keepsI)

lemma offhand_start_keeps: "weapon_offhand_start h c = Some (h', c') \<Longrightarrow> keeps h h'"
proof -
  have t: "keeps h (anim_if b e (h\<lparr>wh_weaponstate := ws OffhandStart, wh_weapon_time := t, wh_weapon_delay := d\<rparr>))"
    "keeps h (h\<lparr>wh_weapon_delay := d\<rparr>)" for b e t d
    by (auto intro!: keepsI)
  show "weapon_offhand_start h c = Some (h', c') \<Longrightarrow> keeps h h'"
    by (auto simp: weapon_offhand_start_def Let_def case_prod_unfold t split: if_splits option.splits bool.splits)
qed

lemma offhand_throw_keeps [simp]: "keeps h (fst (weapon_offhand_throw h c))" "no_shot (snd (snd (weapon_offhand_throw h c)))"
  by (simp_all add: weapon_offhand_throw_def Let_def)

lemma no_event_simps [simp]: "fst (no_event x) = fst x" "snd (snd (no_event x)) = None"
  by (simp_all add: no_event_def)

lemma advance_offhand_keeps:
  assumes "weapon_advance_offhand h c d = Some r"
  shows "keeps h (fst r)" and "no_shot (snd (snd r))"
proof -
  have s: "keeps h (fst x)" if "weapon_offhand_start h c = Some x" for x
    using offhand_start_keeps [of h c "fst x" "snd x"] that by simp
  have e: "keeps h x" if "weapon_offhand_end h c = (x, y)" for x y
    using offhand_end_keeps [of h c] that by simp
  show "keeps h (fst r)" "no_shot (snd (snd r))"
    using assms s e by (auto simp: weapon_advance_offhand_def Let_def split: if_splits option.splits bool.splits prod.splits)
qed

lemma check_offhand_keeps [simp]:
  "keeps h (fst (weapon_check_for_offhand h c))" "no_shot (snd (snd (weapon_check_for_offhand h c)))"
  by (simp_all add: weapon_check_for_offhand_def Let_def)

lemma begin_change_keeps [simp]:
  "keeps h (fst (begin_weapon_change h f w q p))" "no_shot (snd (begin_weapon_change h f w q p))"
  by (auto simp: begin_weapon_change_def Let_def intro!: keepsI)

lemma check_change_keeps [simp]:
  "keeps h (fst (weapon_check_for_change h f c))" "no_shot (snd (snd (weapon_check_for_change h f c)))"
proof -
  have s: "keeps x (anim 0x11 (x\<lparr>wh_weaponstate := ws DroppingAltswitch, wh_weapon_time := t\<rparr>))" "keeps x (anim 1 x)" for x t
    by (auto intro!: keepsI)
  show "keeps h (fst (weapon_check_for_change h f c))" "no_shot (snd (snd (weapon_check_for_change h f c)))"
    using keeps_trans [OF begin_change_keeps(1) s(1)] keeps_trans [OF settle_keeps(2) s(2)]
    by (auto simp: weapon_check_for_change_def Let_def case_prod_unfold)
qed

lemma finish_putaway_keeps [simp]: "keeps h (finish_putaway_while_holstered h)" "keeps h (finish_putaway_to_cmd h c)"
  by (auto simp: finish_putaway_to_cmd_def finish_putaway_while_holstered_def Let_def intro!: keepsI)

end
