(* ===== verification/Weapon_Tick.thy ===== *)
theory Weapon_Tick
  imports Weapon_Moves
begin

text \<open>
  One tick of a player's weapon (\<^verbatim>\<open>crates/weapon_iw4/src/tick.rs\<close>, \<^verbatim>\<open>start_firing_restrict_kick_time\<close> of
  \<^verbatim>\<open>kick.rs\<close>): timers run down, what interrupts the weapon goes first, then reloading, chambering and
  firing. \<open>weapon_hands\<close> does this for one or two hands, which share their stock.
\<close>

section \<open>Times and triggers\<close>

definition perk_fastreload_eligible :: "u32 \<Rightarrow> bool \<Rightarrow> bool" where
  "perk_fastreload_eligible perks0 inherits_perks \<longleftrightarrow> perks0 AND PERK_FASTRELOAD \<noteq> 0 \<and> inherits_perks"

definition get_weapon_fire_button :: "int32 \<Rightarrow> int32 \<Rightarrow> u32" where
  "get_weapon_fire_button last_weapon_hand hand_index = (let left = (hand_index \<noteq> 0) in
     if last_weapon_hand = 1 then (if left then BUTTON_ATTACK else BUTTON_THROW)
     else if left then BUTTON_THROW else BUTTON_ATTACK)"

definition weapon_time_adjust :: "WeaponHandState \<Rightarrow> WeaponCombatFacts \<Rightarrow> WeaponCmd \<Rightarrow> int32" where
  "weapon_time_adjust hand facts cmd =
     (let reload_family = (wh_weaponstate hand \<in> {0x8, 0x9, 0xa, 0xb, 0xc}) in
      if \<not> (reload_family \<and> perk_fastreload_eligible (wc_perks0 cmd) (wf_inherits_perks facts)) then wc_msec cmd
      else let multiplier = wc_perk_weap_reload_multiplier cmd in
        if f32_eq multiplier F32_ZERO then max (wh_weapon_time hand) (wh_weapon_delay hand)
        else i32_of_f32 (f32_add (f32_div (f32_of_i32 (wc_msec cmd)) multiplier) F32_HALF))"

definition ads_fire_only_delay_ms :: "f32 \<Rightarrow> f32 \<Rightarrow> int32" where
  "ads_fire_only_delay_ms frac ads_in_rate =
     (if f32_le ads_in_rate F32_ZERO then 0
      else let remaining = f32_max (f32_sub F32_ONE frac) F32_ZERO in i32_of_f32 (f32_div remaining ads_in_rate))"

definition start_firing_restrict_kick_time :: "f32 \<Rightarrow> int32 \<Rightarrow> int32 \<Rightarrow> int32 \<Rightarrow> int32 \<Rightarrow> int32" where
  "start_firing_restrict_kick_time frac ads_bullets hip_bullets fire_ms delay_ms =
     (let bullets = (if f32_eq frac F32_ONE then ads_bullets else hip_bullets)
      in saturate32 (saturate32 (bullets * fire_ms) + delay_ms))"

definition burst_pending :: "WeaponHandState \<Rightarrow> FireType \<Rightarrow> bool" where
  "burst_pending hand fire_ty = (case burst_limit fire_ty of
     Some lim \<Rightarrow> wh_shot_count hand > 0 \<and> wh_shot_count hand < lim | None \<Rightarrow> False)"

definition decay_timers :: "int32 \<Rightarrow> WeaponHandState \<Rightarrow> WeaponHandState" where
  "decay_timers msec hand =
     hand\<lparr>wh_weapon_time := decay (wh_weapon_time hand) msec, wh_weapon_delay := decay (wh_weapon_delay hand) msec\<rparr>"

definition decay_offhand_family_timers :: "WeaponHandState \<Rightarrow> int32 \<Rightarrow> WeaponHandState \<times> bool" where
  "decay_offhand_family_timers hand msec =
     (if \<not> in_offhand_family (wh_weaponstate hand) then (hand, False)
      else let t = (if wh_weapon_time hand > 0 then decay (wh_weapon_time hand) msec else wh_weapon_time hand);
               d = (if wh_weapon_delay hand > 0 then decay (wh_weapon_delay hand) msec else wh_weapon_delay hand)
           in (hand\<lparr>wh_weapon_time := t, wh_weapon_delay := d\<rparr>, wh_weapon_delay hand > 0 \<and> d = 0))"

section \<open>Chambering a round\<close>

definition weapon_finish_rechamber :: "WeaponHandState \<Rightarrow> int32 \<Rightarrow> WeaponHandState" where
  "weapon_finish_rechamber hand pm_type = (anim_continue ANIM_IDLE pm_type hand)\<lparr>wh_weaponstate := ws Ready\<rparr>"

definition weapon_check_for_rechamber :: "WeaponHandState \<Rightarrow> WeaponCombatFacts \<Rightarrow> WeaponCmd \<Rightarrow> bool
    \<Rightarrow> WeaponHandState \<times> WeaponTickEvent option" where
  "weapon_check_for_rechamber hand facts cmd delayed_action =
     (if \<not> wf_bolt_action facts then (hand, None)
      else let ejects = (delayed_action \<and> wh_rechamber_pending hand \<and> wh_weaponstate hand = ws Rechambering);
               hand = (if ejects then hand\<lparr>wh_rechamber_pending := False\<rparr> else hand);
               delayed_brass = (if ejects then Some EjectBrass else None)
           in if ejects \<and> wh_weapon_time hand \<noteq> 0 then (hand, delayed_brass)
              else if \<not> wh_rechamber_pending hand then
                (if wh_weaponstate hand = ws Rechambering \<and> wh_weapon_time hand = 0 \<and> wh_weapon_delay hand = 0
                 then weapon_finish_rechamber hand (wc_pm_type cmd) else hand, delayed_brass)
              else if wh_weaponstate hand \<noteq> ws Ready \<or> wh_weapon_time hand > 0 then (hand, None)
              else let rechamber = (if wc_last_weapon_hand cmd = 1 then wf_rechamber_bolt_time_ms facts else wf_rechamber_time_ms facts);
                       rechamber = (if rechamber > 0 then rechamber else 1);
                       bolt = wf_rechamber_bolt_delay_ms facts
                   in (hand\<lparr>wh_weaponstate := ws Rechambering, wh_weapon_time := rechamber,
                         wh_weapon_delay := (if bolt \<noteq> 0 \<and> bolt < rechamber then bolt else 1),
                         wh_weap_anim := set_rechamber_anim (wh_weap_anim hand) (f32_lt F32_ZERO (wc_f_weapon_pos_frac cmd))\<rparr>,
                       Some RechamberWeapon))"

definition weapon_decay_hold_interrupt :: "WeaponHandState \<Rightarrow> FireType \<Rightarrow> WeaponCmd \<Rightarrow> bool \<Rightarrow> WeaponHandState" where
  "weapon_decay_hold_interrupt hand fire_ty cmd attack =
     (let rechamber = (wh_weaponstate hand = ws Rechambering); firing = (wh_weaponstate hand = ws Firing) in
      if (firing \<and> is_burst fire_ty \<and> \<not> burst_pending hand fire_ty) \<or> (\<not> rechamber \<and> \<not> firing)
         \<or> \<not> shot_limit_reached fire_ty (wh_shot_count hand) \<or> \<not> attack
         \<or> ucast (wc_cmd_weapon cmd) \<noteq> wh_weapon hand \<or> wh_clip hand \<le> 0 then hand
      else let hand = hand\<lparr>wh_weapon_time := 1\<rparr> in
        if rechamber then weapon_finish_rechamber hand (wc_pm_type cmd)
        else (anim_continue ANIM_IDLE (wc_pm_type cmd) hand)\<lparr>wh_weaponstate := ws Ready\<rparr>)"

section \<open>Before the ordinary states\<close>

record OrdinaryWeaponTick =
  ot_fire_ty :: FireType
  ot_attack :: bool
  ot_was_attack :: bool
  ot_delayed_action :: bool

datatype PreparedWeaponTick = Complete "WeaponTickEvent option" | OrdinaryTick OrdinaryWeaponTick

text \<open>A weapon without a rate of fire only rises and uses the off hand.\<close>

definition prepare_unarmed :: "WeaponHandState \<Rightarrow> WeaponCmd \<Rightarrow> (WeaponHandState \<times> WeaponCmd \<times> PreparedWeaponTick) option" where
  "prepare_unarmed hand cmd =
     (let hand = (if is_ws (wh_weaponstate hand) {Raising, RaisingAltswitch} then
            (let hand = hand\<lparr>wh_weapon_time := decay (wh_weapon_time hand) (wc_msec cmd)\<rparr>
             in if wh_weapon_time hand = 0 then idle_ready hand (wc_pm_type cmd) else hand) else hand)
      in case decay_offhand_family_timers hand (wc_msec cmd) of (hand, delayed_action) \<Rightarrow>
         case weapon_check_for_offhand hand cmd of
           (hand, cmd, Some prepare) \<Rightarrow> Some (hand, cmd, Complete (Some prepare))
         | (hand, cmd, None) \<Rightarrow>
             map_option (\<lambda>(hand, cmd, event). (hand, cmd, Complete event)) (weapon_advance_offhand hand cmd delayed_action))"

definition fire_mask :: "FireType \<Rightarrow> bool \<Rightarrow> WeaponHandState \<Rightarrow> WeaponCmd \<Rightarrow> u32" where
  "fire_mask fire_ty has_detonator hand cmd =
     (if fire_ty = DoubleBarrel \<and> wc_last_weapon_hand cmd \<noteq> 1 then BUTTON_ATTACK OR BUTTON_THROW
      else if has_detonator then BUTTON_THROW
      else get_weapon_fire_button (wc_last_weapon_hand cmd) (uint (wh_hand_index hand)))"

text \<open>The timers of an ordinary tick, and whether the delay ran out in it.\<close>

definition run_down :: "WeaponHandState \<Rightarrow> WeaponCombatFacts \<Rightarrow> WeaponCmd \<Rightarrow> FireType \<Rightarrow> bool \<Rightarrow> WeaponHandState \<times> bool" where
  "run_down hand facts cmd fire_ty attack =
     (let time_before = wh_weapon_time hand;
          delay_before = wh_weapon_delay hand;
          decay_ms = weapon_time_adjust hand facts cmd;
          hand = (if wh_weapon_time hand > 0 then hand\<lparr>wh_weapon_time := decay (wh_weapon_time hand) decay_ms\<rparr> else hand);
          hand = (if time_before \<noteq> 0 \<and> wh_weapon_time hand < 1 \<and> wh_weapon_delay hand = 0
                  then weapon_decay_hold_interrupt hand fire_ty cmd attack else hand);
          hand = (if wh_weapon_delay hand > 0 then hand\<lparr>wh_weapon_delay := decay (wh_weapon_delay hand) decay_ms\<rparr> else hand);
          delayed_action = (delay_before > 0 \<and> wh_weapon_delay hand = 0);
          hand = (if wh_weapon_restrict_kick_time hand > 0
                  then hand\<lparr>wh_weapon_restrict_kick_time := decay (wh_weapon_restrict_kick_time hand) (wc_msec cmd)\<rparr> else hand)
      in (hand, delayed_action))"

text \<open>A weapon that fires: its detonator first, then the timers and the trigger.\<close>

definition prepare_armed :: "WeaponHandState \<Rightarrow> WeaponCombatFacts \<Rightarrow> WeaponCmd \<Rightarrow> FireType
    \<Rightarrow> WeaponHandState \<times> PreparedWeaponTick" where
  "prepare_armed hand facts cmd fire_ty =
     (let detonator = List.find (\<lambda>row. ir_weapon row = wh_weapon hand \<and> ir_has_detonator row) (oc_inventory (wc_offhand cmd)) in
      if wh_weaponstate hand = ws Detonating then
        (let before = wh_weapon_delay hand; hand = decay_timers (wc_msec cmd) hand in
         if before > 0 \<and> wh_weapon_delay hand = 0 then (hand, Complete (Some (Detonated (wh_weapon hand))))
         else (if wh_weapon_time hand = 0 then idle_ready hand (wc_pm_type cmd) else hand, Complete None))
      else if detonator \<noteq> None \<and> wh_weaponstate hand = ws Ready \<and> wc_buttons cmd AND BUTTON_ATTACK \<noteq> 0 then
        (anim ANIM_DETONATE (hand\<lparr>wh_weaponstate := ws Detonating,
           wh_weapon_time := max (ir_detonate_time_ms (the detonator)) 1,
           wh_weapon_delay := max (ir_detonate_delay_ms (the detonator)) 1\<rparr>), Complete None)
      else let mask = fire_mask fire_ty (detonator \<noteq> None) hand cmd;
               attack = (wc_buttons cmd AND mask \<noteq> 0);
               was_attack = (wc_old_buttons cmd AND mask \<noteq> 0);
               hand = (if is_single fire_ty \<and> \<not> attack then hand\<lparr>wh_shot_count := 0\<rparr> else hand)
           in case run_down hand facts cmd fire_ty attack of (hand, delayed_action) \<Rightarrow>
             (hand, OrdinaryTick \<lparr>ot_fire_ty = fire_ty, ot_attack = attack, ot_was_attack = was_attack,
                ot_delayed_action = delayed_action\<rparr>))"

definition prepare_weapon_tick :: "WeaponHandState \<Rightarrow> WeaponCombatFacts \<Rightarrow> WeaponCmd
    \<Rightarrow> (WeaponHandState \<times> WeaponCmd \<times> PreparedWeaponTick) option" where
  "prepare_weapon_tick hand facts cmd =
     (case weapon_update_grenade_throw hand cmd of
        (hand, cmd, Some cooked) \<Rightarrow> Some (hand, cmd, Complete (Some cooked))
      | (hand, cmd, None) \<Rightarrow>
        let cmd = (if wc_cmd_weapon cmd = 0 \<and> wh_weapon hand \<noteq> 0 then cmd\<lparr>wc_cmd_weapon := ucast (wh_weapon hand)\<rparr> else cmd) in
        if wf_fire_time_ms facts \<le> 0 \<and> wh_weapon hand \<noteq> 0 \<and> wf_weap_type facts \<noteq> WEAPTYPE_SHIELD then prepare_unarmed hand cmd
        else case ft_from_i32 (wf_fire_type facts) of
          Inl _ \<Rightarrow> Some (hand, cmd, Complete None)
        | Inr fire_ty \<Rightarrow> (case prepare_armed hand facts cmd fire_ty of (hand, prepared) \<Rightarrow> Some (hand, cmd, prepared)))"

section \<open>The ordinary states\<close>

text \<open>The states that run on their own timers.\<close>

definition dropping_step :: "WeaponHandState \<Rightarrow> WeaponCmd \<Rightarrow> WeaponTickEvent option \<Rightarrow> WeaponHandState \<times> WeaponTickEvent option" where
  "dropping_step hand cmd event =
     (if wh_weapon_time hand > 0 then (hand, event)
      else if traversal_forces_holster cmd then (finish_putaway_while_holstered hand, Some DropFinished)
      else let hand = finish_putaway_to_cmd hand cmd in
        (hand, if event \<noteq> Some AlternateStarted then (if wh_weapon hand \<noteq> 0 then Some RaiseStarted else Some DropFinished) else event))"

definition firing_step :: "WeaponHandState \<Rightarrow> WeaponCombatFacts \<Rightarrow> WeaponCmd \<Rightarrow> OrdinaryWeaponTick \<Rightarrow> WeaponHandState" where
  "firing_step hand facts cmd tick =
     (if \<not> (wh_weapon_time hand \<le> 0 \<and> wh_weapon_delay hand \<le> 0 \<and> \<not> ot_delayed_action tick) then hand
      else if is_burst (ot_fire_ty tick) then
        (if burst_pending hand (ot_fire_ty tick) then hand
         else (anim_continue ANIM_IDLE (wc_pm_type cmd) hand)\<lparr>wh_weaponstate := ws Ready,
                wh_weapon_time := max (wf_burst_cooldown_ms facts) 1, wh_shot_count := 0\<rparr>)
      else (if \<not> ot_attack tick \<and> \<not> wh_burst_latch hand then anim_continue ANIM_IDLE (wc_pm_type cmd) hand else hand)
             \<lparr>wh_weaponstate := ws Ready\<rparr>)"

definition reload_start_step :: "WeaponHandState \<Rightarrow> WeaponCombatFacts \<Rightarrow> WeaponCmd \<Rightarrow> OrdinaryWeaponTick \<Rightarrow> WeaponTickEvent option
    \<Rightarrow> WeaponHandState \<times> WeaponTickEvent option" where
  "reload_start_step hand facts cmd tick event =
     (if \<not> (wh_weapon_time hand \<le> 0 \<and> wh_weapon_delay hand \<le> 0) then (hand, event)
      else let hand = (if wf_segmented_reload facts \<and> ot_attack tick then hand\<lparr>wh_weaponstate := ws ReloadStartInterrupt\<rparr> else hand);
               interrupt_with_shells = (wh_weaponstate hand = ws ReloadStartInterrupt \<and> wh_clip hand > 0)
           in if interrupt_with_shells \<or> \<not> weapon_allow_reload hand facts then begin_reload_end hand facts (wc_pm_type cmd)
              else begin_reload_loop hand facts (wc_pm_type cmd))"

definition reloading_step :: "WeaponHandState \<Rightarrow> WeaponCombatFacts \<Rightarrow> WeaponCmd \<Rightarrow> OrdinaryWeaponTick \<Rightarrow> WeaponTickEvent option
    \<Rightarrow> WeaponHandState \<times> WeaponTickEvent option" where
  "reloading_step hand facts cmd tick event =
     (if \<not> (wh_weapon_time hand \<le> 0 \<and> wh_weapon_delay hand \<le> 0) then (hand, event)
      else if wf_segmented_reload facts then
        (let hand = (if ot_attack tick then hand\<lparr>wh_weaponstate := ws ReloadingInterrupt\<rparr> else hand)
         in if wh_weaponstate hand = ws ReloadingInterrupt \<or> \<not> weapon_allow_reload hand facts
            then begin_reload_end hand facts (wc_pm_type cmd)
            else begin_reload_loop hand facts (wc_pm_type cmd))
      else (idle_ready (hand\<lparr>wh_weapon_delay := 0, wh_rechamber_pending := False\<rparr>) (wc_pm_type cmd), event))"

definition state_step :: "WeaponHandState \<Rightarrow> WeaponCombatFacts \<Rightarrow> WeaponCmd \<Rightarrow> OrdinaryWeaponTick \<Rightarrow> WeaponTickEvent option
    \<Rightarrow> hand_step option" where
  "state_step hand facts cmd tick event =
     (let s = wh_weaponstate hand; pair = (\<lambda>(h, e). Some (h, cmd, e)) in
      if is_ws s {Raising, RaisingAltswitch} then
        (if wh_weapon_time hand \<le> 0 then pair (idle_ready hand (wc_pm_type cmd), Some RaiseFinished) else pair (hand, event))
      else if is_ws s {Dropping, DroppingQuick, DroppingAltswitch} then pair (dropping_step hand cmd event)
      else if is_ws s {Firing} then pair (firing_step hand facts cmd tick, event)
      else if is_ws s {ReloadStart, ReloadStartInterrupt} then pair (reload_start_step hand facts cmd tick event)
      else if is_ws s {Reloading, ReloadingInterrupt} then pair (reloading_step hand facts cmd tick event)
      else if is_ws s {ReloadEnd} then pair (if wh_weapon_time hand \<le> 0 then idle_ready hand (wc_pm_type cmd) else hand, event)
      else if is_ws s {OffhandInit, OffhandPrepare, OffhandHold, OffhandStart, Offhand, OffhandEnd} then
        weapon_advance_offhand hand cmd (ot_delayed_action tick)
      else pair (hand, event))"

section \<open>Firing\<close>

definition fire_trigger :: "FireType \<Rightarrow> bool \<Rightarrow> WeaponHandState \<Rightarrow> bool \<Rightarrow> bool \<Rightarrow> bool" where
  "fire_trigger fire_ty attack hand pending delayed_fire =
     (if fire_ty = FullAuto then attack \<or> delayed_fire
      else if fire_ty \<in> {SingleShot, DoubleBarrel} then (attack \<and> wh_shot_count hand = 0) \<or> delayed_fire
      else attack \<or> pending \<or> delayed_fire)"

definition dry_fire :: "WeaponHandState \<Rightarrow> WeaponCombatFacts \<Rightarrow> WeaponCmd \<Rightarrow> hand_step" where
  "dry_fire hand facts cmd =
     (let hand = hand\<lparr>wh_shot_count := 0\<rparr>; (reloading, begun) = begin_weapon_reload hand facts in
      if wh_stock hand > 0 \<and> begun then (reloading, cmd, Some ReloadStarted)
      else let hand = anim_continue ANIM_IDLE (wc_pm_type cmd) (if wh_stock hand > 0 then reloading else hand) in
        if wf_weap_type facts \<noteq> WEAPTYPE_GRENADE then
          (hand\<lparr>wh_weapon_time := wrap32 (wh_weapon_time hand + CHECK_FIRING_AMMO_DRY_FIRE_MS)\<rparr>, cmd,
           if wf_clip_size facts > 0 then Some EmptyClick else None)
        else (hand, cmd, None))"

definition start_shot :: "WeaponHandState \<Rightarrow> WeaponCombatFacts \<Rightarrow> WeaponCmd \<Rightarrow> FireType \<Rightarrow> bool \<Rightarrow> WeaponHandState" where
  "start_shot hand facts cmd fire_ty ready_idle =
     (let hand = (if ready_idle then hand\<lparr>wh_weapon_restrict_kick_time := start_firing_restrict_kick_time (wc_f_weapon_pos_frac cmd)
             (wf_ads_gun_kick_reduced_kick_bullets facts) (wf_hip_gun_kick_reduced_kick_bullets facts)
             (wf_fire_time_ms facts) (wf_fire_delay_ms facts)\<rparr> else hand);
          hand = hand\<lparr>wh_weaponstate := ws Firing, wh_weapon_time := max (wf_fire_time_ms facts) 1\<rparr>;
          hand = (if wf_ads_fire_only facts then
                    (let rate = (if wc_perks0 cmd AND PERK_QUICKDRAW \<noteq> 0
                                 then f32_mul (wf_ads_in_rate facts) PERK_QUICKDRAW_SPEED_SCALE else wf_ads_in_rate facts)
                     in hand\<lparr>wh_weapon_delay := ads_fire_only_delay_ms (wc_f_weapon_pos_frac cmd) rate\<rparr>)
                  else if wf_fire_delay_ms facts > 0 then hand\<lparr>wh_weapon_delay := wf_fire_delay_ms facts\<rparr> else hand)
      in if is_full_auto fire_ty then hand
         else (if is_burst fire_ty \<and> wh_shot_count hand = 0 then hand\<lparr>wh_burst_latch := False\<rparr> else hand)
                \<lparr>wh_shot_count := min (if wh_shot_count hand = 0xff then 0xff else wh_shot_count hand + 1) 4\<rparr>)"

definition fire_shot :: "WeaponHandState \<Rightarrow> WeaponCombatFacts \<Rightarrow> WeaponCmd \<Rightarrow> FireType \<Rightarrow> hand_step" where
  "fire_shot hand facts cmd fire_ty =
     (if fire_weapon_kind (wf_weap_type facts) (wf_weap_class facts) = None then (hand, cmd, Some EmptyClick)
      else let both = BUTTON_ATTACK OR BUTTON_THROW;
               double = (fire_ty = DoubleBarrel \<and> wc_last_weapon_hand cmd \<noteq> 1 \<and> wc_buttons cmd AND both = both \<and> wh_clip hand > 1);
               cmd = cmd\<lparr>wc_weap_flags := (wc_weap_flags cmd AND NOT 0x200) OR (if double then 0x200 else 0)\<rparr>;
               used = min (if double then 2 else ammo_per_shot facts) (wh_clip hand);
               hand = hand\<lparr>wh_clip := wrap32 (wh_clip hand - used)\<rparr>;
               hand = (if wf_bolt_action facts then hand\<lparr>wh_rechamber_pending := True\<rparr> else hand)
           in (hand\<lparr>wh_weap_anim := set_fps_fire_anim (wh_weap_anim hand) (f32_lt F32_ZERO (wc_f_weapon_pos_frac cmd)) (wh_clip hand \<le> 0)\<rparr>,
               cmd, Some (ShotAccepted used)))"

text \<open>The weapon fires, clicks or reloads: the event it returns, or nothing and the tick goes on.\<close>

definition firing_attempt :: "WeaponHandState \<Rightarrow> WeaponCombatFacts \<Rightarrow> WeaponCmd \<Rightarrow> OrdinaryWeaponTick
    \<Rightarrow> WeaponHandState \<times> WeaponCmd \<times> WeaponTickEvent option option" where
  "firing_attempt hand facts cmd tick =
     (let fire_ty = ot_fire_ty tick;
          pending = burst_pending hand fire_ty;
          ready_idle = (wh_weaponstate hand = ws Ready \<and> wh_weapon_time hand \<le> 0);
          mid_burst_continue = (wh_weaponstate hand = ws Firing \<and> wh_weapon_time hand \<le> 0 \<and> pending);
          delayed_fire = (ot_delayed_action tick \<and> wh_weaponstate hand = ws Firing \<and> wh_weapon_delay hand = 0);
          returns = (\<lambda>(h, c, e). (h, c, Some e))
      in if \<not> ((ready_idle \<or> mid_burst_continue \<or> delayed_fire)
               \<and> fire_trigger fire_ty (ot_attack tick) hand pending delayed_fire \<and> \<not> wf_fire_melees facts) then (hand, cmd, None)
         else if wh_clip hand \<le> 0 then returns (dry_fire hand facts cmd)
         else if delayed_fire then returns (fire_shot hand facts cmd fire_ty)
         else let hand = start_shot hand facts cmd fire_ty ready_idle in
           if wh_weapon_delay hand \<noteq> 0 then returns (hand, cmd, None) else returns (fire_shot hand facts cmd fire_ty))"

section \<open>A tick of one hand\<close>

text \<open>From the states on: what the reload credited is reported when nothing else happens.\<close>

definition act_weapon_tick :: "WeaponHandState \<Rightarrow> WeaponCombatFacts \<Rightarrow> WeaponCmd \<Rightarrow> OrdinaryWeaponTick \<Rightarrow> WeaponTickEvent option
    \<Rightarrow> ReloadDelayedOutcome \<Rightarrow> hand_step option" where
  "act_weapon_tick hand facts cmd tick event delayed =
     (if isl (ws_from_i32 (wh_weaponstate hand)) then Some (hand, cmd, None)
      else case state_step hand facts cmd tick event of None \<Rightarrow> None
      | Some (hand, cmd, event) \<Rightarrow>
        case (if event = None then weapon_check_for_rechamber hand facts cmd (ot_delayed_action tick) else (hand, event)) of
          (hand, Some e) \<Rightarrow> Some (hand, cmd, Some e)
        | (hand, None) \<Rightarrow>
          case firing_attempt hand facts cmd tick of
            (hand, cmd, Some e) \<Rightarrow> Some (hand, cmd, e)
          | (hand, cmd, None) \<Rightarrow> Some (hand, cmd,
              if ro_rechamber_event delayed then Some RechamberWeapon
              else if ro_shells delayed > 0 then Some (ReloadAmmoAdded (ro_shells delayed)) else None))"

definition reload_or_act :: "WeaponHandState \<Rightarrow> WeaponCombatFacts \<Rightarrow> WeaponCmd \<Rightarrow> OrdinaryWeaponTick \<Rightarrow> WeaponTickEvent option
    \<Rightarrow> ReloadDelayedOutcome \<Rightarrow> hand_step option" where
  "reload_or_act hand facts cmd tick event delayed =
     (let reload = (wc_buttons cmd AND BUTTON_RELOAD \<noteq> 0);
          wants = weapon_process_input_wants_reload hand facts reload (wc_pm_flags cmd);
          (reloading, begun) = begin_weapon_reload hand facts
      in if wants \<and> begun then Some (reloading, cmd, Some ReloadStarted)
         else act_weapon_tick (if wants then reloading else hand) facts cmd tick event delayed)"

definition finish_weapon_tick :: "WeaponHandState \<Rightarrow> WeaponCombatFacts \<Rightarrow> WeaponCmd \<Rightarrow> OrdinaryWeaponTick \<Rightarrow> hand_step option" where
  "finish_weapon_tick hand facts cmd tick =
     (case weapon_advance_sprint hand cmd of (hand, cmd) \<Rightarrow>
      case weapon_advance_melee hand (melee_facts facts) cmd (ot_delayed_action tick) of
        (hand, cmd, Some melee) \<Rightarrow> Some (hand, cmd, Some melee)
      | (hand, cmd, None) \<Rightarrow>
        case weapon_check_for_offhand hand cmd of
          (hand, cmd, Some prepare) \<Rightarrow> Some (hand, cmd, Some prepare)
        | (hand, cmd, None) \<Rightarrow>
          case weapon_check_for_change hand facts cmd of (hand, cmd, event) \<Rightarrow>
          case weapon_reload_delayed_action hand facts (ot_delayed_action tick) of (hand, delayed) \<Rightarrow>
          let hand = hand\<lparr>wh_delayed_rechamber := ro_rechamber_event delayed\<rparr>;
              hand = (if is_burst (ot_fire_ty tick) \<and> ot_attack tick \<and> \<not> ot_was_attack tick then hand\<lparr>wh_burst_latch := True\<rparr> else hand)
          in reload_or_act hand facts cmd tick event delayed)"

definition weapon_ordinary :: "WeaponHandState \<Rightarrow> WeaponCombatFacts \<Rightarrow> WeaponCmd \<Rightarrow> hand_step option" where
  "weapon_ordinary hand facts cmd =
     (case prepare_weapon_tick hand facts cmd of None \<Rightarrow> None
      | Some (hand, cmd, Complete event) \<Rightarrow> Some (hand, cmd, event)
      | Some (hand, cmd, OrdinaryTick tick) \<Rightarrow>
          finish_weapon_tick (weapon_check_for_sprint hand facts (wc_pm_flags cmd)) facts cmd tick)"

section \<open>A tick of both hands\<close>

definition set_stunned_state :: "WeaponState \<Rightarrow> int32 \<Rightarrow> int32 \<Rightarrow> WeaponHandState \<Rightarrow> WeaponHandState" where
  "set_stunned_state state time pm_type hand =
     anim_if (pm_type < 8) (as_u32 (ws state)) (hand\<lparr>wh_weaponstate := ws state, wh_weapon_time := time, wh_weapon_delay := 0\<rparr>)"

definition check_stunned :: "WeaponHandState list \<Rightarrow> WeaponCombatFacts \<Rightarrow> WeaponCmd \<Rightarrow> WeaponHandState list \<times> WeaponState option" where
  "check_stunned hands facts cmd =
     (case hands of [] \<Rightarrow> (hands, None) | primary # _ \<Rightarrow>
        let s = wh_weaponstate primary;
            active = (wc_server_time cmd \<le> wc_stun_time cmd);
            ongoing = (s = 26 \<or> s = 27)
        in if wc_cmd_weapon cmd = 0 \<or> (1 \<le> s \<and> s \<le> 5) \<or> (16 \<le> s \<and> s \<le> 21) \<or> (29 \<le> s \<and> s \<le> 30) then (hands, None)
           else if active \<and> \<not> ongoing then
             (map (set_stunned_state StunnedStart (wf_stunned_start_time_ms facts) (wc_pm_type cmd)) hands, Some StunnedStart)
           else if \<not> active \<and> ongoing then
             (map (set_stunned_state StunnedEnd (wf_stunned_end_time_ms facts) (wc_pm_type cmd)) hands, Some StunnedEnd)
           else (hands, None))"

definition stunned_tick :: "WeaponCmd \<Rightarrow> bool \<Rightarrow> WeaponHandState \<Rightarrow> WeaponHandState" where
  "stunned_tick cmd transition hand =
     (let hand = (if transition then hand else decay_timers (wc_msec cmd) hand);
          hand = hand\<lparr>wh_weapon_restrict_kick_time := decay (wh_weapon_restrict_kick_time hand) (wc_msec cmd)\<rparr>
      in if wh_weapon_time hand = 0 \<and> wh_weapon_delay hand = 0 then
           (if is_ws (wh_weaponstate hand) {StunnedStart} then set_stunned_state StunnedLoop 0 (wc_pm_type cmd) hand
            else if is_ws (wh_weaponstate hand) {StunnedEnd} then idle_ready hand (wc_pm_type cmd)
            else hand)
         else hand)"

definition melee_buttons :: "WeaponCombatFacts \<Rightarrow> u32 \<Rightarrow> u32" where
  "melee_buttons facts buttons = (if wf_fire_melees facts \<and> buttons AND BUTTON_ATTACK \<noteq> 0 then buttons OR BUTTON_MELEE else buttons)"

fun prepare_hands :: "nat \<Rightarrow> WeaponHandState list \<Rightarrow> WeaponCombatFacts \<Rightarrow> WeaponCmd
    \<Rightarrow> ((WeaponHandState \<times> PreparedWeaponTick) list \<times> WeaponCmd) option" where
  "prepare_hands i [] facts cmd = Some ([], cmd)"
| "prepare_hands i (hand # hands) facts cmd =
     (case prepare_weapon_tick (hand\<lparr>wh_hand_index := of_nat i\<rparr>) facts cmd of None \<Rightarrow> None
      | Some (h, c, p) \<Rightarrow> map_option (\<lambda>(hps, c). ((h, p) # hps, c)) (prepare_hands (Suc i) hands facts c))"

fun finish_hands :: "(WeaponHandState \<times> PreparedWeaponTick) list \<Rightarrow> WeaponCombatFacts \<Rightarrow> WeaponCmd
    \<Rightarrow> ((WeaponHandState \<times> WeaponTickEvent option) list \<times> WeaponCmd) option" where
  "finish_hands [] facts cmd = Some ([], cmd)"
| "finish_hands ((hand, prepared) # hps) facts cmd =
     (case (case prepared of Complete event \<Rightarrow> Some (hand, cmd, event) | OrdinaryTick tick \<Rightarrow> finish_weapon_tick hand facts cmd tick) of
        None \<Rightarrow> None
      | Some (h, c, e) \<Rightarrow> map_option (\<lambda>(hes, c). ((h, e) # hes, c)) (finish_hands hps facts c))"

definition share_stock :: "WeaponHandState list \<Rightarrow> WeaponHandState list" where
  "share_stock hands = (case hands of
     h0 # h1 # rest \<Rightarrow> (let stock = min (wh_stock h0) (wh_stock h1) in h0\<lparr>wh_stock := stock\<rparr> # h1\<lparr>wh_stock := stock\<rparr> # rest)
   | _ \<Rightarrow> hands)"

text \<open>The first \<open>n\<close> hands are prepared, then all sprint or none does, then each finishes its tick.\<close>

definition act_hands :: "nat \<Rightarrow> WeaponHandState list \<Rightarrow> WeaponCombatFacts \<Rightarrow> WeaponCmd
    \<Rightarrow> (WeaponHandState list \<times> WeaponCmd \<times> WeaponTickEvent option list) option" where
  "act_hands n hands facts cmd =
     (case prepare_hands 0 (take n hands) facts cmd of None \<Rightarrow> None
      | Some (prepared, cmd) \<Rightarrow>
        let ready = map fst prepared;
            ready = (if list_all (\<lambda>p. case snd p of OrdinaryTick _ \<Rightarrow> True | Complete _ \<Rightarrow> False) prepared
                     then weapon_check_hands_for_sprint ready facts (wc_cmd_weapon cmd) (wc_pm_flags cmd) (wc_perks1 cmd) else ready)
        in case finish_hands (zip ready (map snd prepared)) facts cmd of None \<Rightarrow> None
        | Some (acted, cmd) \<Rightarrow>
          Some ((if n > 1 then share_stock (map fst acted) else map fst acted) @ drop n hands, cmd, map snd acted))"

text \<open>The events of the hands in use; the slots of the others stay empty.\<close>

definition weapon_hands :: "WeaponHandState list \<Rightarrow> WeaponCombatFacts \<Rightarrow> WeaponCmd \<Rightarrow> int32
    \<Rightarrow> (WeaponHandState list \<times> WeaponCmd \<times> WeaponTickEvent option list) option" where
  "weapon_hands hands facts cmd last_hand =
     (let n = hand_count hands last_hand in
      case check_stunned (take n hands) facts cmd of (active, transition) \<Rightarrow>
      let started = (transition = Some StunnedStart) in
      if started \<or> list_ex (\<lambda>hand. 26 \<le> wh_weaponstate hand \<and> wh_weaponstate hand \<le> 28) active then
        Some (map (stunned_tick cmd (transition \<noteq> None)) active @ drop n hands, cmd, if started then [Some StunnedStarted] else [])
      else let charge = (wc_melee_charge cmd)\<lparr>mc_pm_flags := wc_pm_flags cmd, mc_pm_type := wc_pm_type cmd, mc_e_flags := wc_e_flags cmd\<rparr> in
        case weapon_try_melee (active @ drop n hands) (melee_facts facts) (melee_buttons facts (wc_buttons cmd))
            (melee_buttons facts (wc_old_buttons cmd)) (wc_f_weapon_pos_frac cmd) (wc_last_weapon_hand cmd) charge
            (wc_melee_charge_yaw cmd) (wc_melee_charge_dist cmd) (wc_is_in_air cmd) (wc_player_melee_range cmd) of (hands, charge, melee) \<Rightarrow>
        act_hands n hands facts (cmd\<lparr>wc_melee_charge := charge, wc_melee_started := melee, wc_pm_flags := mc_pm_flags charge\<rparr>))"

section \<open>Hands of a new player\<close>

definition spawn_clip_stock :: "WeaponCombatFacts \<Rightarrow> int32 \<Rightarrow> int32 \<times> int32 \<times> int32" where
  "spawn_clip_stock facts last_hand =
     (let total = max (wf_start_ammo facts) 0; mag = max (wf_clip_size facts) 0;
          clip0 = (if mag > 0 then min total mag else 0);
          rest = max (wrap32 (total - clip0)) 0;
          clip1 = (if last_hand \<ge> 1 \<and> mag > 0 then min rest mag else 0);
          stock = max (wrap32 (rest - clip1)) 0
      in (clip0, clip1, stock))"

definition spawn_weapon_hand :: "u32 \<Rightarrow> WeaponCombatFacts \<Rightarrow> bool \<Rightarrow> WeaponHandState" where
  "spawn_weapon_hand weapon facts first =
     (let total = max (wf_start_ammo facts) 0;
          clip = (if wf_clip_size facts > 0 then min total (wf_clip_size facts) else 0);
          stock = max (wrap32 (total - clip)) 0;
          first = (first \<and> wf_first_raise_time_ms facts > 0);
          raise = (if first then wf_first_raise_time_ms facts else max (wf_raise_time_ms facts) 0)
      in \<lparr>wh_weapon = weapon, wh_weaponstate = (if raise > 0 then ws Raising else ws Ready), wh_weapon_time = raise,
          wh_weapon_delay = 0,
          wh_weap_anim = (if raise > 0 then start_weapon_anim 0 (if first then ANIM_FIRST_RAISE else ANIM_RAISE) else 0),
          wh_hand_index = 0, wh_clip = clip, wh_stock = stock, wh_shot_count = 0, wh_burst_latch = False,
          wh_rechamber_pending = False, wh_delayed_rechamber = False, wh_weapon_restrict_kick_time = 0,
          wh_quick_reload = (wf_dual_mag facts \<noteq> None)\<rparr>)"

section \<open>Samples\<close>

text \<open>
  A pistol, a command that presses \<open>buttons\<close> for \<open>msec\<close> milliseconds, a hand that holds it, empty, and a
  hand about to load its magazine.
\<close>

definition pistol :: WeaponCombatFacts where
  "pistol = no_facts\<lparr>wf_fire_time_ms := 100, wf_clip_size := 15, wf_start_ammo := 50, wf_reload_time_ms := 2000, wf_fire_type := 1\<rparr>"

definition plain_cmd :: "u32 \<Rightarrow> int32 \<Rightarrow> WeaponCmd" where
  "plain_cmd buttons msec = \<lparr>wc_msec = msec, wc_server_time = 1, wc_stun_time = 0, wc_buttons = buttons, wc_old_buttons = 0,
     wc_cmd_weapon = 7, wc_pm_flags = 0, wc_weap_flags = 0, wc_pm_type = 0, wc_e_flags = 0, wc_last_weapon_hand = 0,
     wc_f_weapon_pos_frac = F32_ZERO, wc_melee_charge_yaw = F32_ZERO, wc_melee_charge_dist = 0, wc_player_melee_range = 0x42800000,
     wc_is_in_air = False,
     wc_melee_charge = \<lparr>mc_pm_flags = 0, mc_pm_type = 0, mc_e_flags = 0, mc_melee_charge_yaw = F32_ZERO, mc_melee_charge_dist = 0,
       mc_melee_charge_time = 0\<rparr>,
     wc_melee_started = None, wc_mantle_weapon_inactive = False, wc_mantle_quick_raise = False, wc_cmd_weapon_owned = True,
     wc_cmd_weapon_pistol_quick = False, wc_switch_raise_time_ms = 0, wc_switch_alternate_raise_time_ms = 0,
     wc_alternate_switch = False, wc_switch_quick_raise_time_ms = 0, wc_switch_first_raise_time_ms = 0,
     wc_offhand = \<lparr>oc_inventory = [], oc_offhand_primary = 0, oc_offhand_secondary = 0, oc_cmd_off_hand_index = 0,
       oc_cmd_off_hand_owned = False, oc_cursor_hint_ent = CURSOR_HINT_NONE, oc_held_quick_drop_time_ms = 0,
       oc_off_hand_index = 0, oc_grenade_time_left = 0\<rparr>,
     wc_perks0 = 0, wc_perks1 = 0, wc_perk_weap_reload_multiplier = F32_HALF\<rparr>"

definition empty_hand :: "int32 \<Rightarrow> WeaponHandState" where
  "empty_hand stock = (spawn_weapon_hand 7 pistol False)\<lparr>wh_clip := 0, wh_stock := stock\<rparr>"

definition loading_hand :: "int32 \<Rightarrow> WeaponHandState" where
  "loading_hand stock = (empty_hand stock)\<lparr>wh_weaponstate := ws Reloading, wh_weapon_time := 50, wh_weapon_delay := 50\<rparr>"

end
