(* ===== verification/Weapon_Properties.thy ===== *)
theory Weapon_Properties
  imports Weapon_Tick
begin

text \<open>
  What a tick does to a player's rounds, states and shots, proved step by step for one hand and
  composed for one and for two hands.
\<close>

section \<open>Rounds accounted for\<close>

definition fired :: "WeaponTickEvent option \<Rightarrow> int" where
  "fired e = (case e of Some (ShotAccepted n) \<Rightarrow> n | _ \<Rightarrow> 0)"

definition accounts :: "WeaponCombatFacts \<Rightarrow> WeaponHandState \<Rightarrow> WeaponHandState \<Rightarrow> WeaponTickEvent option \<Rightarrow> bool" where
  "accounts facts h h' e \<longleftrightarrow> rounds_ok facts h' \<and> wh_stock h' \<le> wh_stock h
     \<and> wh_clip h' + wh_stock h' = wh_clip h + wh_stock h - fired e
     \<and> (known_state h \<longrightarrow> known_state h') \<and> (wh_shot_count h \<le> 4 \<longrightarrow> wh_shot_count h' \<le> 4)
     \<and> (no_shot e \<or> fired e \<in> {1, 2})"

lemma fired_no_shot [simp]: "no_shot e \<Longrightarrow> fired e = 0"
  by (auto simp: no_shot_def fired_def split: option.split WeaponTickEvent.split)

lemma keeps_rounds_ok: "keeps h h' \<Longrightarrow> rounds_ok facts h' = rounds_ok facts h"
  by (simp add: keeps_def same_rounds_ok)

lemma keeps_accounts: "keeps h h' \<Longrightarrow> rounds_ok facts h \<Longrightarrow> no_shot e \<Longrightarrow> accounts facts h h' e"
  by (simp add: accounts_def keeps_rounds_ok) (auto simp: keeps_def same_rounds_def)

lemma keeps_then_accounts: "keeps a b \<Longrightarrow> accounts facts b c e \<Longrightarrow> accounts facts a c e"
  by (auto simp: accounts_def keeps_def same_rounds_def)

lemma moved_then_accounts:
  "moved_rounds n a b \<Longrightarrow> 0 \<le> n \<Longrightarrow> wh_weaponstate b = wh_weaponstate a \<Longrightarrow> wh_shot_count b = wh_shot_count a \<Longrightarrow>
   accounts facts b c e \<Longrightarrow> accounts facts a c e"
  by (simp add: accounts_def moved_rounds_def known_state_def)

lemma keeps_with_index: "keeps h (h\<lparr>wh_hand_index := i\<rparr>)" "keeps h (h\<lparr>wh_delayed_rechamber := b\<rparr>)" "keeps h (h\<lparr>wh_burst_latch := b\<rparr>)"
  "keeps h (h\<lparr>wh_weapon_time := t\<rparr>)" "keeps h (h\<lparr>wh_weapon_delay := t\<rparr>)" "keeps h (h\<lparr>wh_weapon_restrict_kick_time := t\<rparr>)"
  "keeps h (h\<lparr>wh_shot_count := 0\<rparr>)" "keeps h (h\<lparr>wh_weap_anim := t\<rparr>)" "keeps h (h\<lparr>wh_rechamber_pending := b\<rparr>)"
  by (auto intro!: keepsI)

lemma keeps_anim [simp]: "keeps h (anim e h)" "keeps h (anim_if b e h)" "keeps h (anim_continue e p h)" "keeps h (idle_ready h p)"
  by (auto intro!: keepsI)

lemma keeps_state: "keeps h (h\<lparr>wh_weaponstate := ws s\<rparr>)"
  by (auto intro!: keepsI)

section \<open>Steps before the ordinary states\<close>

lemma finish_rechamber_keeps [simp]: "keeps h (weapon_finish_rechamber h p)"
  by (auto simp: weapon_finish_rechamber_def intro!: keepsI)

lemma check_rechamber_keeps [simp]:
  "keeps h (fst (weapon_check_for_rechamber h f c d))" "no_shot (snd (weapon_check_for_rechamber h f c d))"
  by (auto simp: weapon_check_for_rechamber_def Let_def keeps_with_index weapon_finish_rechamber_def intro!: keepsI)

lemma hold_interrupt_keeps [simp]: "keeps h (weapon_decay_hold_interrupt h t c a)"
  by (auto simp: weapon_decay_hold_interrupt_def Let_def weapon_finish_rechamber_def intro!: keepsI)

lemma decay_timers_keeps [simp]: "keeps h (decay_timers m h)"
  by (auto simp: decay_timers_def intro!: keepsI)

lemma decay_offhand_keeps [simp]: "keeps h (fst (decay_offhand_family_timers h m))"
  by (auto simp: decay_offhand_family_timers_def Let_def intro!: keepsI)

lemma run_down_keeps [simp]: "keeps h (fst (run_down h f c t a))"
proof -
  have if_keeps: "keeps h g \<Longrightarrow> (\<And>x. keeps x (u x)) \<Longrightarrow> keeps h (if b then u g else g)" for g b u
    by (auto intro: keeps_trans)
  show ?thesis unfolding run_down_def Let_def fst_conv
    by (intro if_keeps) (auto intro: keeps_with_index)
qed

lemma prepare_unarmed_keeps:
  assumes "prepare_unarmed h c = Some (h', c', p)"
  shows "keeps h h' \<and> (\<exists>e. p = Complete e \<and> no_shot e)"
proof -
  define g where "g = (if is_ws (wh_weaponstate h) {Raising, RaisingAltswitch} then
            (let hand = h\<lparr>wh_weapon_time := decay (wh_weapon_time h) (wc_msec c)\<rparr>
             in if wh_weapon_time hand = 0 then idle_ready hand (wc_pm_type c) else hand) else h)"
  have g: "keeps h g" by (auto simp: g_def Let_def keeps_with_index intro!: keepsI)
  obtain k d where k: "decay_offhand_family_timers g (wc_msec c) = (k, d)" by fastforce
  have "keeps h k" using keeps_trans [OF g decay_offhand_keeps, of "wc_msec c"] by (simp add: k)
  obtain m u e where m: "weapon_check_for_offhand k c = (m, u, e)" by (cases "weapon_check_for_offhand k c")
  have hm: "keeps h m" and e: "no_shot e"
    using keeps_trans [OF \<open>keeps h k\<close> check_offhand_keeps(1), of c] check_offhand_keeps(2) [of k c] by (simp_all add: m)
  have p: "(case e of None \<Rightarrow> map_option (\<lambda>(h, c, e). (h, c, Complete e)) (weapon_advance_offhand m u d)
      | Some x \<Rightarrow> Some (m, u, Complete (Some x))) = Some (h', c', p)"
    using assms unfolding prepare_unarmed_def g_def [symmetric] Let_def [of "if _ then _ else _"]
    by (simp add: k m Let_def split: option.splits)
  show ?thesis
  proof (cases e)
    case None
    then obtain r where r: "weapon_advance_offhand m u d = Some r" "h' = fst r" "p = Complete (snd (snd r))"
      using p by (auto simp: case_prod_unfold)
    then show ?thesis using advance_offhand_keeps [OF r(1)] hm by (auto intro: keeps_trans)
  next
    case (Some x)
    then show ?thesis using p hm e by auto
  qed
qed

lemma prepare_armed_keeps:
  "keeps h (fst (prepare_armed h facts c t))" "snd (prepare_armed h facts c t) = Complete e \<Longrightarrow> no_shot e"
proof -
  have one: "keeps h (fst (run_down (h\<lparr>wh_shot_count := 0\<rparr>) facts c t a))" for a
    by (rule keeps_trans [OF keeps_with_index(7) run_down_keeps])
  have two: "keeps h (anim w (h\<lparr>wh_weaponstate := ws s, wh_weapon_time := t, wh_weapon_delay := d\<rparr>))" for w s t d
    by (auto intro!: keepsI)
  have three: "keeps h (idle_ready (decay_timers m h) q)" for m q by (rule keeps_trans [OF decay_timers_keeps keeps_anim(4)])
  show "keeps h (fst (prepare_armed h facts c t))"
    unfolding prepare_armed_def Let_def by (simp add: case_prod_unfold one two three)
  show "snd (prepare_armed h facts c t) = Complete e \<Longrightarrow> no_shot e"
    unfolding prepare_armed_def Let_def by (auto simp: case_prod_unfold split: if_splits)
qed

lemma prepare_keeps:
  assumes "prepare_weapon_tick h facts c = Some (h', c', p)"
  shows "keeps h h' \<and> (\<forall>e. p = Complete e \<longrightarrow> no_shot e)"
proof -
  obtain k d e where k: "weapon_update_grenade_throw h c = (k, d, e)" by (cases "weapon_update_grenade_throw h c")
  have hk: "keeps h k" and e: "no_shot e" using grenade_throw_keeps [of h c] by (simp_all add: k)
  have armed: "keeps h (fst (prepare_armed k facts d' t))" for d' t by (rule keeps_trans [OF hk prepare_armed_keeps(1)])
  have unarmed: "keeps h h' \<and> (\<forall>e. p = Complete e \<longrightarrow> no_shot e)" if "prepare_unarmed k d' = Some (h', c', p)" for d'
    using prepare_unarmed_keeps [OF that] hk by (auto intro: keeps_trans)
  show ?thesis
    using assms e hk unarmed armed
    unfolding prepare_weapon_tick_def k Let_def
    by (auto simp: case_prod_unfold split: option.splits sum.splits if_splits dest: prepare_armed_keeps(2))
qed

section \<open>The ordinary states\<close>

lemma begin_reload_keeps [simp]:
  "keeps h (fst (begin_weapon_reload h f))" "keeps h (fst (begin_reload_loop h f p))" "keeps h (fst (begin_reload_end h f p))"
  using begin_reload_states begin_weapon_reload_shots [of h f]
  by (simp_all add: keeps_def same_rounds_def)

lemma begin_reload_no_shot [simp]: "no_shot (snd (begin_reload_end h f p))" "no_shot (snd (begin_reload_loop h f p))"
  by (simp_all add: begin_reload_end_def Let_def)

lemma dropping_keeps [simp]: "keeps h (fst (dropping_step h c e))" "no_shot e \<Longrightarrow> no_shot (snd (dropping_step h c e))"
  by (simp_all add: dropping_step_def Let_def)

lemma firing_keeps [simp]: "keeps h (firing_step h f c t)"
  by (auto simp: firing_step_def intro!: keepsI)

lemma reload_steps_keep [simp]:
  "keeps h (fst (reload_start_step h f c t e))" "no_shot e \<Longrightarrow> no_shot (snd (reload_start_step h f c t e))"
  "keeps h (fst (reloading_step h f c t e))" "no_shot e \<Longrightarrow> no_shot (snd (reloading_step h f c t e))"
proof -
  have i: "keeps h (fst (begin_reload_end (h\<lparr>wh_weaponstate := ws s\<rparr>) f p))"
    "keeps h (fst (begin_reload_loop (h\<lparr>wh_weaponstate := ws s\<rparr>) f p))" for s p
    by (rule keeps_trans [OF keeps_state begin_reload_keeps(3)], rule keeps_trans [OF keeps_state begin_reload_keeps(2)])
  have r: "keeps h (idle_ready (h\<lparr>wh_weapon_delay := 0, wh_rechamber_pending := False\<rparr>) p)" for p by (auto intro!: keepsI)
  show "keeps h (fst (reload_start_step h f c t e))" "no_shot e \<Longrightarrow> no_shot (snd (reload_start_step h f c t e))"
    "keeps h (fst (reloading_step h f c t e))" "no_shot e \<Longrightarrow> no_shot (snd (reloading_step h f c t e))"
    by (simp_all add: reload_start_step_def reloading_step_def Let_def i r)
qed

lemma state_step_keeps:
  assumes "state_step h f c t e = Some (h', c', e')" and "no_shot e"
  shows "keeps h h' \<and> no_shot e'"
proof -
  have o: "keeps h h' \<and> no_shot e'" if "weapon_advance_offhand h c (ot_delayed_action t) = Some (h', c', e')"
    using advance_offhand_keeps [OF that] by simp
  show ?thesis
    using assms o
    by (auto simp: state_step_def Let_def case_prod_unfold split: if_splits)
qed

section \<open>Firing\<close>

lemma dry_fire_keeps: "keeps h (fst (dry_fire h f c)) \<and> no_shot (snd (snd (dry_fire h f c)))"
proof -
  let ?h = "h\<lparr>wh_shot_count := 0\<rparr>"
  have r: "keeps h (fst (begin_weapon_reload ?h f))" by (rule keeps_trans [OF keeps_with_index(7) begin_reload_keeps(1)])
  have a: "keeps h (anim_continue e p ?h)" "keeps h (anim_continue e p (fst (begin_weapon_reload ?h f)))" for e p
    by (rule keeps_trans [OF keeps_with_index(7) keeps_anim(3)], rule keeps_trans [OF r keeps_anim(3)])
  note b = keeps_trans [OF a(1) keeps_with_index(4)] keeps_trans [OF a(2) keeps_with_index(4)]
  show ?thesis by (simp add: dry_fire_def Let_def case_prod_unfold a b r)
qed

lemma start_shot_keeps [simp]: "keeps h (start_shot h f c t r)"
proof -
  have "min x 4 \<le> (4 :: u8)" for x by simp
  then show ?thesis by (auto simp: start_shot_def Let_def keeps_def same_rounds_def known_state_def)
qed

lemma fire_shot_accounts:
  assumes "rounds_ok f h" and "0 < wh_clip h"
  shows "accounts f h (fst (fire_shot h f c t)) (snd (snd (fire_shot h f c t)))"
proof -
  have "wrap32 (wh_clip h - m) = wh_clip h - m" if "0 \<le> m" "m \<le> wh_clip h" for m
    using assms that by (intro wrap32_id) (auto simp: rounds_ok_def i32_ok_def)
  with assms show ?thesis
    by (auto simp: fire_shot_def Let_def accounts_def rounds_ok_def fired_def ammo_per_shot_def known_state_def)
qed

lemma firing_attempt_accounts:
  assumes "rounds_ok f h" and "firing_attempt h f c t = (h', c', r)"
  shows "(case r of None \<Rightarrow> h' = h | Some e \<Rightarrow> accounts f h h' e)"
proof -
  have dry: "accounts f h (fst (dry_fire h f c)) (snd (snd (dry_fire h f c)))"
    using dry_fire_keeps [of h f c] assms(1) by (simp add: keeps_accounts)
  have start: "accounts f h (start_shot h f c u b) None" for u b
    using assms(1) by (simp add: keeps_accounts)
  have shot: "accounts f h (fst (fire_shot (start_shot h f c u b) f c u)) (snd (snd (fire_shot (start_shot h f c u b) f c u)))"
    if "0 < wh_clip h" for u b
  proof (rule keeps_then_accounts [OF start_shot_keeps fire_shot_accounts])
    show "rounds_ok f (start_shot h f c u b)" using assms(1) keeps_rounds_ok [OF start_shot_keeps] by blast
    show "0 < wh_clip (start_shot h f c u b)" using start_shot_keeps [of h f c u b] that by (simp add: keeps_def same_rounds_def)
  qed
  show ?thesis
    using assms dry start shot fire_shot_accounts [of f h]
    by (auto simp: firing_attempt_def Let_def case_prod_unfold split: if_splits)
qed

section \<open>A tick of one hand\<close>

lemma act_accounts:
  assumes "rounds_ok f h" and "no_shot e" and "act_weapon_tick h f c t e d = Some (h', c', e')"
  shows "accounts f h h' e'"
proof (cases "isl (ws_from_i32 (wh_weaponstate h))")
  case True
  then show ?thesis using assms by (auto simp: act_weapon_tick_def keeps_accounts)
next
  case False
  then obtain k u s where k: "state_step h f c t e = Some (k, u, s)"
    using assms(3) by (auto simp: act_weapon_tick_def split: option.splits)
  have hk: "keeps h k" "no_shot s" using state_step_keeps [OF k assms(2)] by auto
  obtain m x where m: "(if s = None then weapon_check_for_rechamber k f u (ot_delayed_action t) else (k, s)) = (m, x)"
    by fastforce
  have km: "keeps h m" "no_shot x"
    using hk check_rechamber_keeps [of k f u "ot_delayed_action t"] keeps_trans [OF hk(1) check_rechamber_keeps(1), of f u "ot_delayed_action t"] m
    by (auto split: if_splits simp del: check_rechamber_keeps)
  have ok: "rounds_ok f m" using assms(1) keeps_rounds_ok [OF km(1)] by blast
  show ?thesis
  proof (cases x)
    case (Some y)
    then have "h' = m" "e' = x" using assms(3) False by (simp_all add: act_weapon_tick_def k m)
    then show ?thesis using km assms(1) by (simp add: keeps_accounts)
  next
    case None
    obtain a b r where a: "firing_attempt m f u t = (a, b, r)" by (cases "firing_attempt m f u t")
    have "h' = a \<and> (case r of Some x \<Rightarrow> e' = x | None \<Rightarrow> no_shot e')"
      using assms(3) False None by (auto simp: act_weapon_tick_def k m a split: option.splits)
    moreover have "case r of None \<Rightarrow> a = m | Some x \<Rightarrow> accounts f m a x" by (rule firing_attempt_accounts [OF ok a])
    ultimately show ?thesis using km assms(1)
      by (auto simp: keeps_accounts intro: keeps_then_accounts split: option.splits)
  qed
qed

lemma reload_or_act_accounts:
  assumes "rounds_ok f g" and "no_shot e" and "reload_or_act g f c t e d = Some (h', c', e')"
  shows "accounts f g h' e'"
proof -
  obtain r b where r: "begin_weapon_reload g f = (r, b)" by fastforce
  have k: "keeps g r" using begin_reload_keeps(1) [of g f] by (simp add: r)
  then have ok: "rounds_ok f r" using assms(1) keeps_rounds_ok by blast
  have "h' = r \<and> e' = Some ReloadStarted \<or> act_weapon_tick r f c t e d = Some (h', c', e') \<or> act_weapon_tick g f c t e d = Some (h', c', e')"
    using assms(3) by (auto simp: reload_or_act_def r Let_def split: if_splits)
  then show ?thesis
    using act_accounts [OF assms(1,2)] keeps_then_accounts [OF k act_accounts [OF ok assms(2)]] keeps_accounts [OF k assms(1)] by auto
qed

lemma finish_accounts:
  assumes "rounds_ok f h" and "finish_weapon_tick h f c t = Some (h', c', e')"
  shows "accounts f h h' e'"
proof -
  obtain h1 c1 where s1: "weapon_advance_sprint h c = (h1, c1)" by fastforce
  have k1: "keeps h h1" using advance_sprint_keeps [of h c] by (simp add: s1)
  obtain h2 c2 e2 where s2: "weapon_advance_melee h1 (melee_facts f) c1 (ot_delayed_action t) = (h2, c2, e2)"
    by (metis prod.collapse)
  have k2: "keeps h h2" "no_shot e2"
    using keeps_trans [OF k1 advance_melee_keeps(1), of "melee_facts f" c1 "ot_delayed_action t"]
      advance_melee_keeps(2) [of h1 "melee_facts f" c1 "ot_delayed_action t"] s2 by (simp_all del: advance_melee_keeps)
  obtain h3 c3 e3 where s3: "weapon_check_for_offhand h2 c2 = (h3, c3, e3)" by (metis prod.collapse)
  have k3: "keeps h h3" "no_shot e3"
    using keeps_trans [OF k2(1) check_offhand_keeps(1), of c2] check_offhand_keeps(2) [of h2 c2] s3 by (simp_all del: check_offhand_keeps)
  obtain h4 c4 e4 where s4: "weapon_check_for_change h3 f c3 = (h4, c4, e4)" by (metis prod.collapse)
  have k4: "keeps h h4" "no_shot e4"
    using keeps_trans [OF k3(1) check_change_keeps(1), of f c3] check_change_keeps(2) [of h3 f c3] s4 by (simp_all del: check_change_keeps)
  obtain h5 d where s5: "weapon_reload_delayed_action h4 f (ot_delayed_action t) = (h5, d)" by fastforce
  have "rounds_ok f h4" using assms(1) keeps_rounds_ok [OF k4(1)] by blast
  note m5 = delayed_moves [OF this s5]
  define g where "g = (let hand = h5\<lparr>wh_delayed_rechamber := ro_rechamber_event d\<rparr>
    in if is_burst (ot_fire_ty t) \<and> ot_attack t \<and> \<not> ot_was_attack t then hand\<lparr>wh_burst_latch := True\<rparr> else hand)"
  have g: "keeps h5 g" by (auto simp: g_def Let_def intro!: keepsI)
  then have gok: "rounds_ok f g" using m5 keeps_rounds_ok by blast
  have rest: "accounts f h h' e'" if "accounts f g h' e'"
    using m5 by (intro keeps_then_accounts [OF k4(1)] moved_then_accounts [of "ro_shells d" h4 h5] keeps_then_accounts [OF g that]) auto
  show ?thesis
  proof (cases "e2 = None \<and> e3 = None")
    case True
    then have "reload_or_act g f c4 t e4 d = Some (h', c', e')"
      using assms(2) by (simp add: finish_weapon_tick_def s1 s2 s3 s4 s5 g_def Let_def)
    then have "accounts f g h' e'" by (rule reload_or_act_accounts [OF gok k4(2)])
    then show ?thesis by (rule rest)
  next
    case False
    then have "keeps h h' \<and> no_shot e'"
      using assms(2) k2 k3 by (auto simp: finish_weapon_tick_def s1 s2 s3 split: option.splits)
    then show ?thesis using assms(1) by (simp add: keeps_accounts)
  qed
qed

section \<open>A tick of both hands\<close>

text \<open>Hands pairwise: what came of each hand of a list.\<close>

lemma prepare_hands_keeps:
  assumes "prepare_hands i hs f c = Some (hps, c')"
  shows "list_all2 (\<lambda>h (h', p). keeps h h' \<and> (\<forall>e. p = Complete e \<longrightarrow> no_shot e)) hs hps"
  using assms
proof (induction hs arbitrary: i c hps)
  case (Cons h hs)
  obtain h' c1 p where p: "prepare_weapon_tick (h\<lparr>wh_hand_index := of_nat i\<rparr>) f c = Some (h', c1, p)"
    using Cons.prems by (auto split: option.splits)
  then obtain r where r: "prepare_hands (Suc i) hs f c1 = Some (r, c')" "hps = (h', p) # r"
    using Cons.prems by auto
  show ?case using prepare_keeps [OF p] Cons.IH [OF r(1)] r(2) keeps_trans [OF keeps_with_index(1)] by auto
qed simp

lemma finish_hands_accounts:
  assumes "finish_hands hps f c = Some (hes, c')" and "list_all (\<lambda>(h, p). rounds_ok f h \<and> (\<forall>e. p = Complete e \<longrightarrow> no_shot e)) hps"
  shows "list_all2 (\<lambda>(h, p) (h', e). accounts f h h' e) hps hes"
  using assms
proof (induction hps f c arbitrary: hes rule: finish_hands.induct)
  case (2 h p hps f c)
  obtain h' c1 e where s: "(case p of Complete event \<Rightarrow> Some (h, c, event) | OrdinaryTick tick \<Rightarrow> finish_weapon_tick h f c tick) = Some (h', c1, e)"
    using "2.prems"(1) by (auto split: option.splits)
  then obtain r where r: "finish_hands hps f c1 = Some (r, c')" "hes = (h', e) # r"
    using "2.prems"(1) by (auto)
  have "accounts f h h' e" using s "2.prems"(2)
    by (cases p) (auto simp: keeps_accounts finish_accounts)
  moreover have "list_all2 (\<lambda>(h, p) (h', e). accounts f h h' e) hps r"
    using "2.IH" [OF s _ _ r(1)] "2.prems"(2) by auto
  ultimately show ?case by (simp add: r(2))
qed simp

lemma set_stunned_keeps [simp]: "keeps h (set_stunned_state s t p h)"
  by (auto simp: set_stunned_state_def intro!: keepsI)

lemma stunned_tick_keeps [simp]: "keeps h (stunned_tick c b h)"
proof -
  define g where "g = (if b then h else decay_timers (wc_msec c) h)"
  have "keeps h g" by (simp add: g_def)
  then have g: "keeps h (g\<lparr>wh_weapon_restrict_kick_time := t\<rparr>)" for t by (rule keeps_trans [OF _ keeps_with_index(6)])
  show ?thesis unfolding stunned_tick_def Let_def g_def [symmetric]
    using g keeps_trans [OF g set_stunned_keeps] keeps_trans [OF g keeps_anim(4)] by simp
qed

lemma check_stunned_keeps: "list_all2 keeps hs (fst (check_stunned hs f c))"
proof -
  have "list_all2 keeps hs hs" "list_all2 keeps hs (map (set_stunned_state s t p) hs)" for s t p
    by (simp_all add: list_all2_conv_all_nth)
  then show ?thesis by (cases hs) (simp_all add: check_stunned_def Let_def)
qed

lemma keeps_all_trans: "list_all2 keeps xs ys \<Longrightarrow> list_all2 keeps ys zs \<Longrightarrow> list_all2 keeps xs zs"
  by (rule list_all2_trans [OF keeps_trans])

text \<open>The events of the hands in use; a hand without a slot has none.\<close>

definition event_of :: "WeaponTickEvent option list \<Rightarrow> nat \<Rightarrow> WeaponTickEvent option" where
  "event_of es i = (if i < length es then es ! i else None)"

lemma accounts_all:
  assumes "list_all2 keeps hs gs" and "list_all (rounds_ok f) hs" and "finish_hands (zip gs ps) f c = Some (hes, c')"
    and "length ps = length gs" and "list_all (\<lambda>p. \<forall>e. p = Complete e \<longrightarrow> no_shot e) ps"
  shows "length hes = length hs" and "\<And>i. i < length hs \<Longrightarrow> accounts f (hs ! i) (map fst hes ! i) (event_of (map snd hes) i)"
proof -
  have len: "length gs = length hs" using assms(1) by (simp add: list_all2_lengthD)
  have "list_all (\<lambda>(h, p). rounds_ok f h \<and> (\<forall>e. p = Complete e \<longrightarrow> no_shot e)) (zip gs ps)"
    using assms(1,2,4,5) by (auto simp: list_all_length list_all2_conv_all_nth keeps_rounds_ok)
  note a = finish_hands_accounts [OF assms(3) this]
  show l: "length hes = length hs" using list_all2_lengthD [OF a] assms(4) len by simp
  fix i
  assume i: "i < length hs"
  have "accounts f (gs ! i) (fst (hes ! i)) (snd (hes ! i))"
    using list_all2_nthD [OF a, of i] i assms(4) len by (auto simp: case_prod_unfold)
  moreover have "keeps (hs ! i) (gs ! i)" using assms(1) i by (simp add: list_all2_conv_all_nth)
  ultimately show "accounts f (hs ! i) (map fst hes ! i) (event_of (map snd hes) i)"
    using keeps_then_accounts i l by (auto simp: event_of_def)
qed

lemma prepare_hands_parts:
  assumes "prepare_hands i hs f c = Some (ps, c')"
  shows "list_all2 keeps hs (map fst ps)" and "list_all (\<lambda>p. \<forall>e. p = Complete e \<longrightarrow> no_shot e) (map snd ps)"
  using prepare_hands_keeps [OF assms] by (auto simp: list_all2_conv_all_nth list_all_length case_prod_unfold)

lemma act_hands_accounts:
  assumes "act_hands n gs f c = Some (hs', c', es)" and "list_all2 keeps hs (take n gs)" and "list_all (rounds_ok f) hs" and "n \<le> length gs"
  obtains acted where "length acted = n" and "\<And>i. i < n \<Longrightarrow> accounts f (hs ! i) (acted ! i) (event_of es i)"
    and "take n hs' = (if n > 1 then share_stock acted else acted)" and "length hs' = length gs"
proof -
  obtain ps c2 where p: "prepare_hands 0 (take n gs) f c = Some (ps, c2)"
    using assms(1) by (auto simp: act_hands_def split: option.splits)
  define ready where "ready = (if list_all (\<lambda>p. case snd p of OrdinaryTick _ \<Rightarrow> True | Complete _ \<Rightarrow> False) ps
     then weapon_check_hands_for_sprint (map fst ps) f (wc_cmd_weapon c2) (wc_pm_flags c2) (wc_perks1 c2) else map fst ps)"
  obtain dn where d: "finish_hands (zip ready (map snd ps)) f c2 = Some (dn, c')" "es = map snd dn"
    "hs' = (if n > 1 then share_stock (map fst dn) else map fst dn) @ drop n gs"
    using assms(1) by (auto simp: act_hands_def p Let_def ready_def split: option.splits)
  note kp = prepare_hands_parts [OF p]
  have kr: "list_all2 keeps hs ready"
    using keeps_all_trans [OF assms(2) kp(1)] keeps_all_trans [OF keeps_all_trans [OF assms(2) kp(1)] hands_sprint_keeps]
    by (simp add: ready_def)
  have lr: "length (map snd ps) = length ready" "length hs = n"
    using list_all2_lengthD [OF kp(1)] list_all2_lengthD [OF kr] list_all2_lengthD [OF assms(2)] assms(4) by simp_all
  note acc = accounts_all [OF kr assms(3) d(1) lr(1) kp(2)]
  have lt: "length (map fst dn) = n" using acc(1) lr(2) by simp
  have "length (share_stock (map fst dn)) = n" using lt by (auto simp: share_stock_def Let_def split: list.splits)
  then show ?thesis using lt acc(2) d(2) lr(2) assms(4) by (intro that [of "map fst dn"]) (auto simp: d(3))
qed

lemma weapon_hands_accounts:
  assumes "weapon_hands hs f c last_hand = Some (hs', c', es)" and "list_all (rounds_ok f) hs" and "n = hand_count hs last_hand"
  obtains acted where "length acted = n" and "\<And>i. i < n \<Longrightarrow> accounts f (hs ! i) (acted ! i) (event_of es i)"
    and "take n hs' = acted \<and> (1 < n \<longrightarrow> (\<forall>i<n. same_rounds (hs ! i) (acted ! i))) \<or> 1 < n \<and> take n hs' = share_stock acted"
    and "length hs' = length hs"
proof -
  have n: "n \<le> length hs" using assms(3) by (simp add: hand_count_def)
  obtain active tr where st: "check_stunned (take n hs) f c = (active, tr)" by fastforce
  have ka: "list_all2 keeps (take n hs) active" using check_stunned_keeps [of "take n hs" f c] by (simp add: st)
  then have la: "length active = n" using n by (auto dest: list_all2_lengthD)
  have ok: "list_all (rounds_ok f) (take n hs)" using assms(2) by (auto simp: list_all_iff dest: in_set_takeD)
  show ?thesis
  proof (cases "tr = Some StunnedStart \<or> list_ex (\<lambda>hand. 26 \<le> wh_weaponstate hand \<and> wh_weaponstate hand \<le> 28) active")
    case True
    let ?acted = "map (stunned_tick c (tr \<noteq> None)) active"
    have hs': "hs' = ?acted @ drop n hs" and es: "no_shot (event_of es i)" for i
      using assms(1,3) st True by (auto simp: weapon_hands_def Let_def event_of_def split: if_splits)
    have k: "keeps (hs ! i) (?acted ! i)" if "i < n" for i
      using that ka la n by (auto simp: list_all2_conv_all_nth intro: keeps_trans [OF _ stunned_tick_keeps])
    have a: "accounts f (hs ! i) (?acted ! i) (event_of es i)" if "i < n" for i
      using k [OF that] es ok that n by (intro keeps_accounts) (auto simp: list_all_length)
    have "same_rounds (hs ! i) (?acted ! i)" if "i < n" for i using k [OF that] by (simp add: keeps_def)
    then show ?thesis using a la n by (intro that [of ?acted]) (simp_all add: hs')
  next
    case False
    define charge where "charge = (wc_melee_charge c)\<lparr>mc_pm_flags := wc_pm_flags c, mc_pm_type := wc_pm_type c, mc_e_flags := wc_e_flags c\<rparr>"
    obtain hs2 ch m where tm: "weapon_try_melee (active @ drop n hs) (melee_facts f) (melee_buttons f (wc_buttons c))
            (melee_buttons f (wc_old_buttons c)) (wc_f_weapon_pos_frac c) (wc_last_weapon_hand c) charge
            (wc_melee_charge_yaw c) (wc_melee_charge_dist c) (wc_is_in_air c) (wc_player_melee_range c) = (hs2, ch, m)"
      by (metis prod.collapse)
    have km: "list_all2 keeps (active @ drop n hs) hs2" by (rule try_melee_keeps [OF tm])
    then have l2: "length hs2 = length hs" using la n by (auto dest: list_all2_lengthD)
    have kt: "list_all2 keeps (take n hs) (take n hs2)"
      using keeps_all_trans [OF ka] list_all2_takeI [OF km, of n] la by simp
    have "act_hands n hs2 f (c\<lparr>wc_melee_charge := ch, wc_melee_started := m, wc_pm_flags := mc_pm_flags ch\<rparr>) = Some (hs', c', es)"
      using assms(1) False unfolding weapon_hands_def assms(3) [symmetric] Let_def st prod.case
      by (simp add: tm [unfolded charge_def])
    moreover have "n \<le> length hs2" using n l2 by simp
    ultimately obtain acted where "length acted = n" and "\<And>i. i < n \<Longrightarrow> accounts f (take n hs ! i) (acted ! i) (event_of es i)"
      and "take n hs' = (if n > 1 then share_stock acted else acted)" and "length hs' = length hs2"
      using act_hands_accounts [OF _ kt ok] by metis
    then show ?thesis using l2 by (intro that [of acted]) (simp_all split: if_splits)
  qed
qed

section \<open>A hand over many ticks\<close>








section \<open>Two hands\<close>

text \<open>
  C32. What a tick does to a weapon held in two hands, whose magazines are filled from one stock. Each
  magazine gains the rounds its hand loads and loses those it fires. The stock loses only the larger
  of the two loads.
\<close>

theorem two_hands_rounds:
  assumes "rounds_ok facts right" and "rounds_ok facts left" and "wh_stock right = stock" and "wh_stock left = stock"
    and "weapon_hands [right, left] facts cmd 1 = Some (hands, cmd', events)"
  shows "\<exists>right' left' m n. hands = [right', left'] \<and> 0 \<le> m \<and> m \<le> stock \<and> 0 \<le> n \<and> n \<le> stock
    \<and> wh_clip right' = wh_clip right + m - fired (event_of events 0)
    \<and> wh_clip left' = wh_clip left + n - fired (event_of events 1)
    \<and> wh_stock right' = stock - max m n \<and> wh_stock left' = stock - max m n"
proof -
  have n: "2 = hand_count [right, left] 1" by (simp add: hand_count_def)
  have ok: "list_all (rounds_ok facts) [right, left]" using assms(1,2) by simp
  obtain acted where a: "length acted = 2" "\<And>i. i < 2 \<Longrightarrow> accounts facts ([right, left] ! i) (acted ! i) (event_of events i)"
    "take 2 hands = acted \<and> (1 < (2::nat) \<longrightarrow> (\<forall>i<2. same_rounds ([right, left] ! i) (acted ! i))) \<or> 1 < (2::nat) \<and> take 2 hands = share_stock acted"
    "length hands = length [right, left]"
    by (rule weapon_hands_accounts [OF assms(5) ok n]) blast
  then obtain r l where rl: "acted = [r, l]" by (auto simp: numeral_2_eq_2 length_Suc_conv)
  have r: "accounts facts right r (event_of events 0)" and l: "accounts facts left l (event_of events 1)"
    using a(2) [of 0] a(2) [of 1] by (simp_all add: rl)
  have "hands = acted \<and> same_rounds right r \<and> same_rounds left l \<or> hands = share_stock acted"
    using a(3,4) by (auto simp: rl numeral_2_eq_2 less_Suc_eq all_conj_distrib)
  moreover have "0 \<le> stock" "0 \<le> wh_stock r" "0 \<le> wh_stock l" "wh_stock r \<le> stock" "wh_stock l \<le> stock"
    "wh_clip r + wh_stock r = wh_clip right + stock - fired (event_of events 0)"
    "wh_clip l + wh_stock l = wh_clip left + stock - fired (event_of events 1)"
    using r l assms(1,3,4) by (simp_all add: accounts_def rounds_ok_def)
  ultimately show ?thesis
  proof (elim disjE conjE)
    assume "hands = acted" "same_rounds right r" "same_rounds left l"
      "wh_clip r + wh_stock r = wh_clip right + stock - fired (event_of events 0)"
      "wh_clip l + wh_stock l = wh_clip left + stock - fired (event_of events 1)" "0 \<le> stock"
    then show ?thesis using assms(3,4)
      by (intro exI [of _ r] exI [of _ l] exI [of _ "0::int"]) (simp add: rl same_rounds_def)
  next
    let ?s = "min (wh_stock r) (wh_stock l)"
    assume *: "hands = share_stock acted" "0 \<le> wh_stock r" "0 \<le> wh_stock l" "wh_stock r \<le> stock" "wh_stock l \<le> stock"
      "wh_clip r + wh_stock r = wh_clip right + stock - fired (event_of events 0)"
      "wh_clip l + wh_stock l = wh_clip left + stock - fired (event_of events 1)"
    have "hands = [r\<lparr>wh_stock := ?s\<rparr>, l\<lparr>wh_stock := ?s\<rparr>]" using * by (simp add: rl share_stock_def Let_def)
    moreover have "?s = stock - max (stock - wh_stock r) (stock - wh_stock l)" by (simp add: max_def min_def)
    ultimately show ?thesis using * by (intro exI [of _ "r\<lparr>wh_stock := ?s\<rparr>"] exI [of _ "l\<lparr>wh_stock := ?s\<rparr>"]
        exI [of _ "stock - wh_stock r"] exI [of _ "stock - wh_stock l"]) simp
  qed
qed

theorem two_hands_rounds_witness:
  "\<exists>hands cmd' events m n. weapon_hands [empty_hand 20, loading_hand 20] pistol (plain_cmd 0 50) 1 = Some (hands, cmd', events)
    \<and> map wh_clip hands = [0 + m - fired (event_of events 0), 0 + n - fired (event_of events 1)]
    \<and> map wh_stock hands = [20 - max m n, 20 - max m n] \<and> map wh_stock hands = [5, 5]"
proof -
  have p: "map_option (\<lambda>(hands, _). map wh_stock hands) (weapon_hands [empty_hand 20, loading_hand 20] pistol (plain_cmd 0 50) 1) = Some [5, 5]"
    by code_simp
  then obtain hands cmd' events where r: "weapon_hands [empty_hand 20, loading_hand 20] pistol (plain_cmd 0 50) 1 = Some (hands, cmd', events)"
    "map wh_stock hands = [5, 5]" by auto
  have "rounds_ok pistol (empty_hand 20)" "rounds_ok pistol (loading_hand 20)" by code_simp+
  moreover have "wh_stock (empty_hand 20) = 20" "wh_stock (loading_hand 20) = 20" "wh_clip (empty_hand 20) = 0" "wh_clip (loading_hand 20) = 0"
    by (simp_all add: empty_hand_def loading_hand_def)
  ultimately show ?thesis using two_hands_rounds [OF _ _ _ _ r(1), of 20] r by fastforce
qed

end
