(* ===== verification/Weapon_Play.thy ===== *)
theory Weapon_Play
  imports Weapon_Properties
begin

text \<open>
  Playing a weapon: a tick returns, an undisturbed reload ends with a full magazine, and two hands that
  reload together take one stock twice.
\<close>

section \<open>Panics\<close>

text \<open>The one panic of a tick asks an inventory row whether holding can be cancelled.\<close>

definition cancel_known :: "WeaponCmd \<Rightarrow> bool" where
  "cancel_known cmd \<longleftrightarrow> list_all (\<lambda>r. ir_offhand_hold_is_cancelable r \<noteq> None) (oc_inventory (wc_offhand cmd))"

lemma spend_row_known:
  "list_all (\<lambda>r. ir_offhand_hold_is_cancelable r \<noteq> None) (spend_row w rows) = list_all (\<lambda>r. ir_offhand_hold_is_cancelable r \<noteq> None) rows"
  by (induction rows) auto

lemma cancel_known_simps [simp]:
  "cancel_known (settle_cmd c) = cancel_known c"
  "cancel_known (set_grenade_time t c) = cancel_known c"
  "cancel_known (set_off_hand_index i c) = cancel_known c"
  "cancel_known (set_weap_flag f c) = cancel_known c"
  "cancel_known (spend_offhand_inventory_round c w) = cancel_known c"
  "cancel_known (c\<lparr>wc_weap_flags := f\<rparr>) = cancel_known c"
  "cancel_known (c\<lparr>wc_cmd_weapon := v\<rparr>) = cancel_known c"
  "cancel_known (c\<lparr>wc_pm_flags := f\<rparr>) = cancel_known c"
  "cancel_known (c\<lparr>wc_melee_charge := m\<rparr>) = cancel_known c"
  "cancel_known (c\<lparr>wc_melee_started := s\<rparr>) = cancel_known c"
  by (simp_all add: cancel_known_def settle_cmd_def set_grenade_time_def set_off_hand_index_def set_weap_flag_def with_offhand_def
      spend_offhand_inventory_round_def spend_row_known del: not_None_eq)















section \<open>Reloading undisturbed\<close>

text \<open>
  A command that presses nothing, or only the reload button, of a player who keeps the weapon, stands
  freely and is not stunned.
\<close>

definition quiet :: "WeaponHandState \<Rightarrow> WeaponCmd \<Rightarrow> bool" where
  "quiet h c \<longleftrightarrow> wc_buttons c \<in> {0, BUTTON_RELOAD} \<and> wc_old_buttons c AND (BUTTON_MELEE OR BUTTON_FRAG OR BUTTON_SMOKE) = 0
     \<and> wc_cmd_weapon c \<noteq> 0 \<and> ucast (wc_cmd_weapon c) = wh_weapon h \<and> wc_pm_flags c = 0
     \<and> wc_stun_time c < wc_server_time c \<and> 0 < wc_msec c \<and> i32_ok (wc_msec c) \<and> wc_perks0 c AND PERK_FASTRELOAD = 0
     \<and> \<not> wc_mantle_weapon_inactive c \<and> oc_grenade_time_left (wc_offhand c) = 0"








text \<open>How the timers of a calm hand run down.\<close>

definition waited :: "WeaponHandState \<Rightarrow> WeaponCmd \<Rightarrow> WeaponHandState" where
  "waited h c = h\<lparr>wh_hand_index := 0, wh_weapon_time := max 0 (wh_weapon_time h - wc_msec c),
     wh_weapon_delay := max 0 (wh_weapon_delay h - wc_msec c),
     wh_weapon_restrict_kick_time := (if wh_weapon_restrict_kick_time h > 0
       then decay (wh_weapon_restrict_kick_time h) (wc_msec c) else wh_weapon_restrict_kick_time h)\<rparr>"








lemma quiet_waited [simp]: "quiet (waited h c) d = quiet h d" "quiet (h\<lparr>wh_hand_index := i\<rparr>) d = quiet h d"
  by (simp_all add: quiet_def waited_def)















section \<open>Two hands that reload together\<close>

text \<open>Both hands, tick after tick.\<close>

fun play_hands :: "WeaponCombatFacts \<Rightarrow> WeaponHandState list \<Rightarrow> WeaponCmd list \<Rightarrow> WeaponHandState list option" where
  "play_hands facts hands [] = Some hands"
| "play_hands facts hands (cmd # cmds) = (case weapon_hands hands facts cmd 1 of
     None \<Rightarrow> None
   | Some (hands, _, _) \<Rightarrow> play_hands facts hands cmds)"

text \<open>
  Two hands that reload in the same tick load the same rounds of the stock they share: with empty
  magazines of fifteen and twenty rounds in stock, a tick that starts both reloads and one that lasts as
  long as they do leave fifteen rounds in each magazine and five in stock, thirty-five in all.
\<close>

lemma akimbo_reload_creates_rounds:
  "map_option (map (\<lambda>h. (wh_weaponstate h, wh_clip h, wh_stock h))) (play_hands pistol [empty_hand 20, empty_hand 20] [plain_cmd 0 50])
     = Some [(ws Reloading, 0, 20), (ws Reloading, 0, 20)]
   \<and> map_option (map (\<lambda>h. (wh_weaponstate h, wh_clip h, wh_stock h)))
       (play_hands pistol [empty_hand 20, empty_hand 20] [plain_cmd 0 50, plain_cmd 0 2000])
     = Some [(ws Ready, 15, 5), (ws Ready, 15, 5)]"
  by code_simp

end
