(* ===== verification/Spec2Isabelle.thy ===== *)
theory Spec2Isabelle
  imports Service_Delivery Fragmentation Client_Packets Bootstrap_Lane Segment_Delta World_Sync Reliable_Queue Acked_Baseline
    Command_Inbox Action_Inbox Client_Session Weapon_Play
begin

text \<open>
  Verification of the multiplayer code of iw4L, a Rust engine for a multiplayer shooter: how players find
  each other, how a match is started, how the game's packets travel, and how the weapons that the server
  simulates behave. Paths below are relative to \<^verbatim>\<open>src/crates\<close>.

  \<^bold>\<open>The program.\<close> A relay service (\<^verbatim>\<open>iw4l-master\<close>) keeps rooms. Clients speak the control protocol of
  \<^verbatim>\<open>master_protocol\<close> with it and send it game datagrams, which it passes between the host of a room and
  its members. The host runs the authority of a match (\<^verbatim>\<open>net\<close>): it admits members by handing them a
  bootstrap of the running match, takes their commands and actions, simulates ticks (\<^verbatim>\<open>sim\<close>,
  \<^verbatim>\<open>weapon_iw4\<close>, \<^verbatim>\<open>entity_iw4\<close>) and sends snapshots back, as differences against frames the client has
  acknowledged. The rest of the repository shows the result: assets, rendering, audio and user interface.

  \<^bold>\<open>Modelling.\<close> Structs are records and enums are datatypes with the source's constructors. Unsigned
  integers are words of their width. The weapon code's \<open>i32\<close> is an integer with \<open>wrap32\<close> written wherever
  an operation may overflow, as in a release build. \<open>f32\<close> is its bit pattern, with IEEE arithmetic
  computed exactly. A fallible function returns a sum with the error on the left, a function that may
  panic returns an option or has a result for it, and a method that mutates its object returns the new
  object. Hash maps are association lists with distinct keys; B-tree maps and sorted vectors are
  association lists sorted by key. Every definition is a total function and most are executable:
  no definition has fuel; loops recurse on a list or have a measure. What is not under \<^verbatim>\<open>src\<close> is an
  argument: queues of connections, the clock, digests, random bytes, zstd (with the hypothesis that it
  decompresses what it compressed) and the simulation's snapshot, which is a type variable.

  \<^bold>\<open>The library.\<close>
  \<^item> Prelude, Rust_Std, Sorted_Table, Float32: integers, results, slices, text, maps, floats. The
    interfaces \<open>hash_table\<close> and \<open>sorted_table\<close> state what a client may rely on; they are interpreted on the
    association lists and on the tables of the world.
  \<^item> Byte_Codec: the interfaces \<open>byte_reader\<close>, \<open>codec\<close> and \<open>canonical_codec\<close>, from which round trips of
    composed messages follow; interpreted on the readers of both protocols and on their messages.

  \<^bold>\<open>The relay service.\<close>
  \<^item> Protocol_Types, Protocol_Codec, Protocol_Facts, Protocol_Properties
    (\<^verbatim>\<open>master_protocol/src/lib.rs\<close>): messages, validation, encoders and decoders. Every frame that encodes
    decodes to itself; requests and relay datagrams are accepted only in their own encoding; identifiers
    survive their text form, whose parser panics on one kind of text.
  \<^item> Transport_Budget (\<^verbatim>\<open>master_protocol/src/budget.rs\<close>, \<^verbatim>\<open>iw4l-master/src/limits.rs\<close>): the limits and their
    parsing.
  \<^item> Service_State, Service_Requests, Service_Invariant, Service_Dispatch, Service_Properties,
    Service_Delivery (\<^verbatim>\<open>iw4l-master/src/main.rs\<close>): rooms, peers, one definition per request handler, and
    delivery with its recursion on peers that cannot be reached. The tasks of the service interleave
    between lock acquisitions: \<open>service_step\<close> and its reachable states. Over these the tables stay
    consistent (changes to one room share the interface \<open>room_update\<close>), every request is answered, a match
    moves only along its phases, only the host changes its room, frames stay in the room and can be
    encoded, and each peer gets all its frames or is dropped.

  \<^bold>\<open>Sessions and transport of a match.\<close>
  \<^item> Wire_Format, Game_Protocol (\<^verbatim>\<open>net/src/transport/wire.rs\<close>, \<^verbatim>\<open>protocol.rs\<close>): the byte stream, handshake
    and connection table. Client_Actions, Client_Packets (\<^verbatim>\<open>delta.rs\<close>, \<^verbatim>\<open>meta_wire.rs\<close>,
    \<^verbatim>\<open>sim/src/input.rs\<close>): what clients send; a datagram is accepted exactly in its own encoding.
  \<^item> Fragmentation (\<^verbatim>\<open>fragment.rs\<close>): fragments in any order give the packet, within fixed bounds.
  \<^item> Bootstrap_Lane (\<^verbatim>\<open>bootstrap.rs\<close>): messages and queues of a late join. Both queues are interpreted as
    \<open>worker_queue\<close>.
  \<^item> Segment_Delta, Acked_Baseline (\<^verbatim>\<open>segment_delta.rs\<close>, \<^verbatim>\<open>frame.rs\<close>, \<^verbatim>\<open>acked_baseline.rs\<close>): frames as
    differences, and against which frames they may be made. A difference always arrives as the frame.
  \<^item> Reliable_Queue (\<^verbatim>\<open>reliable.rs\<close>): rows numbered with 16 bits refine an unbounded numbered list.
  \<^item> Command_Inbox, Action_Inbox (\<^verbatim>\<open>net/src/authority/inbox.rs\<close>): commands run once and in order, when due;
    requests are resolved once.
  \<^item> Session_Core, Client_Session (\<^verbatim>\<open>net/src/session_core.rs\<close>, \<^verbatim>\<open>frame/src/session.rs\<close>): the match on its
    host and on a client as state machines. Members enter only with the bootstrap prepared for them and
    wait no longer than the limits; clients follow only newer states of their own session.

  \<^bold>\<open>The simulated world.\<close>
  \<^item> Glass (\<^verbatim>\<open>entity_iw4/src/glass.rs\<close>, \<^verbatim>\<open>sim/src/world_objects.rs\<close>) and World_Sync
    (\<^verbatim>\<open>net/src/transport/world_object_wire.rs\<close>, \<^verbatim>\<open>world_sync.rs\<close>): breakable glass, its snapshots, and their
    transport, interpreted as \<open>synchroniser\<close>. Their composition, from a broken pane on the server to a
    client, is proved below.
  \<^item> Weapon_Tables (\<^verbatim>\<open>weapon_iw4/src/ammo.rs\<close>): the byte tables of ammunition, both interpreted as
    \<open>counter_table\<close>, refine maps until they are full.
  \<^item> Weapon_State, Weapon_Reload, Weapon_Moves, Weapon_Tick (\<^verbatim>\<open>weaponstate.rs\<close>, \<^verbatim>\<open>weap_anim.rs\<close>,
    \<^verbatim>\<open>reload.rs\<close>, \<^verbatim>\<open>melee.rs\<close>, \<^verbatim>\<open>sprint.rs\<close>, \<^verbatim>\<open>offhand.rs\<close>, \<^verbatim>\<open>weapon_change.rs\<close>, \<^verbatim>\<open>tick.rs\<close> and what they call of
    \<^verbatim>\<open>fire_weapon.rs\<close> and \<^verbatim>\<open>kick.rs\<close>): one tick of a player's hands. The two long functions
    \<open>prepare_weapon_tick\<close> and \<open>finish_weapon_tick\<close> are split into one definition per state or decision.
  \<^item> Weapon_Properties, Weapon_Play: rounds fired, loaded and in stock add up over every sequence of
    commands; a tick panics only for one kind of inventory row; a reload that is started completes; what
    two hands do to the stock they share.

  \<^bold>\<open>What the proofs found.\<close> Parsing an identifier from 32 bytes of non-ASCII text panics
  (\<open>id_from_str_panics\<close>). A bootstrap offer of nearly the largest packet encodes but cannot be relayed
  (\<open>large_offer_not_relayed\<close>). A join whose peer has just been dropped panics and leaves the member in
  the room (\<open>dropped_peer_leaves_ghost\<close>). A bootstrap entered without a match counts for the next match
  (\<open>unkeyed_enter_survives\<close>). Two hands that reload in the same tick take one stock twice
  (\<open>two_hands_rounds\<close>, \<open>akimbo_reload_creates_rounds\<close>).

  \<^bold>\<open>Not modelled.\<close> Sockets, TLS, the select loops and the Bevy systems that call the modelled functions;
  server packets, the metadata of full snapshots and player-state deltas, which carry the simulation's
  whole state; movement, traces, damage, recoil and view placement, floating-point computations without a
  discrete contract of their own; assets, rendering, audio, user interface, bots and replays.
  Integer overflow panics of debug builds are not modelled: a release build wraps. The records of the
  weapons leave out fields that no modelled function reads.
\<close>

section \<open>Glass from server to client\<close>

lemma to_snapshot_sendable:
  assumes "world_ok st" and "length (wo_glass_pieces st) < 2 ^ 16" and "length (wo_destructible_loop_sounds st) < 2 ^ 16"
    and "list_all loop_ok (wo_destructible_loop_sounds st)"
  shows "sync_ok (to_snapshot st)"
proof -
  have "length (ws_glass_pieces (to_snapshot st)) \<le> length (wo_glass_pieces st)"
    by (simp add: to_snapshot_def sort_pairs_def map_filter_def)
  then have "length (ws_glass_pieces (to_snapshot st)) < 2 ^ 16" using assms(2) by simp
  moreover have "seed_ok row" if "glass_row_ok row" for row
    using that by (auto simp: glass_row_ok_def seed_ok_def split: option.splits)
  ultimately show ?thesis using to_snapshot_ok [OF assms(1)] assms(3,4)
    by (auto simp: sync_ok_def snapshot_ok_def list_all_iff to_snapshot_def)
qed

text \<open>Only the glass of a snapshot decides what an adopting world holds of it.\<close>

lemma adopt_same_glass:
  assumes "snapshot_ok s" and "ws_glass_pieces t = ws_glass_pieces s"
  shows "glass_piece (adopt_snapshot st t) = glass_piece (adopt_snapshot st s)"
    and "glass_native_meta (adopt_snapshot st t) = glass_native_meta (adopt_snapshot st s)"
proof -
  have "snapshot_ok t" using assms by (simp add: snapshot_ok_def)
  with assms show "glass_piece (adopt_snapshot st t) = glass_piece (adopt_snapshot st s)"
    "glass_native_meta (adopt_snapshot st t) = glass_native_meta (adopt_snapshot st s)"
    by (simp_all add: fun_eq_iff adopt_snapshot_looks)
qed

text \<open>
  C28. Glass breaks the same way everywhere. The server's world, in any state a match can reach, is
  sent through the encoder to a decoder that is in step with it; the client that adopts what the
  decoder yields, whatever it held before, sees every piece in the server's state, and every broken
  piece with the server's record of how it broke.
\<close>

theorem replicated_glass:
  assumes "match_world st" and "length (wo_glass_pieces st) < 2 ^ 16" and "length (wo_destructible_loop_sounds st) < 2 ^ 16"
    and "list_all loop_ok (wo_destructible_loop_sounds st)" and "in_step e d"
  shows "\<exists>wire e' snap d'. sync_encode e tick (to_snapshot st) = Some (wire, e') \<and> apply_wire d wire = Inr (snap, d') \<and> in_step e' d'
    \<and> glass_piece_state (adopt_snapshot client snap) k = glass_piece_state st k
    \<and> glass_break_record (adopt_snapshot client snap) k = glass_break_record st k"
proof -
  have w: "world_ok st" by (rule match_world_ok [OF assms(1)])
  obtain wire e' d' snap where s: "sync_encode e tick (to_snapshot st) = Some (wire, e')" "apply_wire d wire = Inr (snap, d')"
    "in_step e' d'" "same_world snap (to_snapshot st)"
    using ws.follows [OF assms(5) to_snapshot_sendable [OF w assms(2-4)], of tick] by blast
  then have "ws_glass_pieces snap = ws_glass_pieces (to_snapshot st)" by (simp add: same_world_def)
  note g = adopt_same_glass [OF to_snapshot_ok [OF w] this, of client]
  have "glass_piece_state (adopt_snapshot client snap) k = glass_piece_state st k
    \<and> glass_break_record (adopt_snapshot client snap) k = glass_break_record st k"
    using adopt_reproduces [OF assms(1), of client k] by (simp add: glass_piece_state_def glass_break_record_def g)
  with s show ?thesis by blast
qed

theorem replicated_glass_witness:
  "\<exists>wire e' snap d'. sync_encode \<lparr>se_baseline = snapshot_default, se_force_full = True\<rparr> 1 (to_snapshot broken_world) = Some (wire, e')
    \<and> apply_wire \<lparr>sd_state = snapshot_default\<rparr> wire = Inr (snap, d')
    \<and> glass_piece_state (adopt_snapshot world_default snap) 7 = Shattered
    \<and> glass_break_record (adopt_snapshot world_default snap) 7 = Some broken_record"
proof -
  have "match_world broken_world"
    unfolding broken_world_def by (rule match_world.step [OF match_world.start glass_step.hit])
  moreover have "length (wo_glass_pieces broken_world) < 2 ^ 16" "wo_destructible_loop_sounds broken_world = []"
    by (simp_all add: broken_world_tables)
  ultimately show ?thesis
    using replicated_glass [of broken_world "\<lparr>se_baseline = snapshot_default, se_force_full = True\<rparr>" "\<lparr>sd_state = snapshot_default\<rparr>" 1 world_default 7]
    by (auto simp: in_step_def broken_world_facts)
qed

end
